(* ===== verification/Go_Prelude.thy ===== *)
theory Go_Prelude
  imports Main "HOL-Library.AList" "HOL-Library.State_Monad"
begin

text \<open>
  What the components share: the Go language and the standard-library functions the controller
  calls on strings, Go maps as association lists, error values, the panic outcome, and the
  state-passing programs every handler is written in, with the rules that carry an invariant
  through them.

  A Go string and a Go byte slice are both a list of bytes, here a HOL \<^typ>\<open>string\<close> (a
  \<^typ>\<open>char\<close> is one byte).  A Go map is an association list with distinct keys whose order is
  the order a \<^verbatim>\<open>range\<close> over it visits; the theorems quantify over every such list, hence over
  every iteration order the runtime may choose.  A nil map and an empty map are both \<^verbatim>\<open>[]\<close>
  where the sources only read nil maps or replace them before writing; elsewhere the type is an option.
\<close>

named_theorems keeps_rules \<open>rules that carry an invariant through a program\<close>
named_theorems gomap \<open>equations of the Go map operations\<close>

section \<open>Strings\<close>

definition lower_char :: "char \<Rightarrow> char" where
  "lower_char c =
     (let n = (of_char c :: nat) in if 65 \<le> n \<and> n \<le> 90 then char_of (n + 32) else c)"

text \<open>\<^verbatim>\<open>strings.ToLower\<close> on the bytes of an ASCII string; resource kinds are ASCII.\<close>

definition ToLower :: "string \<Rightarrow> string" where
  "ToLower s = map lower_char s"

definition HasPrefix :: "string \<Rightarrow> string \<Rightarrow> bool" where
  "HasPrefix s p \<longleftrightarrow> take (length p) s = p"

fun StrContains :: "string \<Rightarrow> string \<Rightarrow> bool" where
  "StrContains [] sub \<longleftrightarrow> sub = []"
| "StrContains (c # cs) sub \<longleftrightarrow> HasPrefix (c # cs) sub \<or> StrContains cs sub"

text \<open>\<^verbatim>\<open>strings.Split\<close> for a non-empty separator (the sources use \<open>:\<close>, \<open>.\<close> and \<open>@@\<close>).\<close>

function split_from :: "string \<Rightarrow> string \<Rightarrow> string \<Rightarrow> string list" where
  "split_from sep acc [] = [rev acc]"
| "split_from sep acc (c # cs) =
     (if sep \<noteq> [] \<and> HasPrefix (c # cs) sep
      then rev acc # split_from sep [] (drop (length sep) (c # cs))
      else split_from sep (c # acc) cs)"
  by pat_completeness auto
termination
proof (relation "measure (\<lambda>(sep, acc, s). length s)", goal_cases)
  case 1
  then show ?case by simp
next
  case (2 sep acc c cs)
  then show ?case by (cases sep) auto
next
  case 3
  then show ?case by simp
qed

definition Split :: "string \<Rightarrow> string \<Rightarrow> string list" where
  "Split s sep = split_from sep [] s"

fun Join :: "string list \<Rightarrow> string \<Rightarrow> string" where
  "Join [] sep = []"
| "Join [x] sep = x"
| "Join (x # y # ys) sep = x @ sep @ Join (y # ys) sep"

lemma split_from_nonempty [simp]: "split_from sep acc s \<noteq> []"
  by (induction sep acc s rule: split_from.induct) auto

lemma Split_nonempty [simp]: "Split s sep \<noteq> []"
  by (simp add: Split_def)

lemma HasPrefix_append [simp]: "HasPrefix (p @ s) p"
  by (simp add: HasPrefix_def)

lemma HasPrefix_single [simp]: "HasPrefix (c # cs) [x] \<longleftrightarrow> c = x"
  by (auto simp: HasPrefix_def)

lemma split_from_no_sep: "x \<notin> set s \<Longrightarrow> split_from [x] acc s = [rev acc @ s]"
  by (induction s arbitrary: acc) auto

lemma split_from_sep:
  "x \<notin> set s \<Longrightarrow> split_from [x] acc (s @ x # t) = (rev acc @ s) # split_from [x] [] t"
  by (induction s arbitrary: acc) auto

text \<open>Splitting at a separator that the first segment does not contain.\<close>

lemma Split_Cons_sep: "x \<notin> set s \<Longrightarrow> Split (s @ x # t) [x] = s # Split t [x]"
  by (simp add: Split_def split_from_sep)

lemma Split_no_sep: "x \<notin> set s \<Longrightarrow> Split s [x] = [s]"
  by (simp add: Split_def split_from_no_sep)

lemma Join_append_single: "xs \<noteq> [] \<Longrightarrow> Join (xs @ [y]) sep = Join xs sep @ sep @ y"
  by (induction xs sep rule: Join.induct) auto

lemma append_sep_eq:
  "x \<notin> set a \<Longrightarrow> x \<notin> set b \<Longrightarrow> a @ x # s = b @ x # t \<longleftrightarrow> a = b \<and> s = t"
proof (induction a arbitrary: b)
  case Nil
  then show ?case by (cases b) auto
next
  case (Cons c a)
  then show ?case by (cases b) auto
qed

section \<open>Go maps\<close>

type_synonym ('k, 'v) gomap = "('k \<times> 'v) list"

abbreviation mget :: "('k, 'v) gomap \<Rightarrow> 'k \<Rightarrow> 'v option" where
  "mget m k \<equiv> map_of m k"

abbreviation mput :: "'k \<Rightarrow> 'v \<Rightarrow> ('k, 'v) gomap \<Rightarrow> ('k, 'v) gomap" where
  "mput k v m \<equiv> AList.update k v m"

abbreviation mdel :: "'k \<Rightarrow> ('k, 'v) gomap \<Rightarrow> ('k, 'v) gomap" where
  "mdel k m \<equiv> AList.delete k m"

abbreviation mkeys :: "('k, 'v) gomap \<Rightarrow> 'k list" where
  "mkeys m \<equiv> map fst m"

text \<open>Indexing a Go map with a missing key gives the zero value.\<close>

definition mget0 :: "'v \<Rightarrow> ('k, 'v) gomap \<Rightarrow> 'k \<Rightarrow> 'v" where
  "mget0 z m k = (case mget m k of Some v \<Rightarrow> v | None \<Rightarrow> z)"

lemma mget_mput [gomap]: "mget (mput k v m) j = (if j = k then Some v else mget m j)"
  by (simp add: update_conv')

lemma mget_mdel [gomap]: "mget (mdel k m) j = (if j = k then None else mget m j)"
  by (simp add: delete_conv')

lemma mget0_mput [gomap]: "mget0 z (mput k v m) j = (if j = k then v else mget0 z m j)"
  by (simp add: mget0_def gomap)

lemma mget0_mdel [gomap]: "mget0 z (mdel k m) j = (if j = k then z else mget0 z m j)"
  by (simp add: mget0_def gomap)

lemma mget_Some_iff: "distinct (mkeys m) \<Longrightarrow> mget m k = Some v \<longleftrightarrow> (k, v) \<in> set m"
  by (auto dest: map_of_SomeD)

lemma mkeys_iff: "k \<in> set (mkeys m) \<longleftrightarrow> mget m k \<noteq> None"
  by (simp add: map_of_eq_None_iff)

lemma mkey_iff: "k \<in> fst ` set m \<longleftrightarrow> (\<exists>v. mget m k = Some v)"
  using map_of_eq_None_iff [of m k] by fastforce

lemma set_mput: "set (mput k v m) \<subseteq> insert (k, v) (set m)"
  by (induction m) auto

lemma set_mdel: "set (mdel k m) \<subseteq> set m"
  by (auto simp: AList.delete_eq)

section \<open>Errors and panics\<close>

text \<open>
  An error value: the API-server errors the code distinguishes with \<^verbatim>\<open>errors.IsNotFound\<close> and
  \<^verbatim>\<open>errors.IsConflict\<close>, and every other error, each with the text \<^verbatim>\<open>Error()\<close> returns.
\<close>

datatype go_error = ErrNotFound string | ErrConflict string | ErrOther string

fun ErrorText :: "go_error \<Rightarrow> string" where
  "ErrorText (ErrNotFound m) = m"
| "ErrorText (ErrConflict m) = m"
| "ErrorText (ErrOther m) = m"

fun IsNotFound :: "go_error \<Rightarrow> bool" where
  "IsNotFound (ErrNotFound _) \<longleftrightarrow> True"
| "IsNotFound _ \<longleftrightarrow> False"

fun IsConflict :: "go_error \<Rightarrow> bool" where
  "IsConflict (ErrConflict _) \<longleftrightarrow> True"
| "IsConflict _ \<longleftrightarrow> False"

text \<open>\<^verbatim>\<open>fmt.Sprintf("%s", err)\<close>; a nil error prints as \<^verbatim>\<open>%!s(<nil>)\<close>.\<close>

definition Sprintf_err :: "go_error option \<Rightarrow> string" where
  "Sprintf_err e = (case e of None \<Rightarrow> ''%!s(<nil>)'' | Some x \<Rightarrow> ErrorText x)"

datatype 'a outcome = Panic | Ok 'a

section \<open>Programs: a state and a result\<close>

abbreviation ret :: "'a \<Rightarrow> ('s, 'a) state" where
  "ret x \<equiv> State_Monad.return x"

abbreviation exec :: "('s, 'a) state \<Rightarrow> 's \<Rightarrow> 's" where
  "exec m s \<equiv> snd (run_state m s)"

abbreviation result :: "('s, 'a) state \<Rightarrow> 's \<Rightarrow> 'a" where
  "result m s \<equiv> fst (run_state m s)"

definition gets :: "('s \<Rightarrow> 'a) \<Rightarrow> ('s, 'a) state" where
  "gets f = State (\<lambda>s. (f s, s))"

definition modify :: "('s \<Rightarrow> 's) \<Rightarrow> ('s, unit) state" where
  "modify f = State (\<lambda>s. ((), f s))"

text \<open>A call that may panic: the rest of the caller runs only if it did not.\<close>

definition bindO ::
  "('s, 'a outcome) state \<Rightarrow> ('a \<Rightarrow> ('s, 'b outcome) state) \<Rightarrow> ('s, 'b outcome) state" where
  "bindO m f = do { r \<leftarrow> m; (case r of Panic \<Rightarrow> ret Panic | Ok x \<Rightarrow> f x) }"

text \<open>\<^verbatim>\<open>for _, x := range xs\<close> with a body that may panic.\<close>

fun for_each :: "('a \<Rightarrow> ('s, unit outcome) state) \<Rightarrow> 'a list \<Rightarrow> ('s, unit outcome) state" where
  "for_each f [] = ret (Ok ())"
| "for_each f (x # xs) = bindO (f x) (\<lambda>_. for_each f xs)"

text \<open>A loop whose body may return an error, at which the loop stops.\<close>

fun for_until_err :: "('a \<Rightarrow> ('s, go_error option) state) \<Rightarrow> 'a list \<Rightarrow> ('s, go_error option) state" where
  "for_until_err f [] = ret None"
| "for_until_err f (x # xs) =
     do { r \<leftarrow> f x; (case r of Some e \<Rightarrow> ret (Some e) | None \<Rightarrow> for_until_err f xs) }"

lemma run_gets [simp]: "run_state (gets f) s = (f s, s)"
  by (simp add: gets_def)

lemma run_modify [simp]: "run_state (modify f) s = ((), f s)"
  by (simp add: modify_def)

lemma run_bindO:
  "run_state (bindO m f) s =
     (case run_state m s of (Panic, s') \<Rightarrow> (Panic, s') | (Ok x, s') \<Rightarrow> run_state (f x) s')"
  by (simp add: bindO_def split: prod.splits outcome.splits)

lemma bindO_Panic [simp]: "bindO (ret Panic) f = ret Panic"
  by (simp add: bindO_def)

lemma bindO_Ok [simp]: "bindO (ret (Ok x)) f = f x"
  by (simp add: bindO_def)

lemma for_each_append:
  "for_each f (xs @ ys) = bindO (for_each f xs) (\<lambda>_. for_each f ys)"
proof (induction xs)
  case Nil
  show ?case by simp
next
  case (Cons x xs)
  show ?case
    by (rule state_ext) (simp add: Cons.IH run_bindO split: prod.splits outcome.splits)
qed

lemma for_each_cong:
  "(\<And>x. x \<in> set xs \<Longrightarrow> f x = g x) \<Longrightarrow> for_each f xs = for_each g xs"
  by (induction xs) auto

subsection \<open>Invariants of programs\<close>

text \<open>
  \<open>keeps I m\<close>: whatever the program \<open>m\<close> does, an error or a panic included, it leaves a state
  with \<open>I\<close> when started in one.
\<close>

definition keeps :: "('s \<Rightarrow> bool) \<Rightarrow> ('s, 'a) state \<Rightarrow> bool" where
  "keeps I m \<longleftrightarrow> (\<forall>s. I s \<longrightarrow> I (exec m s))"

lemma keepsI: "(\<And>s. I s \<Longrightarrow> I (exec m s)) \<Longrightarrow> keeps I m"
  by (simp add: keeps_def)

lemma keepsD: "keeps I m \<Longrightarrow> I s \<Longrightarrow> I (exec m s)"
  by (simp add: keeps_def)

lemma keeps_ret [keeps_rules]: "keeps I (ret x)"
  by (simp add: keeps_def)

lemma keeps_gets [keeps_rules]: "keeps I (gets f)"
  by (simp add: keeps_def)

lemma keeps_modify: "(\<And>s. I s \<Longrightarrow> I (f s)) \<Longrightarrow> keeps I (modify f)"
  by (simp add: keeps_def)

lemma keeps_bind [keeps_rules]:
  "keeps I m \<Longrightarrow> (\<And>x. keeps I (f x)) \<Longrightarrow> keeps I (State_Monad.bind m f)"
  by (simp add: keeps_def split: prod.splits) (metis snd_conv)

lemma keeps_bindO [keeps_rules]:
  "keeps I m \<Longrightarrow> (\<And>x. keeps I (f x)) \<Longrightarrow> keeps I (bindO m f)"
  unfolding bindO_def by (intro keeps_bind) (auto split: outcome.split intro: keeps_ret)

lemma keeps_for_each [keeps_rules]:
  "(\<And>x. keeps I (f x)) \<Longrightarrow> keeps I (for_each f xs)"
  by (induction xs) (auto intro: keeps_rules)

lemma keeps_for_until_err [keeps_rules]:
  "(\<And>x. keeps I (f x)) \<Longrightarrow> keeps I (for_until_err f xs)"
  by (induction xs) (auto intro!: keeps_rules split: option.split)

lemma keeps_if [keeps_rules]:
  "(b \<Longrightarrow> keeps I m) \<Longrightarrow> (\<not> b \<Longrightarrow> keeps I n) \<Longrightarrow> keeps I (if b then m else n)"
  by simp

lemma keeps_case_option [keeps_rules]:
  "(x = None \<Longrightarrow> keeps I m) \<Longrightarrow> (\<And>y. x = Some y \<Longrightarrow> keeps I (f y)) \<Longrightarrow>
   keeps I (case x of None \<Rightarrow> m | Some y \<Rightarrow> f y)"
  by (simp split: option.split)

lemma keeps_case_sum [keeps_rules]:
  "(\<And>e. x = Inl e \<Longrightarrow> keeps I (f e)) \<Longrightarrow> (\<And>y. x = Inr y \<Longrightarrow> keeps I (g y)) \<Longrightarrow>
   keeps I (case x of Inl e \<Rightarrow> f e | Inr y \<Rightarrow> g y)"
  by (simp split: sum.split)

lemma keeps_case_outcome [keeps_rules]:
  "(x = Panic \<Longrightarrow> keeps I m) \<Longrightarrow> (\<And>y. x = Ok y \<Longrightarrow> keeps I (f y)) \<Longrightarrow>
   keeps I (case x of Panic \<Rightarrow> m | Ok y \<Rightarrow> f y)"
  by (simp split: outcome.split)

lemma keeps_case_prod [keeps_rules]:
  "(\<And>a b. x = (a, b) \<Longrightarrow> keeps I (f a b)) \<Longrightarrow> keeps I (case x of (a, b) \<Rightarrow> f a b)"
  by (simp split: prod.split)

lemma keeps_Let [keeps_rules]: "keeps I (f x) \<Longrightarrow> keeps I (Let x f)"
  by simp

lemma keeps_conj: "keeps I m \<Longrightarrow> keeps J m \<Longrightarrow> keeps (\<lambda>s. I s \<and> J s) m"
  by (simp add: keeps_def)

end
