(* ===== verification/Api_Types.thy ===== *)
theory Api_Types
  imports Go_Prelude
begin

text \<open>
  The data of the controller: the custom resources of \<^verbatim>\<open>api/v1\<close>, and the fields of the
  Kubernetes objects (ConfigMap, Secret, object references) that the sources read or write.
  Metadata fields of Kubernetes types that no source line touches are left out; the API server
  is a parameter of the operations (theory \<open>Kube_Env\<close>), so nothing depends on them.
\<close>

section \<open>Kubernetes objects\<close>

record GroupVersionKind =
  gvk_Group :: string
  gvk_Version :: string
  gvk_Kind :: string

record ObjectReference =
  or_Kind :: string
  or_Namespace :: string
  or_Name :: string
  or_APIVersion :: string

record NamespacedName =
  nn_Namespace :: string
  nn_Name :: string

record ObjectMeta =
  om_Namespace :: string
  om_Name :: string
  om_Kind :: string
  om_APIVersion :: string
  om_Generation :: int
  om_ResourceVersion :: string
  om_DeletionTimestamp :: "nat option"
  om_Finalizers :: "string list"
  om_Labels :: "(string, string) gomap"

record ConfigMap =
  cm_Meta :: ObjectMeta
  cm_Data :: "(string, string) gomap"
  cm_BinaryData :: "(string, string) gomap"

record Secret =
  sec_Meta :: ObjectMeta
  sec_Data :: "(string, string) gomap"

text \<open>The dynamic types behind \<^verbatim>\<open>client.Object\<close> where the config synchronisation uses it.\<close>

datatype Object = ObjConfigMap ConfigMap | ObjSecret Secret

fun obj_meta :: "Object \<Rightarrow> ObjectMeta" where
  "obj_meta (ObjConfigMap c) = cm_Meta c"
| "obj_meta (ObjSecret s) = sec_Meta s"

definition zero_meta :: ObjectMeta where
  "zero_meta = \<lparr>om_Namespace = [], om_Name = [], om_Kind = [], om_APIVersion = [],
     om_Generation = 0, om_ResourceVersion = [], om_DeletionTimestamp = None,
     om_Finalizers = [], om_Labels = []\<rparr>"

section \<open>DynamicConfiguration\<close>

text \<open>
  \<^verbatim>\<open>DynamicConfigurationSyncScope\<close> and \<^verbatim>\<open>DynamicConfigurationSyncConflictPolicy\<close> are named
  string types: any string can arrive, the constants are the supported ones.
\<close>

definition PreferCluster :: string where "PreferCluster = ''preferCluster''"
definition PreferServer :: string where "PreferServer = ''preferServer''"
definition SyncScopePartial :: string where "SyncScopePartial = ''partial''"
definition SyncScopeFull :: string where "SyncScopeFull = ''full''"

record SyncStrategy =
  ss_SyncScope :: string
  ss_SyncDeletion :: bool
  ss_ConflictPolicy :: string

record NacosServerConfiguration =
  ns_Endpoint :: string
  ns_ServerAddr :: string
  ns_Namespace :: string
  ns_AuthRef :: "ObjectReference option"

record NacosServerStatus =
  nst_Endpoint :: string
  nst_ServerAddr :: string
  nst_Namespace :: string

record SyncStatus =
  st_DataId :: string
  st_LastSyncTime :: nat
  st_LastSyncFrom :: string
  st_Md5 :: string
  st_Ready :: bool
  st_Message :: string

record AdditionalConfiguration =
  ac_Labels :: "(string, string) gomap"
  ac_Properties :: "(string, string) gomap"
  ac_Tags :: "(string, string) gomap"

text \<open>The webhook distinguishes a nil \<^verbatim>\<open>ObjectRefs\<close> slice from an empty one: \<open>None\<close> is nil.\<close>

record DynamicConfigurationSpec =
  spec_AdditionalConf :: "AdditionalConfiguration option"
  spec_Strategy :: SyncStrategy
  spec_NacosServer :: NacosServerConfiguration
  spec_ObjectRefs :: "ObjectReference list option"

record DynamicConfigurationStatus =
  sts_Phase :: string
  sts_Message :: string
  sts_ObservedGeneration :: int
  sts_SyncStatuses :: "(string, SyncStatus list) gomap"
  sts_ListenConfigs :: "(string, string list) gomap"
  sts_NacosServerStatus :: NacosServerStatus
  sts_SyncStrategyStatus :: SyncStrategy

record DynamicConfiguration =
  dc_Meta :: ObjectMeta
  dc_Spec :: DynamicConfigurationSpec
  dc_Status :: DynamicConfigurationStatus

definition zero_strategy :: SyncStrategy where
  "zero_strategy = \<lparr>ss_SyncScope = [], ss_SyncDeletion = False, ss_ConflictPolicy = []\<rparr>"

definition zero_server_status :: NacosServerStatus where
  "zero_server_status = \<lparr>nst_Endpoint = [], nst_ServerAddr = [], nst_Namespace = []\<rparr>"

abbreviation dc_Namespace :: "DynamicConfiguration \<Rightarrow> string" where
  "dc_Namespace dc \<equiv> om_Namespace (dc_Meta dc)"

abbreviation dc_Name :: "DynamicConfiguration \<Rightarrow> string" where
  "dc_Name dc \<equiv> om_Name (dc_Meta dc)"

abbreviation dc_Strategy :: "DynamicConfiguration \<Rightarrow> SyncStrategy" where
  "dc_Strategy dc \<equiv> spec_Strategy (dc_Spec dc)"

abbreviation dc_NacosServer :: "DynamicConfiguration \<Rightarrow> NacosServerConfiguration" where
  "dc_NacosServer dc \<equiv> spec_NacosServer (dc_Spec dc)"

abbreviation dc_SyncStatuses :: "DynamicConfiguration \<Rightarrow> (string, SyncStatus list) gomap" where
  "dc_SyncStatuses dc \<equiv> sts_SyncStatuses (dc_Status dc)"

abbreviation dc_ListenConfigs :: "DynamicConfiguration \<Rightarrow> (string, string list) gomap" where
  "dc_ListenConfigs dc \<equiv> sts_ListenConfigs (dc_Status dc)"

text \<open>Ranging over the \<^verbatim>\<open>ObjectRefs\<close> slice: nil and empty both give no iteration.\<close>

definition object_refs :: "DynamicConfiguration \<Rightarrow> ObjectReference list" where
  "object_refs dc = (case spec_ObjectRefs (dc_Spec dc) of None \<Rightarrow> [] | Some refs \<Rightarrow> refs)"

section \<open>Constants of \<^verbatim>\<open>pkg/constant.go\<close>\<close>

definition FinalizerName :: string where "FinalizerName = ''nacos.io/dc-finalizer''"
definition PhaseSucceed :: string where "PhaseSucceed = ''succeed''"
definition PhaseFailed :: string where "PhaseFailed = ''failed''"

lemmas dc_constants =
  PreferCluster_def PreferServer_def SyncScopePartial_def SyncScopeFull_def
  FinalizerName_def PhaseSucceed_def PhaseFailed_def

end
