(* ===== verification/Pkg_Utils.thy ===== *)
theory Pkg_Utils
  imports Api_Types
begin

text \<open>
  The slice helpers of \<^verbatim>\<open>pkg/utils.go\<close>, \<^verbatim>\<open>util.go\<close> and the webhook.  \<^verbatim>\<open>Remove\<close> deletes from the
  slice it ranges over, so it is modelled on the backing array: the range reads the array as the
  earlier iterations left it, and the slice expressions check their bounds.
\<close>

fun Contains :: "string list \<Rightarrow> string \<Rightarrow> bool" where
  "Contains [] s \<longleftrightarrow> False"
| "Contains (v # vs) s \<longleftrightarrow> (if v = s then True else Contains vs s)"

fun StringSliceContains :: "string list \<Rightarrow> string \<Rightarrow> bool" where
  "StringSliceContains [] item \<longleftrightarrow> False"
| "StringSliceContains (v # vs) item \<longleftrightarrow> (if v = item then True else StringSliceContains vs item)"

definition stringsContains :: "string list \<Rightarrow> string \<Rightarrow> bool" where
  "stringsContains arr item = (if length arr = 0 then False else StringSliceContains arr item)"

text \<open>
  \<open>remove_from s i k arr m\<close>: \<open>k\<close> iterations are left, the next at index \<open>i\<close>; \<open>arr\<close> is the backing
  array (of the length the range expression had) and \<open>m\<close> the length of the slice \<^verbatim>\<open>list\<close>.
\<close>

fun remove_from :: "string \<Rightarrow> nat \<Rightarrow> nat \<Rightarrow> string list \<Rightarrow> nat \<Rightarrow> string list outcome" where
  "remove_from s i 0 arr m = Ok (take m arr)"
| "remove_from s i (Suc k) arr m =
     (if arr ! i = s
      then if Suc i \<le> m
           then remove_from s (Suc i) k
                  (take i arr @ take (m - Suc i) (drop (Suc i) arr) @ drop (m - 1) arr) (m - 1)
           else Panic
      else remove_from s (Suc i) k arr m)"

definition Remove :: "string list \<Rightarrow> string \<Rightarrow> string list outcome" where
  "Remove l s = remove_from s 0 (length l) l (length l)"

lemma Contains_iff [simp]: "Contains l s \<longleftrightarrow> s \<in> set l"
  by (induction l) auto

lemma StringSliceContains_iff [simp]: "StringSliceContains l s \<longleftrightarrow> s \<in> set l"
  by (induction l) auto

lemma stringsContains_iff [simp]: "stringsContains l s \<longleftrightarrow> s \<in> set l"
  by (auto simp: stringsContains_def)

lemma remove_from_skip:
  "(\<And>j. j < a \<Longrightarrow> arr ! (i + j) \<noteq> s) \<Longrightarrow>
   remove_from s i (a + b) arr m = remove_from s (i + a) b arr m"
proof (induction a arbitrary: i)
  case 0
  show ?case by simp
next
  case (Suc a)
  have "arr ! (Suc i + j) \<noteq> s" if "j < a" for j
    using Suc.prems [of "Suc j"] that by simp
  from Suc.IH [OF this] Suc.prems [of 0] show ?case by simp
qed

lemma remove_from_none:
  "(\<And>j. j < k \<Longrightarrow> arr ! (i + j) \<noteq> s) \<Longrightarrow> remove_from s i k arr m = Ok (take m arr)"
  using remove_from_skip [of k arr i s 0 m] by simp

lemma Remove_absent: "s \<notin> set l \<Longrightarrow> Remove l s = Ok l"
  unfolding Remove_def by (subst remove_from_none) auto

lemma Remove_once:
  assumes "s \<notin> set xs" "s \<notin> set ys"
  shows "Remove (xs @ s # ys) s = Ok (xs @ ys)"
proof -
  let ?l = "xs @ s # ys"
  let ?a = "xs @ ys @ drop (length xs + length ys) ?l"
  have skip: "?l ! (0 + j) \<noteq> s" if "j < length xs" for j
    using that assms by (auto simp: nth_append)
  have len: "length ?l = length xs + Suc (length ys)" by simp
  have "Remove ?l s = remove_from s (0 + length xs) (Suc (length ys)) ?l (length xs + Suc (length ys))"
    unfolding Remove_def len by (rule remove_from_skip [OF skip])
  also have "\<dots> = remove_from s (Suc (length xs)) (length ys) ?a (length xs + length ys)"
    by (simp add: nth_append)
  also have "\<dots> = Ok (take (length xs + length ys) ?a)"
  proof (rule remove_from_none)
    fix j assume j: "j < length ys"
    show "?a ! (Suc (length xs) + j) \<noteq> s"
    proof (cases "Suc j < length ys")
      case True
      then show ?thesis using assms by (auto simp: nth_append)
    next
      case False
      with j have "j = length ys - 1" and "ys \<noteq> []" by auto
      then show ?thesis
        using assms by (cases ys rule: rev_cases) (auto simp: nth_append)
    qed
  qed
  finally show ?thesis by simp
qed

lemma Remove_at_most_once:
  assumes "count_list l s \<le> 1"
  shows "Remove l s = Ok (removeAll s l)"
proof (cases "s \<in> set l")
  case True
  then obtain xs ys where l: "l = xs @ s # ys"
    by (auto dest: split_list)
  with assms have "s \<notin> set xs" "s \<notin> set ys"
    by (auto simp: count_list_0_iff [symmetric])
  with l show ?thesis by (simp add: Remove_once removeAll_id)
next
  case False
  then show ?thesis by (simp add: Remove_absent removeAll_id)
qed

lemma count_list_distinct: "distinct l \<Longrightarrow> count_list l s \<le> 1"
  by (induction l) (auto simp: count_list_0_iff)

lemma Remove_distinct: "distinct l \<Longrightarrow> Remove l s = Ok (removeAll s l)"
  by (intro Remove_at_most_once count_list_distinct)

text \<open>With two adjacent occurrences at the end the second deletion slices out of range.\<close>

lemma Remove_twice_panics: "Remove (xs @ [s, s]) s = Panic" if "s \<notin> set xs"
proof -
  have skip: "(xs @ [s, s]) ! (0 + j) \<noteq> s" if "j < length xs" for j
    using that \<open>s \<notin> set xs\<close> by (auto simp: nth_append)
  have len: "length (xs @ [s, s]) = length xs + 2" by simp
  have "Remove (xs @ [s, s]) s = remove_from s (0 + length xs) 2 (xs @ [s, s]) (length xs + 2)"
    unfolding Remove_def len by (rule remove_from_skip [OF skip])
  then show ?thesis by (simp add: numeral_2_eq_2 nth_append)
qed

end
