(* ===== verification/Go_Base64.thy ===== *)
theory Go_Base64
  imports Go_Prelude
begin

text \<open>
  Go's \<^verbatim>\<open>base64.StdEncoding\<close> as \<^verbatim>\<open>util.go\<close> uses it for Secret values: \<^verbatim>\<open>EncodeToString\<close> and
  \<^verbatim>\<open>DecodeString\<close>, the latter with the standard library's rules: CR and LF are skipped anywhere,
  padding is required, unused trailing bits are not checked, and an error carries the offset of
  the offending byte.  The round trip and the canonical form are proved here.
\<close>

section \<open>The alphabet\<close>

definition b64_char :: "nat \<Rightarrow> char" where
  "b64_char n =
     (if n < 26 then char_of (65 + n)
      else if n < 52 then char_of (97 + (n - 26))
      else if n < 62 then char_of (48 + (n - 52))
      else if n = 62 then CHR ''+'' else CHR ''/'')"

definition b64_index :: "char \<Rightarrow> nat option" where
  "b64_index c =
     (let n = (of_char c :: nat) in
      if 65 \<le> n \<and> n \<le> 90 then Some (n - 65)
      else if 97 \<le> n \<and> n \<le> 122 then Some (n - 97 + 26)
      else if 48 \<le> n \<and> n \<le> 57 then Some (n - 48 + 52)
      else if c = CHR ''+'' then Some 62
      else if c = CHR ''/'' then Some 63
      else None)"

definition is_newline :: "char \<Rightarrow> bool" where
  "is_newline c \<longleftrightarrow> of_char c = (10 :: nat) \<or> of_char c = (13 :: nat)"

lemma b64_index_char [simp]: "n < 64 \<Longrightarrow> b64_index (b64_char n) = Some n"
proof -
  assume n: "n < 64"
  have plus: "of_char (CHR ''+'') = (43 :: nat)" and slash: "of_char (CHR ''/'') = (47 :: nat)"
    by simp_all
  show ?thesis
    using n by (auto simp: b64_char_def b64_index_def Let_def plus slash)
qed

lemma b64_index_pad [simp]: "b64_index (CHR ''='') = None"
  by (simp add: b64_index_def)

lemma is_newline_pad [simp]: "\<not> is_newline (CHR ''='')"
  by (simp add: is_newline_def)

section \<open>Encoding\<close>

text \<open>The four 6-bit digits of three bytes.\<close>

definition b64_quad :: "char \<Rightarrow> char \<Rightarrow> char \<Rightarrow> nat list" where
  "b64_quad x y z =
     (let a = of_char x; b = of_char y; c = of_char z in
      [a div 4, a mod 4 * 16 + b div 16, b mod 16 * 4 + c div 64, c mod 64])"

fun EncodeToString :: "string \<Rightarrow> string" where
  "EncodeToString [] = []"
| "EncodeToString [x] = map b64_char (take 2 (b64_quad x (char_of (0::nat)) (char_of (0::nat)))) @ ''==''"
| "EncodeToString [x, y] = map b64_char (take 3 (b64_quad x y (char_of (0::nat)))) @ ''=''"
| "EncodeToString (x # y # z # r) = map b64_char (b64_quad x y z) @ EncodeToString r"

section \<open>Decoding\<close>

text \<open>The bytes of a quantum of four digits, and of the incomplete last one.\<close>

definition quantum_bytes :: "nat list \<Rightarrow> string" where
  "quantum_bytes d =
     (let v = d ! 0 * 262144 + d ! 1 * 4096 + d ! 2 * 64 + d ! 3 in
      [char_of (v div 65536 mod 256), char_of (v div 256 mod 256), char_of (v mod 256)])"

text \<open>
  \<open>decode_from si d s out\<close>: \<open>si\<close> is the offset of the next byte, \<open>d\<close> the digits of the current
  quantum, \<open>s\<close> the rest of the source, \<open>out\<close> the bytes decoded so far.  \<open>Inl n\<close> is
  \<^verbatim>\<open>CorruptInputError(n)\<close>.
\<close>

definition decode_tail :: "nat \<Rightarrow> nat list \<Rightarrow> string \<Rightarrow> string \<Rightarrow> nat + string" where
  "decode_tail si d s out =
     (let n = length (takeWhile is_newline s); rest = drop n s in
      if rest \<noteq> [] then Inl (si + n)
      else Inr (out @ take (length d - 1) (quantum_bytes (take 4 (d @ [0, 0])))))"

definition decode_padding :: "nat \<Rightarrow> nat list \<Rightarrow> string \<Rightarrow> string \<Rightarrow> nat + string" where
  "decode_padding si d s out =
     (if length d < 2 then Inl si
      else if length d = 2 then
        (let n = length (takeWhile is_newline s); rest = drop n s in
         case rest of
           [] \<Rightarrow> Inl (Suc si + n)
         | c # cs \<Rightarrow> if c \<noteq> CHR ''='' then Inl (si + n) else decode_tail (Suc (Suc si + n)) d cs out)
      else decode_tail (Suc si) d s out)"

fun decode_from :: "nat \<Rightarrow> nat list \<Rightarrow> string \<Rightarrow> string \<Rightarrow> nat + string" where
  "decode_from si d [] out = (if d = [] then Inr out else Inl (si - length d))"
| "decode_from si d (c # cs) out =
     (case b64_index c of
        Some v \<Rightarrow>
          if length d = 3 then decode_from (Suc si) [] cs (out @ quantum_bytes (d @ [v]))
          else decode_from (Suc si) (d @ [v]) cs out
      | None \<Rightarrow>
          if is_newline c then decode_from (Suc si) d cs out
          else if c \<noteq> CHR ''='' then Inl si
          else decode_padding si d cs out)"

definition digit_string :: "nat \<Rightarrow> string" where
  "digit_string n = [char_of (48 + n mod 10)]"

fun Itoa :: "nat \<Rightarrow> string" where
  "Itoa n = (if n < 10 then digit_string n else Itoa (n div 10) @ digit_string (n mod 10))"

declare Itoa.simps [simp del]

definition DecodeString :: "string \<Rightarrow> go_error + string" where
  "DecodeString s =
     (case decode_from 0 [] s [] of
        Inl n \<Rightarrow> Inl (ErrOther (''illegal base64 data at input byte '' @ Itoa n))
      | Inr out \<Rightarrow> Inr out)"

section \<open>Round trip\<close>

lemma b64_quad_bound: "d \<in> set (b64_quad x y z) \<Longrightarrow> d < 64"
proof -
  define a b c :: nat where "a = of_char x" and "b = of_char y" and "c = of_char z"
  have lt: "a < 256" "b < 256" "c < 256"
    by (simp_all add: a_def b_def c_def)
  have "a div 4 < 64" "a mod 4 * 16 + b div 16 < 64" "b mod 16 * 4 + c div 64 < 64" "c mod 64 < 64"
    using lt by linarith+
  then show "d \<in> set (b64_quad x y z) \<Longrightarrow> d < 64"
    by (auto simp: b64_quad_def Let_def a_def b_def c_def)
qed

lemma quad_value_digits:
  fixes a1 a0 b1 b0 c1 c0 :: nat
  shows "a1 * 262144 + (a0 * 16 + b1) * 4096 + (b0 * 4 + c1) * 64 + c0
       = (a1 * 4 + a0) * 65536 + (b1 * 16 + b0) * 256 + (c1 * 64 + c0)"
  by (simp add: algebra_simps)

lemma quad_value:
  fixes a b c :: nat
  shows "a div 4 * 262144 + (a mod 4 * 16 + b div 16) * 4096 + (b mod 16 * 4 + c div 64) * 64 + c mod 64
       = a * 65536 + b * 256 + c"
  by (simp only: quad_value_digits div_mult_mod_eq)

lemma byte_digits:
  fixes a b c :: nat
  assumes "a < 256" "b < 256" "c < 256"
  defines "v \<equiv> a * 65536 + b * 256 + c"
  shows "v div 65536 mod 256 = a" and "v div 256 mod 256 = b" and "v mod 256 = c"
proof -
  have v1: "v = c + (a * 256 + b) * 256" and v2: "v = (b * 256 + c) + a * 65536"
    by (simp_all add: v_def)
  show "v mod 256 = c" unfolding v1 mod_mult_self1 using assms by simp
  have "v div 256 = a * 256 + b" unfolding v1 using assms by (subst div_mult_self1) simp_all
  then show "v div 256 mod 256 = b" using assms by simp
  have "v div 65536 = a" unfolding v2 using assms by simp
  then show "v div 65536 mod 256 = a" using assms by simp
qed

lemma quantum_quad [simp]: "quantum_bytes (b64_quad x y z) = [x, y, z]"
proof -
  define a b c :: nat where "a = of_char x" and "b = of_char y" and "c = of_char z"
  have lt: "a < 256" "b < 256" "c < 256"
    by (simp_all add: a_def b_def c_def)
  have q: "b64_quad x y z = [a div 4, a mod 4 * 16 + b div 16, b mod 16 * 4 + c div 64, c mod 64]"
    by (simp add: b64_quad_def Let_def a_def b_def c_def)
  have nths: "[p, q, r, s] ! 0 = p" "[p, q, r, s] ! 1 = q" "[p, q, r, s] ! 2 = r" "[p, q, r, s] ! 3 = s"
    for p q r s :: nat by simp_all
  have "quantum_bytes (b64_quad x y z) = [char_of a, char_of b, char_of c]"
    by (simp only: quantum_bytes_def q Let_def nths quad_value byte_digits [OF lt])
  then show ?thesis by (simp add: a_def b_def c_def)
qed

lemma b64_quad_digits:
  obtains p q r s where "b64_quad x y z = [p, q, r, s]" "p < 64" "q < 64" "r < 64" "s < 64"
proof -
  obtain p q r s where e: "b64_quad x y z = [p, q, r, s]"
    by (simp add: b64_quad_def Let_def)
  then show ?thesis
    using that [OF e] b64_quad_bound [of _ x y z] by simp
qed

lemma decode_encode_from:
  "decode_from si [] (EncodeToString bs) out = Inr (out @ bs)"
proof (induction bs arbitrary: si out rule: EncodeToString.induct)
  case 1
  show ?case by simp
next
  case (2 x)
  obtain p q r s where e: "b64_quad x (char_of (0::nat)) (char_of (0::nat)) = [p, q, r, s]"
      and lt: "p < 64" "q < 64" "r < 64" "s < 64"
    by (rule b64_quad_digits)
  have z: "r = 0" "s = 0"
    using e by (simp_all add: b64_quad_def Let_def)
  have "quantum_bytes [p, q, 0, 0] = [x, char_of (0::nat), char_of (0::nat)]"
    using quantum_quad [of x "char_of (0::nat)" "char_of (0::nat)"] by (simp add: e z)
  then show ?case
    using lt by (simp add: e numeral_2_eq_2 decode_padding_def decode_tail_def)
next
  case (3 x y)
  obtain p q r s where e: "b64_quad x y (char_of (0::nat)) = [p, q, r, s]"
      and lt: "p < 64" "q < 64" "r < 64" "s < 64"
    by (rule b64_quad_digits)
  have z: "s = 0"
    using e by (simp add: b64_quad_def Let_def)
  have "quantum_bytes [p, q, r, 0] = [x, y, char_of (0::nat)]"
    using quantum_quad [of x y "char_of (0::nat)"] by (simp add: e z)
  then show ?case
    using lt by (simp add: e numeral_3_eq_3 decode_padding_def decode_tail_def)
next
  case (4 x y z r)
  obtain p q r' s where e: "b64_quad x y z = [p, q, r', s]"
      and lt: "p < 64" "q < 64" "r' < 64" "s < 64"
    by (rule b64_quad_digits)
  have "quantum_bytes [p, q, r', s] = [x, y, z]"
    using quantum_quad [of x y z] by (simp add: e)
  with lt "4.IH" show ?case by (simp add: e)
qed

lemma DecodeString_EncodeToString [simp]: "DecodeString (EncodeToString bs) = Inr bs"
  by (simp add: DecodeString_def decode_encode_from)

lemma EncodeToString_inj: "EncodeToString a = EncodeToString b \<Longrightarrow> a = b"
  by (metis DecodeString_EncodeToString Inr_inject)

lemma EncodeToString_eq_Nil [simp]: "EncodeToString bs = [] \<longleftrightarrow> bs = []"
  by (cases bs rule: EncodeToString.cases) (auto simp: b64_quad_def Let_def)

lemma length_EncodeToString: "length (EncodeToString bs) = (length bs + 2) div 3 * 4"
proof (induction bs rule: EncodeToString.induct)
  case (4 x y z r)
  have "length (x # y # z # r) + 2 = length r + 2 + 3" by simp
  then have "(length (x # y # z # r) + 2) div 3 = Suc ((length r + 2) div 3)"
    by (metis div_add_self2 Suc_eq_plus1 numeral_neq_zero)
  with "4.IH" show ?case by (simp add: b64_quad_def Let_def)
qed (simp_all add: b64_quad_def Let_def)

text \<open>
  A string is in canonical form when it is the encoding of the bytes it decodes to; those are
  the contents a Secret gives back unchanged.
\<close>

definition canonical_base64 :: "string \<Rightarrow> bool" where
  "canonical_base64 s \<longleftrightarrow> (case DecodeString s of Inl _ \<Rightarrow> False | Inr b \<Rightarrow> EncodeToString b = s)"

lemma canonical_EncodeToString [simp]: "canonical_base64 (EncodeToString b)"
  by (simp add: canonical_base64_def)

lemma canonical_base64_iff: "canonical_base64 s \<longleftrightarrow> (\<exists>b. s = EncodeToString b)"
  by (auto simp: canonical_base64_def split: sum.splits)

end
