(* ===== verification/Nacos_Util.thy ===== *)
theory Nacos_Util
  imports Pkg_Utils Go_Base64 Go_Md5
begin

text \<open>
  \<^verbatim>\<open>pkg/nacos/util.go\<close>: content digests, matching an object to a DynamicConfiguration, reading
  and writing the entries of a ConfigMap or Secret, and the three-way comparison of data ids.
  The interface \<open>content_store\<close> states what a reader may rely on after a write; it is
  interpreted on the ConfigMap and on the Secret functions.
\<close>

section \<open>Definitions\<close>

definition ConfigMapGVK :: GroupVersionKind where
  "ConfigMapGVK = \<lparr>gvk_Group = [], gvk_Version = ''v1'', gvk_Kind = ''ConfigMap''\<rparr>"

definition SecretGVK :: GroupVersionKind where
  "SecretGVK = \<lparr>gvk_Group = [], gvk_Version = ''v1'', gvk_Kind = ''Secret''\<rparr>"

definition GetNacosConfigurationUniKey :: "string \<Rightarrow> string \<Rightarrow> string \<Rightarrow> string" where
  "GetNacosConfigurationUniKey namespace grp dataId = namespace @ ''/'' @ grp @ ''/'' @ dataId"

definition CalcMd5 :: "string \<Rightarrow> string" where
  "CalcMd5 s = (if length s = 0 then [] else hex_EncodeToString (md5_Sum s))"

text \<open>
  \<open>om_Kind\<close> and \<open>om_APIVersion\<close> are what \<^verbatim>\<open>object.GetObjectKind().GroupVersionKind()\<close> reports.
\<close>

fun match_refs :: "string \<Rightarrow> string \<Rightarrow> ObjectReference list \<Rightarrow> bool" where
  "match_refs kind name [] = True"
| "match_refs kind name (ref # refs) =
     (if or_Kind ref = kind \<and> or_Name ref = name then True else match_refs kind name refs)"

definition DynamicConfigurationMatch :: "Object \<Rightarrow> DynamicConfiguration \<Rightarrow> bool" where
  "DynamicConfigurationMatch obj dc =
     (if om_Namespace (obj_meta obj) \<noteq> dc_Namespace dc then False
      else if ss_SyncScope (dc_Strategy dc) = SyncScopeFull then True
      else match_refs (om_Kind (obj_meta obj)) (om_Name (obj_meta obj)) (object_refs dc))"

definition GetConfigMapAllKeys :: "ConfigMap \<Rightarrow> string list" where
  "GetConfigMapAllKeys cm = mkeys (cm_Data cm) @ mkeys (cm_BinaryData cm)"

definition GetSecretAllKeys :: "Secret \<Rightarrow> string list" where
  "GetSecretAllKeys s = mkeys (sec_Data s)"

text \<open>The type assertion \<^verbatim>\<open>object.(*v1.ConfigMap)\<close> panics when the dynamic type differs.\<close>

definition GetAllKeys :: "Object \<Rightarrow> string list outcome" where
  "GetAllKeys obj =
     (if om_Kind (obj_meta obj) = ''ConfigMap''
      then (case obj of ObjConfigMap c \<Rightarrow> Ok (GetConfigMapAllKeys c) | ObjSecret _ \<Rightarrow> Panic)
      else if om_Kind (obj_meta obj) = ''Secret''
      then (case obj of ObjSecret s \<Rightarrow> Ok (GetSecretAllKeys s) | ObjConfigMap _ \<Rightarrow> Panic)
      else Ok [])"

definition GetConfigMapContent :: "ConfigMap \<Rightarrow> string \<Rightarrow> string \<times> bool" where
  "GetConfigMapContent cm dataId =
     (case mget (cm_Data cm) dataId of
        Some v \<Rightarrow> (v, True)
      | None \<Rightarrow> (case mget (cm_BinaryData cm) dataId of
                   Some v \<Rightarrow> (v, True)
                 | None \<Rightarrow> ([], False)))"

definition GetSecretContent :: "Secret \<Rightarrow> string \<Rightarrow> string \<times> bool" where
  "GetSecretContent s dataId =
     (case mget (sec_Data s) dataId of
        Some v \<Rightarrow> (EncodeToString v, True)
      | None \<Rightarrow> ([], False))"

definition GetContent :: "Object \<Rightarrow> string \<Rightarrow> (string \<times> bool) outcome" where
  "GetContent obj dataId =
     (if om_Kind (obj_meta obj) = ''ConfigMap''
      then (case obj of ObjConfigMap c \<Rightarrow> Ok (GetConfigMapContent c dataId) | ObjSecret _ \<Rightarrow> Panic)
      else if om_Kind (obj_meta obj) = ''Secret''
      then (case obj of ObjSecret s \<Rightarrow> Ok (GetSecretContent s dataId) | ObjConfigMap _ \<Rightarrow> Panic)
      else Ok ([], False))"

text \<open>Contents that start like a JSON object or array go to \<^verbatim>\<open>BinaryData\<close>.\<close>

definition looks_like_json :: "string \<Rightarrow> bool" where
  "looks_like_json content \<longleftrightarrow> HasPrefix content ''{'' \<or> HasPrefix content ''[''"

definition StoreConfigMapContent ::
  "ConfigMap \<Rightarrow> string \<Rightarrow> string \<Rightarrow> ConfigMap \<times> go_error option" where
  "StoreConfigMapContent cm dataId content =
     (if looks_like_json content
      then (cm\<lparr>cm_BinaryData := mput dataId content (cm_BinaryData cm)\<rparr>, None)
      else (cm\<lparr>cm_Data := mput dataId content (cm_Data cm)\<rparr>, None))"

definition StoreSecretContent ::
  "Secret \<Rightarrow> string \<Rightarrow> string \<Rightarrow> Secret \<times> go_error option" where
  "StoreSecretContent s dataId content =
     (case DecodeString content of
        Inl err \<Rightarrow> (s, Some err)
      | Inr bytes \<Rightarrow> (s\<lparr>sec_Data := mput dataId bytes (sec_Data s)\<rparr>, None))"

definition StoreContent ::
  "Object \<Rightarrow> string \<Rightarrow> string \<Rightarrow> (Object \<times> go_error option) outcome" where
  "StoreContent obj dataId content =
     (if om_Kind (obj_meta obj) = ''ConfigMap''
      then (case obj of
              ObjConfigMap c \<Rightarrow> Ok (map_prod ObjConfigMap id (StoreConfigMapContent c dataId content))
            | ObjSecret _ \<Rightarrow> Panic)
      else if om_Kind (obj_meta obj) = ''Secret''
      then (case obj of
              ObjSecret s \<Rightarrow> Ok (map_prod ObjSecret id (StoreSecretContent s dataId content))
            | ObjConfigMap _ \<Rightarrow> Panic)
      else Ok (obj, None))"

fun compare_step ::
  "string \<Rightarrow> (string, bool) gomap \<times> (string, bool) gomap \<times> (string, bool) gomap \<Rightarrow>
   (string, bool) gomap \<times> (string, bool) gomap \<times> (string, bool) gomap" where
  "compare_step i (listenOnly, localOnly, allIds) =
     (if mget0 False listenOnly i
      then (mdel i listenOnly, localOnly, mput i True allIds)
      else (listenOnly, mput i True localOnly, allIds))"

definition CompareDataIds ::
  "string list \<Rightarrow> string list \<Rightarrow> string list \<times> string list \<times> string list" where
  "CompareDataIds listenDataIds localDataIds =
     (let listenOnly = fold (\<lambda>i. mput i True) listenDataIds [];
          (lo, lc, al) = fold compare_step localDataIds (listenOnly, [], [])
      in (mkeys lo, mkeys lc, mkeys al))"

section \<open>Digests\<close>

lemma CalcMd5_Nil [simp]: "CalcMd5 [] = []"
  by (simp add: CalcMd5_def)

lemma length_CalcMd5: "length (CalcMd5 s) = (if s = [] then 0 else 32)"
  by (simp add: CalcMd5_def)

lemma CalcMd5_eq_Nil [simp]: "CalcMd5 s = [] \<longleftrightarrow> s = []"
  by (metis CalcMd5_Nil length_CalcMd5 length_0_conv numeral_neq_zero)

section \<open>Matching\<close>

lemma match_refs_True: "match_refs kind name refs"
  by (induction refs) auto

lemma DynamicConfigurationMatch_eq:
  "DynamicConfigurationMatch obj dc \<longleftrightarrow> om_Namespace (obj_meta obj) = dc_Namespace dc"
  by (simp add: DynamicConfigurationMatch_def match_refs_True)

section \<open>Reading after writing\<close>

text \<open>
  The contract of a store of named contents.  \<open>accepts o k c\<close> says when writing \<open>c\<close> under \<open>k\<close>
  succeeds and is what a later read returns.
\<close>

locale content_store =
  fixes get_content :: "'o \<Rightarrow> string \<Rightarrow> string \<times> bool"
    and store_content :: "'o \<Rightarrow> string \<Rightarrow> string \<Rightarrow> 'o \<times> go_error option"
    and all_keys :: "'o \<Rightarrow> string list"
    and accepts :: "'o \<Rightarrow> string \<Rightarrow> string \<Rightarrow> bool"
  assumes store_accepted: "accepts obj k c \<Longrightarrow> snd (store_content obj k c) = None"
    and get_store_same: "accepts obj k c \<Longrightarrow> get_content (fst (store_content obj k c)) k = (c, True)"
    and get_store_other:
      "j \<noteq> k \<Longrightarrow> get_content (fst (store_content obj k c)) j = get_content obj j"
    and accepts_store_other:
      "j \<noteq> k \<Longrightarrow> accepts (fst (store_content obj k c)) j d = accepts obj j d"
    and all_keys_get: "k \<in> set (all_keys obj) \<longleftrightarrow> snd (get_content obj k)"
    and get_absent: "\<not> snd (get_content obj k) \<Longrightarrow> get_content obj k = ([], False)"
begin

fun store_entries :: "'o \<Rightarrow> (string \<times> string) list \<Rightarrow> 'o" where
  "store_entries obj [] = obj"
| "store_entries obj ((k, c) # es) = store_entries (fst (store_content obj k c)) es"

lemma store_entries_other:
  "j \<notin> fst ` set es \<Longrightarrow> get_content (store_entries obj es) j = get_content obj j"
  by (induction obj es rule: store_entries.induct) (auto simp: get_store_other)

lemma store_entries_get:
  assumes "distinct (map fst es)" "\<And>k c. (k, c) \<in> set es \<Longrightarrow> accepts obj k c" "(k, c) \<in> set es"
  shows "get_content (store_entries obj es) k = (c, True)"
  using assms
proof (induction obj es rule: store_entries.induct)
  case (1 obj)
  then show ?case by simp
next
  case (2 obj j d es)
  show ?case
  proof (cases "k = j")
    case True
    with "2.prems" have "c = d" "k \<notin> fst ` set es"
      by (auto simp: rev_image_eqI)
    with True "2.prems"(2) [of j d] show ?thesis
      by (simp add: store_entries_other get_store_same)
  next
    case False
    have "accepts (fst (store_content obj j d)) i e" if "(i, e) \<in> set es" for i e
    proof -
      have "i \<noteq> j" using that "2.prems"(1) by force
      with that show ?thesis using "2.prems"(2) [of i e] by (simp add: accepts_store_other)
    qed
    with False "2.prems" "2.IH" show ?thesis by auto
  qed
qed

lemma store_keys: "accepts obj k c \<Longrightarrow>
  set (all_keys (fst (store_content obj k c))) = insert k (set (all_keys obj))"
proof (rule set_eqI)
  fix j
  assume "accepts obj k c"
  then show "j \<in> set (all_keys (fst (store_content obj k c))) \<longleftrightarrow> j \<in> insert k (set (all_keys obj))"
    by (cases "j = k") (simp_all add: all_keys_get get_store_same get_store_other)
qed

end

text \<open>
  A ConfigMap accepts every content except a JSON-like one under a key of \<^verbatim>\<open>Data\<close>, which the
  write would put into \<^verbatim>\<open>BinaryData\<close> while reads still find the old value in \<^verbatim>\<open>Data\<close>.
\<close>

definition configmap_accepts :: "ConfigMap \<Rightarrow> string \<Rightarrow> string \<Rightarrow> bool" where
  "configmap_accepts cm k c \<longleftrightarrow> (looks_like_json c \<longrightarrow> mget (cm_Data cm) k = None)"

interpretation cm_store: content_store
  GetConfigMapContent StoreConfigMapContent GetConfigMapAllKeys configmap_accepts
proof (unfold_locales, goal_cases)
  case (5 k obj)
  show ?case
    by (auto simp: GetConfigMapAllKeys_def GetConfigMapContent_def mkey_iff split: option.splits)
qed (auto simp: StoreConfigMapContent_def GetConfigMapContent_def configmap_accepts_def gomap
       split: option.splits if_splits)

text \<open>A Secret accepts exactly the canonical base64 strings.\<close>

interpretation secret_store: content_store
  GetSecretContent StoreSecretContent GetSecretAllKeys "\<lambda>_ _. canonical_base64"
proof (unfold_locales, goal_cases)
  case (5 k obj)
  show ?case
    by (auto simp: GetSecretAllKeys_def GetSecretContent_def mkey_iff split: option.splits)
qed (auto simp: StoreSecretContent_def GetSecretContent_def canonical_base64_def gomap
       split: option.splits sum.splits)

text \<open>Reading back a JSON-like content written over a plain one gives the plain one.\<close>

lemma StoreConfigMapContent_stale:
  "looks_like_json c \<Longrightarrow> mget (cm_Data cm) k = Some old \<Longrightarrow>
   GetConfigMapContent (fst (StoreConfigMapContent cm k c)) k = (old, True)"
  by (simp add: StoreConfigMapContent_def GetConfigMapContent_def)

lemma StoreSecretContent_error_unchanged:
  "snd (StoreSecretContent s k c) = Some e \<Longrightarrow> fst (StoreSecretContent s k c) = s"
  by (auto simp: StoreSecretContent_def split: sum.splits)

section \<open>Objects of a matching kind\<close>

text \<open>
  An object whose reported kind is that of its dynamic type, as a typed client returns it.
\<close>

fun kind_matches :: "Object \<Rightarrow> bool" where
  "kind_matches (ObjConfigMap c) \<longleftrightarrow> om_Kind (cm_Meta c) = ''ConfigMap''"
| "kind_matches (ObjSecret s) \<longleftrightarrow> om_Kind (sec_Meta s) = ''Secret''"

fun object_content :: "Object \<Rightarrow> string \<Rightarrow> string \<times> bool" where
  "object_content (ObjConfigMap c) k = GetConfigMapContent c k"
| "object_content (ObjSecret s) k = GetSecretContent s k"

fun object_keys :: "Object \<Rightarrow> string list" where
  "object_keys (ObjConfigMap c) = GetConfigMapAllKeys c"
| "object_keys (ObjSecret s) = GetSecretAllKeys s"

fun object_store :: "Object \<Rightarrow> string \<Rightarrow> string \<Rightarrow> Object \<times> go_error option" where
  "object_store (ObjConfigMap c) k v = map_prod ObjConfigMap id (StoreConfigMapContent c k v)"
| "object_store (ObjSecret s) k v = map_prod ObjSecret id (StoreSecretContent s k v)"

fun object_accepts :: "Object \<Rightarrow> string \<Rightarrow> string \<Rightarrow> bool" where
  "object_accepts (ObjConfigMap c) k v \<longleftrightarrow> configmap_accepts c k v"
| "object_accepts (ObjSecret s) k v \<longleftrightarrow> canonical_base64 v"

lemma GetAllKeys_ok [simp]: "kind_matches obj \<Longrightarrow> GetAllKeys obj = Ok (object_keys obj)"
  by (cases obj) (auto simp: GetAllKeys_def)

lemma GetContent_ok [simp]: "kind_matches obj \<Longrightarrow> GetContent obj k = Ok (object_content obj k)"
  by (cases obj) (auto simp: GetContent_def)

lemma StoreContent_ok [simp]: "kind_matches obj \<Longrightarrow> StoreContent obj k v = Ok (object_store obj k v)"
  by (cases obj) (auto simp: StoreContent_def)

lemma object_store_meta [simp]: "obj_meta (fst (object_store obj k v)) = obj_meta obj"
  by (cases obj)
     (auto simp: StoreConfigMapContent_def StoreSecretContent_def split: sum.splits)

lemma object_store_kind [simp]: "kind_matches (fst (object_store obj k v)) = kind_matches obj"
  by (cases obj)
     (auto simp: StoreConfigMapContent_def StoreSecretContent_def split: sum.splits)

interpretation obj_store: content_store object_content object_store object_keys object_accepts
proof (unfold_locales, goal_cases)
  case (1 obj k c)
  then show ?case
    by (cases obj) (simp_all add: cm_store.store_accepted secret_store.store_accepted)
next
  case (2 obj k c)
  then show ?case
    by (cases obj) (simp_all add: cm_store.get_store_same secret_store.get_store_same)
next
  case (3 j k obj c)
  then show ?case
    by (cases obj) (simp_all add: cm_store.get_store_other secret_store.get_store_other)
next
  case (4 j k obj c d)
  then show ?case
    by (cases obj) (simp_all add: cm_store.accepts_store_other)
next
  case (5 k obj)
  then show ?case
    by (cases obj) (simp_all add: cm_store.all_keys_get secret_store.all_keys_get)
next
  case (6 obj k)
  then show ?case
    by (cases obj) (simp_all add: cm_store.get_absent secret_store.get_absent)
qed

text \<open>
  What reading \<open>k\<close> gives after \<open>c\<close> was stored under it, for any content: in a ConfigMap the old plain content hides a JSON-like one, in a Secret
  base64 is decoded and encoded again, and what does not decode is refused and leaves the old content.
\<close>

fun refuses :: "Object \<Rightarrow> string \<Rightarrow> bool" where
  "refuses (ObjConfigMap cm) c \<longleftrightarrow> False"
| "refuses (ObjSecret s) c \<longleftrightarrow> isl (DecodeString c)"

fun read_back :: "Object \<Rightarrow> string \<Rightarrow> string \<Rightarrow> string" where
  "read_back (ObjConfigMap cm) k c =
     (if looks_like_json c then (case mget (cm_Data cm) k of Some old \<Rightarrow> old | None \<Rightarrow> c) else c)"
| "read_back (ObjSecret s) k c = (case DecodeString c of Inr b \<Rightarrow> EncodeToString b | Inl _ \<Rightarrow> fst (GetSecretContent s k))"

lemma object_store_read_back:
  "object_content (fst (object_store obj k c)) k =
     (read_back obj k c, \<not> refuses obj c \<or> snd (object_content obj k))"
  by (cases obj)
     (auto simp: StoreConfigMapContent_def GetConfigMapContent_def StoreSecretContent_def GetSecretContent_def gomap
        split: option.splits sum.splits)

lemma object_store_refused:
  "snd (object_store obj k c) \<noteq> None \<longleftrightarrow> refuses obj c"
  "refuses obj c \<Longrightarrow> fst (object_store obj k c) = obj"
  by (cases obj; auto simp: StoreConfigMapContent_def StoreSecretContent_def split: sum.splits)+

lemma read_back_accepted: "object_accepts obj k c \<Longrightarrow> read_back obj k c = c \<and> \<not> refuses obj c"
  by (cases obj) (auto simp: configmap_accepts_def canonical_base64_def split: sum.splits)

lemma read_back_store_other: "j \<noteq> k \<Longrightarrow> read_back (fst (object_store obj k c)) j d = read_back obj j d"
  by (cases obj)
     (auto simp: StoreConfigMapContent_def StoreSecretContent_def GetSecretContent_def gomap split: option.splits sum.splits)

lemma object_store_keys:
  "\<not> refuses obj c \<Longrightarrow> set (object_keys (fst (object_store obj k c))) = insert k (set (object_keys obj))"
proof (rule set_eqI)
  fix j
  assume "\<not> refuses obj c"
  then show "j \<in> set (object_keys (fst (object_store obj k c))) \<longleftrightarrow> j \<in> insert k (set (object_keys obj))"
    by (cases "j = k") (simp_all add: obj_store.all_keys_get object_store_read_back obj_store.get_store_other)
qed

section \<open>Comparing data ids\<close>

definition all_true :: "(string, bool) gomap \<Rightarrow> bool" where
  "all_true m \<longleftrightarrow> (\<forall>k v. mget m k = Some v \<longrightarrow> v)"

lemma all_true_mput: "all_true m \<Longrightarrow> all_true (mput k True m)"
  by (auto simp: all_true_def gomap)

lemma all_true_mdel: "all_true m \<Longrightarrow> all_true (mdel k m)"
  by (auto simp: all_true_def gomap)

lemma mget0_all_true: "all_true m \<Longrightarrow> mget0 False m k \<longleftrightarrow> k \<in> set (mkeys m)"
  by (auto simp: all_true_def mget0_def mkey_iff split: option.splits)

lemma keys_mdel: "fst ` set (mdel k m) = fst ` set m - {k}"
  using arg_cong [OF delete_keys [of k m], of set] by simp

lemma mark_all:
  "all_true m \<Longrightarrow> distinct (mkeys m) \<Longrightarrow>
   all_true (fold (\<lambda>i. mput i True) xs m) \<and> distinct (mkeys (fold (\<lambda>i. mput i True) xs m)) \<and>
   set (mkeys (fold (\<lambda>i. mput i True) xs m)) = set xs \<union> set (mkeys m)"
proof (induction xs arbitrary: m)
  case Nil
  then show ?case by simp
next
  case (Cons x xs)
  then show ?case
    using Cons.IH [of "mput x True m"]
    by (simp add: all_true_mput distinct_update dom_update)
qed

lemma compare_fold:
  assumes "fold compare_step xs (lo, lc, al) = (lo', lc', al')" "all_true lo"
    "distinct (mkeys lo)" "distinct (mkeys lc)" "distinct (mkeys al)" "distinct xs"
  shows "set (mkeys lo') = set (mkeys lo) - set xs
    \<and> set (mkeys lc') = set (mkeys lc) \<union> (set xs - set (mkeys lo))
    \<and> set (mkeys al') = set (mkeys al) \<union> (set xs \<inter> set (mkeys lo))
    \<and> distinct (mkeys lo') \<and> distinct (mkeys lc') \<and> distinct (mkeys al')"
  using assms
proof (induction xs arbitrary: lo lc al)
  case Nil
  then show ?case by simp
next
  case (Cons x xs)
  note step = Cons.prems(1)
  show ?case
  proof (cases "mget0 False lo x")
    case True
    have x: "x \<in> fst ` set lo"
      using True Cons.prems(2) by (simp add: mget0_all_true)
    have "fold compare_step xs (mdel x lo, lc, mput x True al) = (lo', lc', al')"
      using step True by simp
    from Cons.IH [OF this all_true_mdel [OF Cons.prems(2)] distinct_delete [OF Cons.prems(3)]
        Cons.prems(4) distinct_update [OF Cons.prems(5)]] Cons.prems(6) x
    show ?thesis by (auto simp: dom_update keys_mdel)
  next
    case False
    have x: "x \<notin> fst ` set lo"
      using False Cons.prems(2) by (simp add: mget0_all_true)
    have "fold compare_step xs (lo, mput x True lc, al) = (lo', lc', al')"
      using step False by simp
    from Cons.IH [OF this Cons.prems(2,3) distinct_update [OF Cons.prems(4)] Cons.prems(5)]
      Cons.prems(6) x
    show ?thesis by (auto simp: dom_update)
  qed
qed

lemma CompareDataIds_sets:
  assumes "distinct localIds" "CompareDataIds listenIds localIds = (listenOnly, localOnly, both)"
  shows "set listenOnly = set listenIds - set localIds"
    and "set localOnly = set localIds - set listenIds"
    and "set both = set listenIds \<inter> set localIds"
    and "distinct listenOnly" and "distinct localOnly" and "distinct both"
proof -
  let ?m = "fold (\<lambda>i. mput i True) listenIds []"
  have m: "all_true ?m" "distinct (mkeys ?m)" "set (mkeys ?m) = set listenIds"
    using mark_all [of "[]" listenIds] all_true_def [of "[]"] by simp_all
  obtain lo lc al where f: "fold compare_step localIds (?m, [], []) = (lo, lc, al)"
    by (metis prod_cases3)
  have e: "listenOnly = mkeys lo" "localOnly = mkeys lc" "both = mkeys al"
    using assms(2) f by (simp_all add: CompareDataIds_def)
  note c = compare_fold [OF f m(1,2) _ _ assms(1)]
  show "set listenOnly = set listenIds - set localIds"
    and "set localOnly = set localIds - set listenIds"
    and "set both = set listenIds \<inter> set localIds"
    and "distinct listenOnly" and "distinct localOnly" and "distinct both"
    using c m(3) by (auto simp: e)
qed

section \<open>What the controllers rely on\<close>

text \<open>
  Comparing the listened data ids with the keys of an object splits them without loss: each id comes
  out exactly once, under the only side that has it or as common to both, whatever duplicates the
  listened list has.
\<close>

theorem compare_data_ids:
  assumes "distinct localIds" "CompareDataIds listenIds localIds = (listenOnly, localOnly, both)"
  shows "set listenOnly = set listenIds - set localIds \<and> set localOnly = set localIds - set listenIds \<and>
    set both = set listenIds \<inter> set localIds \<and> distinct (listenOnly @ localOnly @ both)"
  using CompareDataIds_sets [OF assms] by auto

theorem compare_data_ids_witness:
  "set (fst (CompareDataIds [''a'', ''b'', ''a''] [''b'', ''c''])) = {''a''}"
proof -
  obtain lo lc al where e: "CompareDataIds [''a'', ''b'', ''a''] [''b'', ''c''] = (lo, lc, al)" by (metis prod_cases3)
  have "distinct [''b'', ''c'']" by simp
  from compare_data_ids [OF this e] show ?thesis by (auto simp: e)
qed

text \<open>
  Every DynamicConfiguration of the namespace matches every ConfigMap and Secret in it; the object
  references of the specification are not consulted, whatever the scope.
\<close>

theorem match_is_namespace_only:
  "DynamicConfigurationMatch obj dc \<longleftrightarrow> om_Namespace (obj_meta obj) = dc_Namespace dc"
  by (rule DynamicConfigurationMatch_eq)

text \<open>
  C33: storing any content in a ConfigMap or Secret either is refused, for a Secret and a content that is no base64, and changes nothing, or the
  key reads as \<open>read_back\<close> says and the keys grow by that one at most.  A content the object can represent, canonical base64 in a Secret
  and in a ConfigMap anything but a JSON-like content whose key is in the plain data, is never refused and reads back as it was stored; such a
  JSON-like content reads as the old plain one.  Every other key reads as before in all cases.
\<close>

theorem store_content_roundtrip:
  assumes "kind_matches obj"
  shows "\<exists>obj' e. StoreContent obj k c = Ok (obj', e) \<and> (e \<noteq> None \<longleftrightarrow> refuses obj c) \<and> (refuses obj c \<longrightarrow> obj' = obj) \<and>
    (\<not> refuses obj c \<longrightarrow> GetContent obj' k = Ok (read_back obj k c, True) \<and> set (object_keys obj') = insert k (set (object_keys obj))) \<and>
    (object_accepts obj k c \<longrightarrow> read_back obj k c = c \<and> \<not> refuses obj c) \<and>
    (\<forall>j. j = k \<or> GetContent obj' j = GetContent obj j) \<and> obj_meta obj' = obj_meta obj"
proof -
  obtain obj' e where o: "object_store obj k c = (obj', e)" by (metis surj_pair)
  have "kind_matches obj'" using object_store_kind [of obj k c] assms o by simp
  moreover have "obj_meta obj' = obj_meta obj" using object_store_meta [of obj k c] o by simp
  moreover have "object_content obj' k = (read_back obj k c, \<not> refuses obj c \<or> snd (object_content obj k))"
    using object_store_read_back [of obj k c] o by simp
  ultimately show ?thesis
    using assms o object_store_refused(1) [of obj k c] object_store_refused(2) [of obj c k] read_back_accepted [of obj k c]
      obj_store.get_store_other [of _ k obj c] object_store_keys [of obj c k]
    by auto
qed

theorem store_content_roundtrip_witness:
  "\<exists>obj'. StoreContent (ObjSecret \<lparr>sec_Meta = zero_meta\<lparr>om_Kind := ''Secret''\<rparr>, sec_Data = []\<rparr>) ''k'' (EncodeToString ''hi'') = Ok (obj', None) \<and>
     GetContent obj' ''k'' = Ok (EncodeToString ''hi'', True)"
proof -
  let ?x = "ObjSecret \<lparr>sec_Meta = zero_meta\<lparr>om_Kind := ''Secret''\<rparr>, sec_Data = []\<rparr>" and ?c = "EncodeToString ''hi''"
  have kind: "kind_matches ?x" by simp
  have acc: "object_accepts ?x ''k'' ?c" unfolding object_accepts.simps by (rule canonical_EncodeToString)
  obtain obj' e where st: "StoreContent ?x ''k'' ?c = Ok (obj', e)" "e \<noteq> None \<longleftrightarrow> refuses ?x ?c"
      "\<not> refuses ?x ?c \<longrightarrow> GetContent obj' ''k'' = Ok (read_back ?x ''k'' ?c, True)"
      "object_accepts ?x ''k'' ?c \<longrightarrow> read_back ?x ''k'' ?c = ?c \<and> \<not> refuses ?x ?c"
    using store_content_roundtrip [OF kind, of "''k''" ?c] by blast
  then have "e = None" "GetContent obj' ''k'' = Ok (?c, True)" using acc by metis+
  then show ?thesis using st(1) by blast
qed

text \<open>
  The excluded case loses the update: a JSON document stored over a plain content is written to the
  binary data while reads go on returning the old plain content.
\<close>

theorem json_over_plain_reads_stale:
  assumes "om_Kind (cm_Meta cm) = ''ConfigMap''" "mget (cm_Data cm) k = Some old"
    "HasPrefix c ''{'' \<or> HasPrefix c ''[''"
  shows "\<exists>obj'. StoreContent (ObjConfigMap cm) k c = Ok (obj', None) \<and> GetContent obj' k = Ok (old, True)"
proof -
  have "looks_like_json c" using assms(3) by (simp add: looks_like_json_def)
  then show ?thesis
    using assms(1,2) StoreConfigMapContent_stale [of c cm k old]
    by (auto simp: StoreContent_def GetContent_def StoreConfigMapContent_def)
qed

theorem json_over_plain_reads_stale_witness:
  "\<exists>obj'. StoreContent (ObjConfigMap \<lparr>cm_Meta = zero_meta\<lparr>om_Kind := ''ConfigMap''\<rparr>, cm_Data = [(''k'', ''old'')], cm_BinaryData = []\<rparr>)
     ''k'' ''{}'' = Ok (obj', None) \<and> GetContent obj' ''k'' = Ok (''old'', True)"
  by (rule json_over_plain_reads_stale) (simp_all add: HasPrefix_def)

end
