(* ===== verification/DC_Status.thy ===== *)
theory DC_Status
  imports Nacos_Util
begin

text \<open>
  \<^verbatim>\<open>pkg/nacos/dynamicconfiguration_util.go\<close>: the status of a DynamicConfiguration.  The status
  holds, per Nacos group, one \<^verbatim>\<open>SyncStatus\<close> per data id and the data ids listened to.  The
  invariant \<open>wf_status\<close> says that no data id occurs twice in either; every operation keeps it.
  The contract \<open>status_table\<close> describes the table of sync statuses as a map from group and
  data id to the last status written.  A pointer parameter is a value here: the sources'
  guards for a nil DynamicConfiguration return at once.
\<close>

section \<open>Definitions\<close>

fun find_status_idx :: "string \<Rightarrow> nat \<Rightarrow> SyncStatus list \<Rightarrow> nat option" where
  "find_status_idx d i [] = None"
| "find_status_idx d i (v # vs) = (if st_DataId v = d then Some i else find_status_idx d (Suc i) vs)"

definition replaceSyncStatus :: "SyncStatus list \<Rightarrow> SyncStatus \<Rightarrow> SyncStatus list" where
  "replaceSyncStatus statuses s =
     (if length statuses = 0 then [s]
      else (case find_status_idx (st_DataId s) 0 statuses of
              Some idx \<Rightarrow> statuses[idx := s]
            | None \<Rightarrow> statuses @ [s]))"

abbreviation set_SyncStatuses ::
  "(string, SyncStatus list) gomap \<Rightarrow> DynamicConfiguration \<Rightarrow> DynamicConfiguration" where
  "set_SyncStatuses m dc \<equiv> dc\<lparr>dc_Status := (dc_Status dc)\<lparr>sts_SyncStatuses := m\<rparr>\<rparr>"

abbreviation set_ListenConfigs ::
  "(string, string list) gomap \<Rightarrow> DynamicConfiguration \<Rightarrow> DynamicConfiguration" where
  "set_ListenConfigs m dc \<equiv> dc\<lparr>dc_Status := (dc_Status dc)\<lparr>sts_ListenConfigs := m\<rparr>\<rparr>"

definition mk_status :: "string \<Rightarrow> string \<Rightarrow> string \<Rightarrow> nat \<Rightarrow> bool \<Rightarrow> string \<Rightarrow> SyncStatus" where
  "mk_status dataId md5 src t ready message =
     \<lparr>st_DataId = dataId, st_LastSyncTime = t, st_LastSyncFrom = src, st_Md5 = md5,
      st_Ready = ready, st_Message = message\<rparr>"

definition UpdateSyncStatus ::
  "DynamicConfiguration \<Rightarrow> string \<Rightarrow> string \<Rightarrow> string \<Rightarrow> string \<Rightarrow> nat \<Rightarrow> bool \<Rightarrow> string \<Rightarrow>
   DynamicConfiguration" where
  "UpdateSyncStatus dc grp dataId md5 src t ready message =
     (let syncStatuses = dc_SyncStatuses dc;
          groupSyncStatuses = replaceSyncStatus (mget0 [] syncStatuses grp)
                                (mk_status dataId md5 src t ready message)
      in set_SyncStatuses (mput grp groupSyncStatuses syncStatuses) dc)"

fun find_status :: "string \<Rightarrow> SyncStatus list \<Rightarrow> SyncStatus option" where
  "find_status d [] = None"
| "find_status d (v # vs) = (if st_DataId v = d then Some v else find_status d vs)"

definition GetSyncStatusByDataId ::
  "DynamicConfiguration \<Rightarrow> string \<Rightarrow> string \<Rightarrow> SyncStatus option" where
  "GetSyncStatusByDataId dc grp dataId =
     (let statuses = dc_SyncStatuses dc in
      if length statuses = 0 then None
      else let groupSyncStatues = mget0 [] statuses grp in
           if length groupSyncStatues = 0 then None
           else find_status dataId groupSyncStatues)"

definition UpdateSyncStatusIfAbsent ::
  "DynamicConfiguration \<Rightarrow> string \<Rightarrow> string \<Rightarrow> string \<Rightarrow> string \<Rightarrow> nat \<Rightarrow> bool \<Rightarrow> string \<Rightarrow>
   DynamicConfiguration" where
  "UpdateSyncStatusIfAbsent dc grp dataId md5 src t ready message =
     (case GetSyncStatusByDataId dc grp dataId of
        Some _ \<Rightarrow> dc
      | None \<Rightarrow>
          (let syncStatuses = dc_SyncStatuses dc;
               groupSyncStatuses = mget0 [] syncStatuses grp
           in set_SyncStatuses
                (mput grp (groupSyncStatuses @ [mk_status dataId md5 src t ready message]) syncStatuses) dc))"

definition RemoveSyncStatus :: "DynamicConfiguration \<Rightarrow> string \<Rightarrow> string \<Rightarrow> DynamicConfiguration" where
  "RemoveSyncStatus dc grp dataId =
     (let groupSyncStatues = mget0 [] (dc_SyncStatuses dc) grp in
      if length (dc_SyncStatuses dc) = 0 then dc
      else if length groupSyncStatues = 0 then dc
      else set_SyncStatuses
             (mput grp (filter (\<lambda>status. dataId \<noteq> st_DataId status) groupSyncStatues)
                (dc_SyncStatuses dc)) dc)"

definition AddListenConfig :: "DynamicConfiguration \<Rightarrow> string \<Rightarrow> string \<Rightarrow> DynamicConfiguration" where
  "AddListenConfig dc grp dataId =
     (let groupListConfigs = mget0 [] (dc_ListenConfigs dc) grp in
      if length groupListConfigs = 0
      then set_ListenConfigs (mput grp [dataId] (dc_ListenConfigs dc)) dc
      else if Contains groupListConfigs dataId then dc
      else set_ListenConfigs (mput grp (groupListConfigs @ [dataId]) (dc_ListenConfigs dc)) dc)"

definition UpdateDynamicConfigurationStatus :: "DynamicConfiguration \<Rightarrow> DynamicConfiguration" where
  "UpdateDynamicConfigurationStatus dc =
     dc\<lparr>dc_Status := (dc_Status dc)\<lparr>
          sts_SyncStrategyStatus := dc_Strategy dc,
          sts_NacosServerStatus :=
            \<lparr>nst_Endpoint = ns_Endpoint (dc_NacosServer dc),
             nst_ServerAddr = ns_ServerAddr (dc_NacosServer dc),
             nst_Namespace = ns_Namespace (dc_NacosServer dc)\<rparr>\<rparr>\<rparr>"

definition CleanDynamicConfigurationStatus :: "DynamicConfiguration \<Rightarrow> DynamicConfiguration" where
  "CleanDynamicConfigurationStatus dc =
     dc\<lparr>dc_Status := (dc_Status dc)\<lparr>
          sts_ListenConfigs := [],
          sts_SyncStatuses := [],
          sts_SyncStrategyStatus := zero_strategy,
          sts_NacosServerStatus := zero_server_status\<rparr>\<rparr>"

definition checkNacosServerChange :: "DynamicConfiguration \<Rightarrow> bool" where
  "checkNacosServerChange dc =
     (let srv = dc_NacosServer dc; old = sts_NacosServerStatus (dc_Status dc) in
      if ns_Namespace srv \<noteq> nst_Namespace old then True
      else if ns_ServerAddr srv \<noteq> nst_ServerAddr old then True
      else if ns_Endpoint srv \<noteq> nst_Endpoint old then True
      else False)"

definition FailedStatus :: "DynamicConfiguration \<Rightarrow> string \<Rightarrow> DynamicConfiguration" where
  "FailedStatus dc message =
     dc\<lparr>dc_Status := (dc_Status dc)\<lparr>
          sts_Phase := PhaseFailed,
          sts_Message := message,
          sts_ObservedGeneration := om_Generation (dc_Meta dc)\<rparr>\<rparr>"

definition notReadyDataIds :: "(string, SyncStatus list) gomap \<Rightarrow> string list" where
  "notReadyDataIds statuses =
     concat (map (\<lambda>(grp, groupSyncStatuses).
               map (\<lambda>s. grp @ ''#'' @ st_DataId s) (filter (\<lambda>s. \<not> st_Ready s) groupSyncStatuses))
             statuses)"

definition UpdateStatus :: "DynamicConfiguration \<Rightarrow> DynamicConfiguration" where
  "UpdateStatus dc =
     (let bad = notReadyDataIds (dc_SyncStatuses dc) in
      if length bad > 0
      then dc\<lparr>dc_Status := (dc_Status dc)\<lparr>
             sts_ObservedGeneration := om_Generation (dc_Meta dc),
             sts_Phase := PhaseFailed,
             sts_Message := ''not ready dataIds: '' @ Join bad '',''\<rparr>\<rparr>
      else dc\<lparr>dc_Status := (dc_Status dc)\<lparr>
             sts_ObservedGeneration := om_Generation (dc_Meta dc),
             sts_Phase := PhaseSucceed,
             sts_Message := []\<rparr>\<rparr>)"

section \<open>The table of sync statuses\<close>

text \<open>The in-place replacement, by recursion on the slice.\<close>

fun replace_first :: "SyncStatus list \<Rightarrow> SyncStatus \<Rightarrow> SyncStatus list" where
  "replace_first [] s = [s]"
| "replace_first (v # vs) s = (if st_DataId v = st_DataId s then s # vs else v # replace_first vs s)"

lemma find_status_idx_Suc: "find_status_idx d (Suc i) vs = map_option Suc (find_status_idx d i vs)"
  by (induction vs arbitrary: i) auto

lemma replaceSyncStatus_eq: "replaceSyncStatus vs s = replace_first vs s"
proof (induction vs)
  case Nil
  then show ?case by (simp add: replaceSyncStatus_def)
next
  case (Cons v vs)
  then show ?case
    by (cases vs)
       (auto simp: replaceSyncStatus_def find_status_idx_Suc split: option.splits)
qed

lemma find_status_replace:
  "find_status d (replace_first vs s) = (if d = st_DataId s then Some s else find_status d vs)"
  by (induction vs s rule: replace_first.induct) auto

lemma replace_first_ids:
  "st_DataId ` set (replace_first vs s) = insert (st_DataId s) (st_DataId ` set vs)"
  by (induction vs s rule: replace_first.induct) auto

lemma replace_first_distinct:
  "distinct (map st_DataId vs) \<Longrightarrow> distinct (map st_DataId (replace_first vs s))"
  by (induction vs s rule: replace_first.induct) (auto simp: replace_first_ids)

lemma find_status_None_iff: "find_status d vs = None \<longleftrightarrow> d \<notin> st_DataId ` set vs"
  by (induction vs) auto

lemma find_status_append:
  "find_status d (xs @ ys) = (case find_status d xs of None \<Rightarrow> find_status d ys | Some s \<Rightarrow> Some s)"
  by (induction xs) auto

lemma find_status_filter:
  "find_status d (filter (\<lambda>s. e \<noteq> st_DataId s) vs) = (if d = e then None else find_status d vs)"
  by (induction vs) auto

lemma GetSyncStatusByDataId_eq:
  "GetSyncStatusByDataId dc grp d = find_status d (mget0 [] (dc_SyncStatuses dc) grp)"
  by (auto simp: GetSyncStatusByDataId_def mget0_def Let_def)

text \<open>
  The contract of the status table: a read returns what the last write under the same group and
  data id wrote, and writes elsewhere do not show.
\<close>

locale status_table =
  fixes lookup_status :: "'d \<Rightarrow> string \<Rightarrow> string \<Rightarrow> SyncStatus option"
    and put_status :: "'d \<Rightarrow> string \<Rightarrow> SyncStatus \<Rightarrow> 'd"
    and table_ok :: "'d \<Rightarrow> bool"
  assumes lookup_put:
      "lookup_status (put_status t g s) h d =
         (if h = g \<and> d = st_DataId s then Some s else lookup_status t h d)"
    and put_ok: "table_ok t \<Longrightarrow> table_ok (put_status t g s)"
begin

definition put_all :: "'d \<Rightarrow> (string \<times> SyncStatus) list \<Rightarrow> 'd" where
  "put_all t ws = fold (\<lambda>(g, s) t. put_status t g s) ws t"

lemma put_all_ok: "table_ok t \<Longrightarrow> table_ok (put_all t ws)"
  by (induction ws arbitrary: t) (auto simp: put_all_def put_ok)

lemma lookup_put_all_frame:
  "(\<And>g s. (g, s) \<in> set ws \<Longrightarrow> (g, st_DataId s) \<noteq> (h, d)) \<Longrightarrow>
   lookup_status (put_all t ws) h d = lookup_status t h d"
proof (induction ws arbitrary: t)
  case Nil
  then show ?case by (simp add: put_all_def)
next
  case (Cons w ws)
  obtain g s where w: "w = (g, s)" by (cases w)
  have "(g, st_DataId s) \<noteq> (h, d)" using Cons.prems [of g s] w by simp
  then have "lookup_status (put_status t g s) h d = lookup_status t h d"
    by (auto simp: lookup_put)
  moreover have "lookup_status (put_all (put_status t g s) ws) h d
      = lookup_status (put_status t g s) h d"
    using Cons.prems by (intro Cons.IH) auto
  ultimately show ?case by (simp add: w put_all_def)
qed

lemma lookup_put_all_last:
  "(\<And>h r. (h, r) \<in> set ws \<Longrightarrow> (h, st_DataId r) \<noteq> (g, st_DataId s)) \<Longrightarrow>
   lookup_status (put_all (put_status t g s) ws) g (st_DataId s) = Some s"
  by (subst lookup_put_all_frame) (auto simp: lookup_put)

end

text \<open>\<^verbatim>\<open>UpdateSyncStatus\<close> with its arguments packed into a status record.\<close>

definition put_sync_status :: "DynamicConfiguration \<Rightarrow> string \<Rightarrow> SyncStatus \<Rightarrow> DynamicConfiguration" where
  "put_sync_status dc g s =
     UpdateSyncStatus dc g (st_DataId s) (st_Md5 s) (st_LastSyncFrom s) (st_LastSyncTime s)
       (st_Ready s) (st_Message s)"

definition wf_status :: "DynamicConfiguration \<Rightarrow> bool" where
  "wf_status dc \<longleftrightarrow>
     distinct (mkeys (dc_SyncStatuses dc)) \<and>
     (\<forall>g. distinct (map st_DataId (mget0 [] (dc_SyncStatuses dc) g))) \<and>
     distinct (mkeys (dc_ListenConfigs dc)) \<and>
     (\<forall>g. distinct (mget0 [] (dc_ListenConfigs dc) g))"

lemma mk_status_id [simp]: "st_DataId (mk_status d m f t r x) = d"
  by (simp add: mk_status_def)

lemma mk_status_sel:
  "mk_status (st_DataId s) (st_Md5 s) (st_LastSyncFrom s) (st_LastSyncTime s) (st_Ready s)
     (st_Message s) = s"
  by (simp add: mk_status_def)

lemma GetSyncStatus_UpdateSyncStatus:
  "GetSyncStatusByDataId (UpdateSyncStatus dc g d m f t r x) h e =
     (if h = g \<and> e = d then Some (mk_status d m f t r x) else GetSyncStatusByDataId dc h e)"
  by (auto simp: GetSyncStatusByDataId_eq UpdateSyncStatus_def Let_def gomap replaceSyncStatus_eq
      find_status_replace)

lemma wf_UpdateSyncStatus: "wf_status dc \<Longrightarrow> wf_status (UpdateSyncStatus dc g d m f t r x)"
  by (simp add: wf_status_def UpdateSyncStatus_def Let_def gomap distinct_update
      replaceSyncStatus_eq replace_first_distinct)

interpretation dc_table: status_table GetSyncStatusByDataId put_sync_status wf_status
  by unfold_locales
     (simp_all add: put_sync_status_def GetSyncStatus_UpdateSyncStatus mk_status_sel
        wf_UpdateSyncStatus)

section \<open>The other operations\<close>

text \<open>What the operations leave alone.\<close>

lemma status_frame [simp]:
  "dc_Spec (UpdateSyncStatus dc g d m f t r x) = dc_Spec dc"
  "dc_Meta (UpdateSyncStatus dc g d m f t r x) = dc_Meta dc"
  "dc_ListenConfigs (UpdateSyncStatus dc g d m f t r x) = dc_ListenConfigs dc"
  "dc_Spec (AddListenConfig dc g d) = dc_Spec dc"
  "dc_Meta (AddListenConfig dc g d) = dc_Meta dc"
  "dc_SyncStatuses (AddListenConfig dc g d) = dc_SyncStatuses dc"
  "dc_Spec (UpdateSyncStatusIfAbsent dc g d m f t r x) = dc_Spec dc"
  "dc_Meta (UpdateSyncStatusIfAbsent dc g d m f t r x) = dc_Meta dc"
  "dc_ListenConfigs (UpdateSyncStatusIfAbsent dc g d m f t r x) = dc_ListenConfigs dc"
  "dc_Spec (FailedStatus dc x) = dc_Spec dc" "dc_Meta (FailedStatus dc x) = dc_Meta dc"
  "dc_SyncStatuses (FailedStatus dc x) = dc_SyncStatuses dc"
  "dc_ListenConfigs (FailedStatus dc x) = dc_ListenConfigs dc"
  "dc_Spec (UpdateStatus dc) = dc_Spec dc" "dc_Meta (UpdateStatus dc) = dc_Meta dc"
  "dc_SyncStatuses (UpdateStatus dc) = dc_SyncStatuses dc"
  "dc_ListenConfigs (UpdateStatus dc) = dc_ListenConfigs dc"
  by (simp_all add: UpdateSyncStatus_def AddListenConfig_def UpdateSyncStatusIfAbsent_def
      FailedStatus_def UpdateStatus_def Let_def split: option.split)

lemma GetSyncStatus_AddListenConfig [simp]:
  "GetSyncStatusByDataId (AddListenConfig dc g d) h e = GetSyncStatusByDataId dc h e"
  by (simp add: GetSyncStatusByDataId_eq)

lemma GetSyncStatus_IfAbsent:
  "GetSyncStatusByDataId (UpdateSyncStatusIfAbsent dc g d m f t r x) h e =
     (if h = g \<and> e = d \<and> GetSyncStatusByDataId dc g d = None then Some (mk_status d m f t r x)
      else GetSyncStatusByDataId dc h e)"
  by (auto simp: GetSyncStatusByDataId_eq UpdateSyncStatusIfAbsent_def Let_def gomap
      find_status_append split: option.splits)

lemma GetSyncStatus_RemoveSyncStatus:
  "GetSyncStatusByDataId (RemoveSyncStatus dc g d) h e =
     (if h = g \<and> e = d then None else GetSyncStatusByDataId dc h e)"
  by (auto simp: GetSyncStatusByDataId_eq RemoveSyncStatus_def Let_def gomap find_status_filter
      mget0_def split: option.splits)

lemma wf_UpdateSyncStatusIfAbsent:
  "wf_status dc \<Longrightarrow> wf_status (UpdateSyncStatusIfAbsent dc g d m f t r x)"
  by (auto simp: wf_status_def UpdateSyncStatusIfAbsent_def GetSyncStatusByDataId_eq Let_def gomap
      distinct_update find_status_None_iff split: option.splits)

lemma wf_RemoveSyncStatus: "wf_status dc \<Longrightarrow> wf_status (RemoveSyncStatus dc g d)"
  by (auto simp: wf_status_def RemoveSyncStatus_def Let_def gomap distinct_update
      intro!: distinct_map_filter)

lemma wf_AddListenConfig: "wf_status dc \<Longrightarrow> wf_status (AddListenConfig dc g d)"
  by (auto simp: wf_status_def AddListenConfig_def Let_def gomap distinct_update)

lemma wf_status_cong:
  "dc_SyncStatuses dc' = dc_SyncStatuses dc \<Longrightarrow> dc_ListenConfigs dc' = dc_ListenConfigs dc \<Longrightarrow>
   wf_status dc' = wf_status dc"
  by (simp add: wf_status_def)

lemma wf_FailedStatus [simp]: "wf_status (FailedStatus dc x) = wf_status dc"
  by (rule wf_status_cong) simp_all

lemma wf_UpdateStatus [simp]: "wf_status (UpdateStatus dc) = wf_status dc"
  by (rule wf_status_cong) simp_all

lemma wf_UpdateDynamicConfigurationStatus [simp]:
  "wf_status (UpdateDynamicConfigurationStatus dc) = wf_status dc"
  by (rule wf_status_cong) (simp_all add: UpdateDynamicConfigurationStatus_def)

lemma wf_CleanDynamicConfigurationStatus [simp]: "wf_status (CleanDynamicConfigurationStatus dc)"
  by (simp add: wf_status_def CleanDynamicConfigurationStatus_def mget0_def)

lemmas wf_status_ops =
  wf_UpdateSyncStatus wf_UpdateSyncStatusIfAbsent wf_RemoveSyncStatus wf_AddListenConfig

text \<open>The data ids listened to, as a relation between groups and data ids.\<close>

definition listens :: "DynamicConfiguration \<Rightarrow> string \<Rightarrow> string \<Rightarrow> bool" where
  "listens dc g d \<longleftrightarrow> d \<in> set (mget0 [] (dc_ListenConfigs dc) g)"

lemma listens_AddListenConfig:
  "listens (AddListenConfig dc g d) h e \<longleftrightarrow> (h = g \<and> e = d) \<or> listens dc h e"
  by (auto simp: listens_def AddListenConfig_def Let_def gomap)

lemma listens_cong: "dc_ListenConfigs dc' = dc_ListenConfigs dc \<Longrightarrow> listens dc' = listens dc"
  by (simp add: listens_def fun_eq_iff)

lemma AddListenConfig_idem: "listens dc g d \<Longrightarrow> AddListenConfig dc g d = dc"
  by (auto simp: listens_def AddListenConfig_def Let_def)

lemma checkNacosServerChange_iff:
  "checkNacosServerChange dc \<longleftrightarrow>
     (ns_Endpoint (dc_NacosServer dc), ns_ServerAddr (dc_NacosServer dc), ns_Namespace (dc_NacosServer dc))
     \<noteq> (nst_Endpoint (sts_NacosServerStatus (dc_Status dc)),
        nst_ServerAddr (sts_NacosServerStatus (dc_Status dc)),
        nst_Namespace (sts_NacosServerStatus (dc_Status dc)))"
  by (auto simp: checkNacosServerChange_def Let_def)

lemma checkNacosServerChange_updated: "\<not> checkNacosServerChange (UpdateDynamicConfigurationStatus dc)"
  by (simp add: checkNacosServerChange_iff UpdateDynamicConfigurationStatus_def)

lemma notReady_Nil_iff:
  "notReadyDataIds m = [] \<longleftrightarrow> (\<forall>g ss s. (g, ss) \<in> set m \<longrightarrow> s \<in> set ss \<longrightarrow> st_Ready s)"
  by (fastforce simp: notReadyDataIds_def filter_empty_conv)

lemma UpdateStatus_phase:
  "sts_Phase (dc_Status (UpdateStatus dc)) =
     (if notReadyDataIds (dc_SyncStatuses dc) = [] then PhaseSucceed else PhaseFailed)"
  by (simp add: UpdateStatus_def Let_def)

lemma find_status_mem:
  "distinct (map st_DataId vs) \<Longrightarrow> find_status d vs = Some s \<longleftrightarrow> s \<in> set vs \<and> st_DataId s = d"
  by (induction vs) (auto simp: rev_image_eqI)

text \<open>On a well-formed status, the statuses listed are those the lookup finds.\<close>

lemma wf_status_listed:
  assumes "wf_status dc"
  shows "(\<exists>ss. (g, ss) \<in> set (dc_SyncStatuses dc) \<and> s \<in> set ss) \<longleftrightarrow>
         GetSyncStatusByDataId dc g (st_DataId s) = Some s"
proof -
  have dk: "distinct (mkeys (dc_SyncStatuses dc))"
    and ds: "distinct (map st_DataId (mget0 [] (dc_SyncStatuses dc) g))"
    using assms by (simp_all add: wf_status_def)
  show ?thesis
  proof (cases "mget (dc_SyncStatuses dc) g")
    case None
    then have "g \<notin> fst ` set (dc_SyncStatuses dc)" by (simp add: mkey_iff)
    with None show ?thesis by (force simp: GetSyncStatusByDataId_eq mget0_def)
  next
    case (Some ss)
    have "(g, ss') \<in> set (dc_SyncStatuses dc) \<longleftrightarrow> ss' = ss" for ss'
      unfolding mget_Some_iff [OF dk, symmetric] Some by auto
    moreover have "mget0 [] (dc_SyncStatuses dc) g = ss" using Some by (simp add: mget0_def)
    ultimately show ?thesis
      using ds by (simp add: GetSyncStatusByDataId_eq find_status_mem)
  qed
qed

lemma wf_status_all_ready:
  assumes "wf_status dc"
  shows "notReadyDataIds (dc_SyncStatuses dc) = [] \<longleftrightarrow>
         (\<forall>g d s. GetSyncStatusByDataId dc g d = Some s \<longrightarrow> st_Ready s)"
proof -
  have id: "st_DataId s = d" if "GetSyncStatusByDataId dc g d = Some s" for g d s
    using that assms by (simp add: GetSyncStatusByDataId_eq wf_status_def find_status_mem)
  have "notReadyDataIds (dc_SyncStatuses dc) = [] \<longleftrightarrow>
      (\<forall>g s. (\<exists>ss. (g, ss) \<in> set (dc_SyncStatuses dc) \<and> s \<in> set ss) \<longrightarrow> st_Ready s)"
    unfolding notReady_Nil_iff by blast
  also have "\<dots> \<longleftrightarrow> (\<forall>g s. GetSyncStatusByDataId dc g (st_DataId s) = Some s \<longrightarrow> st_Ready s)"
    by (simp only: wf_status_listed [OF assms])
  also have "\<dots> \<longleftrightarrow> (\<forall>g d s. GetSyncStatusByDataId dc g d = Some s \<longrightarrow> st_Ready s)"
    using id by blast
  finally show ?thesis .
qed

end
