(* ===== verification/Kube_Env.thy ===== *)
theory Kube_Env
  imports DC_Status
begin

text \<open>
  The code outside the repository that the controllers call, as parameters: the Kubernetes API
  through client-go and controller-runtime.  A value of type \<open>'s Kube\<close> holds one operation per
  call the sources make; \<open>'s\<close> is the state of everything outside the process, which only these
  operations read or change.  What the code relies on is stated as named hypotheses, each a
  documented behaviour of the called function; \<open>api_server\<close> below is one instance that has
  them, used by the witnesses.
\<close>

section \<open>The operations\<close>

record 's Kube =
  \<comment> \<open>apimachinery: \<^verbatim>\<open>schema.FromAPIVersionAndKind\<close>, \<^verbatim>\<open>GroupVersionKind.String\<close>, \<^verbatim>\<open>metav1.Now\<close>\<close>
  FromAPIVersionAndKind :: "string \<Rightarrow> string \<Rightarrow> GroupVersionKind"
  GVKString :: "GroupVersionKind \<Rightarrow> string"
  Now :: "'s \<Rightarrow> nat"
  \<comment> \<open>controllerutil\<close>
  ContainsFinalizer :: "ObjectMeta \<Rightarrow> string \<Rightarrow> bool"
  AddFinalizer :: "ObjectMeta \<Rightarrow> string \<Rightarrow> ObjectMeta"
  \<comment> \<open>the clientset: \<^verbatim>\<open>cs.CoreV1().ConfigMaps(ns)\<close> and \<^verbatim>\<open>cs.CoreV1().Secrets(ns)\<close>\<close>
  ConfigMaps_Get :: "string \<Rightarrow> string \<Rightarrow> ('s, go_error + ConfigMap) state"
  ConfigMaps_Create :: "string \<Rightarrow> ConfigMap \<Rightarrow> ('s, go_error + ConfigMap) state"
  ConfigMaps_Update :: "string \<Rightarrow> ConfigMap \<Rightarrow> ('s, go_error + ConfigMap) state"
  Secrets_Get :: "string \<Rightarrow> string \<Rightarrow> ('s, go_error + Secret) state"
  Secrets_Create :: "string \<Rightarrow> Secret \<Rightarrow> ('s, go_error + Secret) state"
  Secrets_Update :: "string \<Rightarrow> Secret \<Rightarrow> ('s, go_error + Secret) state"
  \<comment> \<open>the controller-runtime client, by the type of the object\<close>
  Client_GetDC :: "NamespacedName \<Rightarrow> ('s, go_error + DynamicConfiguration) state"
  Client_ListDC :: "string \<Rightarrow> ('s, go_error + DynamicConfiguration list) state"
  Client_UpdateDC :: "DynamicConfiguration \<Rightarrow> ('s, go_error + DynamicConfiguration) state"
  Client_StatusUpdateDC :: "DynamicConfiguration \<Rightarrow> ('s, go_error + DynamicConfiguration) state"
  Client_GetConfigMap :: "NamespacedName \<Rightarrow> ('s, go_error + ConfigMap) state"
  Client_GetSecret :: "NamespacedName \<Rightarrow> ('s, go_error + Secret) state"
  Client_ListConfigMaps :: "string \<Rightarrow> ('s, go_error + ConfigMap list) state"
  Client_ListSecrets :: "string \<Rightarrow> ('s, go_error + Secret list) state"
  Client_UpdateObject :: "Object \<Rightarrow> ('s, go_error + Object) state"

section \<open>Hypotheses\<close>

text \<open>\<^verbatim>\<open>FromAPIVersionAndKind("v1", kind)\<close> is the core group, and \<^verbatim>\<open>String\<close> tells kinds apart.\<close>

definition gvk_laws :: "'s Kube \<Rightarrow> bool" where
  "gvk_laws K \<longleftrightarrow>
     (\<forall>kind. FromAPIVersionAndKind K ''v1'' kind = \<lparr>gvk_Group = [], gvk_Version = ''v1'', gvk_Kind = kind\<rparr>) \<and>
     GVKString K ConfigMapGVK \<noteq> GVKString K SecretGVK"

text \<open>\<^verbatim>\<open>ContainsFinalizer\<close> and \<^verbatim>\<open>AddFinalizer\<close> of controllerutil.\<close>

definition finalizer_laws :: "'s Kube \<Rightarrow> bool" where
  "finalizer_laws K \<longleftrightarrow>
     (\<forall>m f. ContainsFinalizer K m f \<longleftrightarrow> f \<in> set (om_Finalizers m)) \<and>
     (\<forall>m f. AddFinalizer K m f =
        (if f \<in> set (om_Finalizers m) then m else m\<lparr>om_Finalizers := om_Finalizers m @ [f]\<rparr>))"

text \<open>
  The API server as a store of ConfigMaps that nobody else writes during the call: \<open>view\<close> is what
  it holds.  A read returns the stored object or an error, a not-found error only when there is
  none; a successful write stores the object it returns, whose labels, finalizers and data are those
  submitted; a failed call stores nothing.
\<close>

definition same_configmap :: "ConfigMap \<Rightarrow> ConfigMap \<Rightarrow> bool" where
  "same_configmap a b \<longleftrightarrow>
     cm_Data a = cm_Data b \<and> cm_BinaryData a = cm_BinaryData b \<and>
     om_Namespace (cm_Meta a) = om_Namespace (cm_Meta b) \<and> om_Name (cm_Meta a) = om_Name (cm_Meta b) \<and>
     om_Finalizers (cm_Meta a) = om_Finalizers (cm_Meta b) \<and> om_Labels (cm_Meta a) = om_Labels (cm_Meta b)"

definition reads_configmaps ::
  "(string \<Rightarrow> string \<Rightarrow> ('s, go_error + ConfigMap) state) \<Rightarrow> ('s \<Rightarrow> string \<Rightarrow> string \<Rightarrow> ConfigMap option) \<Rightarrow> bool" where
  "reads_configmaps op view \<longleftrightarrow> (\<forall>ns n s.
     exec (op ns n) s = s \<and>
     (case result (op ns n) s of
        Inr cm \<Rightarrow> view s ns n = Some cm
      | Inl e \<Rightarrow> IsNotFound e \<longrightarrow> view s ns n = None))"

definition writes_configmaps ::
  "(string \<Rightarrow> ConfigMap \<Rightarrow> ('s, go_error + ConfigMap) state) \<Rightarrow> ('s \<Rightarrow> string \<Rightarrow> string \<Rightarrow> ConfigMap option) \<Rightarrow> bool" where
  "writes_configmaps op view \<longleftrightarrow> (\<forall>cm s.
     (let ns0 = om_Namespace (cm_Meta cm); n0 = om_Name (cm_Meta cm); s' = exec (op ns0 cm) s in
      case result (op ns0 cm) s of
        Inl e \<Rightarrow> s' = s
      | Inr cm' \<Rightarrow> same_configmap cm' cm \<and>
          (\<forall>ns n. view s' ns n = (if ns = ns0 \<and> n = n0 then Some cm' else view s ns n))))"

definition configmap_storage :: "'s Kube \<Rightarrow> ('s \<Rightarrow> string \<Rightarrow> string \<Rightarrow> ConfigMap option) \<Rightarrow> bool" where
  "configmap_storage K view \<longleftrightarrow>
     reads_configmaps (ConfigMaps_Get K) view \<and>
     writes_configmaps (ConfigMaps_Create K) view \<and>
     writes_configmaps (ConfigMaps_Update K) view \<and>
     (\<forall>s ns n cm. view s ns n = Some cm \<longrightarrow>
        om_Namespace (cm_Meta cm) = ns \<and> om_Name (cm_Meta cm) = n)"

text \<open>
  Likewise for DynamicConfigurations: a successful update of the status subresource stores the
  object it returns, which has the submitted status.
\<close>

definition dc_storage :: "'s Kube \<Rightarrow> ('s \<Rightarrow> NamespacedName \<Rightarrow> DynamicConfiguration option) \<Rightarrow> bool" where
  "dc_storage K dview \<longleftrightarrow>
     (\<forall>k s. exec (Client_GetDC K k) s = s \<and>
        (case result (Client_GetDC K k) s of
           Inr dc \<Rightarrow> dview s k = Some dc | Inl e \<Rightarrow> IsNotFound e \<longrightarrow> dview s k = None)) \<and>
     (\<forall>x s k. dview (exec (Client_StatusUpdateDC K x) s) k =
        (case result (Client_StatusUpdateDC K x) s of
           Inr x' \<Rightarrow> if k = \<lparr>nn_Namespace = dc_Namespace x, nn_Name = dc_Name x\<rparr> then Some x' else dview s k
         | Inl _ \<Rightarrow> dview s k)) \<and>
     (\<forall>x s x'. result (Client_StatusUpdateDC K x) s = Inr x' \<longrightarrow> dc_Status x' = dc_Status x) \<and>
     (\<forall>s k dc. dview s k = Some dc \<longrightarrow> k = \<lparr>nn_Namespace = dc_Namespace dc, nn_Name = dc_Name dc\<rparr>)"

text \<open>Writing objects of one type does not change those of the other.\<close>

definition separate_stores ::
  "'s Kube \<Rightarrow> ('s \<Rightarrow> string \<Rightarrow> string \<Rightarrow> ConfigMap option) \<Rightarrow>
   ('s \<Rightarrow> NamespacedName \<Rightarrow> DynamicConfiguration option) \<Rightarrow> bool" where
  "separate_stores K view dview \<longleftrightarrow>
     (\<forall>x s. view (exec (Client_StatusUpdateDC K x) s) = view s) \<and>
     (\<forall>ns x s. dview (exec (ConfigMaps_Create K ns x) s) = dview s) \<and>
     (\<forall>ns x s. dview (exec (ConfigMaps_Update K ns x) s) = dview s)"

text \<open>\<^verbatim>\<open>objRef.GroupVersionKind().String()\<close>\<close>

definition ref_gvk_string :: "'s Kube \<Rightarrow> ObjectReference \<Rightarrow> string" where
  "ref_gvk_string K r = GVKString K (FromAPIVersionAndKind K (or_APIVersion r) (or_Kind r))"

section \<open>A small API server\<close>

text \<open>
  A store of ConfigMaps, Secrets and DynamicConfigurations by namespace and name, with optimistic
  concurrency: an update carries the resource version it read, a stale one is refused with a
  conflict, and every accepted write sets a new version.
\<close>

record cluster =
  cl_ConfigMaps :: "(string \<times> string, ConfigMap) gomap"
  cl_Secrets :: "(string \<times> string, Secret) gomap"
  cl_DCs :: "(string \<times> string, DynamicConfiguration) gomap"
  cl_Version :: nat

definition version_string :: "nat \<Rightarrow> string" where
  "version_string n = replicate n (CHR ''v'')"

definition meta_key :: "ObjectMeta \<Rightarrow> string \<times> string" where
  "meta_key m = (om_Namespace m, om_Name m)"

text \<open>The object filed under its own namespace and name.\<close>

definition filed_in :: "('o \<Rightarrow> ObjectMeta) \<Rightarrow> (string \<times> string, 'o) gomap \<Rightarrow> string \<times> string \<Rightarrow> 'o option" where
  "filed_in meta t k =
     (case mget t k of Some x \<Rightarrow> if meta_key (meta x) = k then Some x else None | None \<Rightarrow> None)"

definition api_get :: "(cluster \<Rightarrow> (string \<times> string, 'o) gomap) \<Rightarrow> ('o \<Rightarrow> ObjectMeta) \<Rightarrow> string \<times> string \<Rightarrow>
    (cluster, go_error + 'o) state" where
  "api_get tab meta k = State (\<lambda>c. case filed_in meta (tab c) k of
       None \<Rightarrow> (Inl (ErrNotFound ''not found''), c) | Some x \<Rightarrow> (Inr x, c))"

definition api_put ::
  "(cluster \<Rightarrow> (string \<times> string, 'o) gomap) \<Rightarrow>
   ((string \<times> string, 'o) gomap \<Rightarrow> cluster \<Rightarrow> cluster) \<Rightarrow> ('o \<Rightarrow> ObjectMeta) \<Rightarrow>
   (ObjectMeta \<Rightarrow> 'o \<Rightarrow> 'o) \<Rightarrow> ('o \<Rightarrow> 'o \<Rightarrow> 'o) \<Rightarrow> bool \<Rightarrow> 'o \<Rightarrow> (cluster, go_error + 'o) state" where
  "api_put tab set_tab meta set_meta merge create x = State (\<lambda>c.
     let k = meta_key (meta x); v = Suc (cl_Version c) in
     case filed_in meta (tab c) k of
       None \<Rightarrow>
         if create
         then let y = set_meta ((meta x)\<lparr>om_ResourceVersion := version_string v\<rparr>) x
              in (Inr y, (set_tab (mput k y (tab c)) c)\<lparr>cl_Version := v\<rparr>)
         else (Inl (ErrNotFound ''not found''), c)
     | Some old \<Rightarrow>
         if create then (Inl (ErrOther ''already exists''), c)
         else if om_ResourceVersion (meta old) \<noteq> om_ResourceVersion (meta x)
         then (Inl (ErrConflict ''conflict''), c)
         else let y0 = merge old x; y = set_meta ((meta y0)\<lparr>om_ResourceVersion := version_string v\<rparr>) y0
              in (Inr y, (set_tab (mput k y (tab c)) c)\<lparr>cl_Version := v\<rparr>))"

abbreviation put_cm :: "bool \<Rightarrow> ConfigMap \<Rightarrow> (cluster, go_error + ConfigMap) state" where
  "put_cm \<equiv> api_put cl_ConfigMaps (\<lambda>t c. c\<lparr>cl_ConfigMaps := t\<rparr>) cm_Meta
     (\<lambda>m x. x\<lparr>cm_Meta := m\<lparr>om_Kind := ''ConfigMap'', om_APIVersion := ''v1''\<rparr>\<rparr>) (\<lambda>old x. x)"

abbreviation put_secret :: "bool \<Rightarrow> Secret \<Rightarrow> (cluster, go_error + Secret) state" where
  "put_secret \<equiv> api_put cl_Secrets (\<lambda>t c. c\<lparr>cl_Secrets := t\<rparr>) sec_Meta
     (\<lambda>m x. x\<lparr>sec_Meta := m\<lparr>om_Kind := ''Secret'', om_APIVersion := ''v1''\<rparr>\<rparr>) (\<lambda>old x. x)"

abbreviation put_dc ::
  "(DynamicConfiguration \<Rightarrow> DynamicConfiguration \<Rightarrow> DynamicConfiguration) \<Rightarrow>
   DynamicConfiguration \<Rightarrow> (cluster, go_error + DynamicConfiguration) state" where
  "put_dc merge \<equiv> api_put cl_DCs (\<lambda>t c. c\<lparr>cl_DCs := t\<rparr>) dc_Meta (\<lambda>m x. x\<lparr>dc_Meta := m\<rparr>) merge False"

definition in_namespace :: "string \<Rightarrow> (string \<times> string, 'o) gomap \<Rightarrow> 'o list" where
  "in_namespace ns t = map snd (filter (\<lambda>(k, _). fst k = ns) t)"

definition map_result :: "('a \<Rightarrow> 'b) \<Rightarrow> ('s, go_error + 'a) state \<Rightarrow> ('s, go_error + 'b) state" where
  "map_result f m = do { r \<leftarrow> m; ret (map_sum id f r) }"

text \<open>The API server over a state \<open>'s\<close> of which it owns the part given by \<open>rd\<close> and \<open>wr\<close>.\<close>

definition on_part :: "('s \<Rightarrow> 'p) \<Rightarrow> ('p \<Rightarrow> 's \<Rightarrow> 's) \<Rightarrow> ('p, 'a) state \<Rightarrow> ('s, 'a) state" where
  "on_part rd wr m = State (\<lambda>s. case run_state m (rd s) of (a, p) \<Rightarrow> (a, wr p s))"

definition api_server :: "('s \<Rightarrow> cluster) \<Rightarrow> (cluster \<Rightarrow> 's \<Rightarrow> 's) \<Rightarrow> 's Kube" where
  "api_server rd wr = \<lparr>
     FromAPIVersionAndKind = (\<lambda>v k. \<lparr>gvk_Group = [], gvk_Version = v, gvk_Kind = k\<rparr>),
     GVKString = (\<lambda>g. gvk_Group g @ ''/'' @ gvk_Version g @ '', Kind='' @ gvk_Kind g),
     Now = (\<lambda>s. cl_Version (rd s)),
     ContainsFinalizer = (\<lambda>m f. f \<in> set (om_Finalizers m)),
     AddFinalizer = (\<lambda>m f. if f \<in> set (om_Finalizers m) then m
                           else m\<lparr>om_Finalizers := om_Finalizers m @ [f]\<rparr>),
     ConfigMaps_Get = (\<lambda>ns n. on_part rd wr (api_get cl_ConfigMaps cm_Meta (ns, n))),
     ConfigMaps_Create = (\<lambda>ns x. on_part rd wr (put_cm True x)),
     ConfigMaps_Update = (\<lambda>ns x. on_part rd wr (put_cm False x)),
     Secrets_Get = (\<lambda>ns n. on_part rd wr (api_get cl_Secrets sec_Meta (ns, n))),
     Secrets_Create = (\<lambda>ns x. on_part rd wr (put_secret True x)),
     Secrets_Update = (\<lambda>ns x. on_part rd wr (put_secret False x)),
     Client_GetDC = (\<lambda>k. on_part rd wr (api_get cl_DCs dc_Meta (nn_Namespace k, nn_Name k))),
     Client_ListDC = (\<lambda>ns. on_part rd wr (gets (\<lambda>c. Inr (in_namespace ns (cl_DCs c))))),
     Client_UpdateDC = (\<lambda>x. on_part rd wr (put_dc (\<lambda>old y. y\<lparr>dc_Status := dc_Status old\<rparr>) x)),
     Client_StatusUpdateDC = (\<lambda>x. on_part rd wr (put_dc (\<lambda>old y. old\<lparr>dc_Status := dc_Status y\<rparr>) x)),
     Client_GetConfigMap = (\<lambda>k. on_part rd wr (api_get cl_ConfigMaps cm_Meta (nn_Namespace k, nn_Name k))),
     Client_GetSecret = (\<lambda>k. on_part rd wr (api_get cl_Secrets sec_Meta (nn_Namespace k, nn_Name k))),
     Client_ListConfigMaps = (\<lambda>ns. on_part rd wr (gets (\<lambda>c. Inr (in_namespace ns (cl_ConfigMaps c))))),
     Client_ListSecrets = (\<lambda>ns. on_part rd wr (gets (\<lambda>c. Inr (in_namespace ns (cl_Secrets c))))),
     Client_UpdateObject = (\<lambda>x. on_part rd wr (case x of
         ObjConfigMap c \<Rightarrow> map_result ObjConfigMap (put_cm False c)
       | ObjSecret c \<Rightarrow> map_result ObjSecret (put_secret False c)))\<rparr>"

lemma gvk_laws_api_server: "gvk_laws (api_server rd wr)"
  by (simp add: gvk_laws_def api_server_def ConfigMapGVK_def SecretGVK_def)

lemma finalizer_laws_api_server: "finalizer_laws (api_server rd wr)"
  by (simp add: finalizer_laws_def api_server_def)

text \<open>Its ConfigMaps and DynamicConfigurations are such stores.\<close>

definition filed_configmap :: "cluster \<Rightarrow> string \<Rightarrow> string \<Rightarrow> ConfigMap option" where
  "filed_configmap c ns n = filed_in cm_Meta (cl_ConfigMaps c) (ns, n)"

definition filed_dc :: "cluster \<Rightarrow> NamespacedName \<Rightarrow> DynamicConfiguration option" where
  "filed_dc c k = filed_in dc_Meta (cl_DCs c) (nn_Namespace k, nn_Name k)"

definition one_cluster :: "cluster Kube" where
  "one_cluster = api_server (\<lambda>c. c) (\<lambda>p _. p)"

lemma meta_key_iff [simp]: "meta_key m = (ns, n) \<longleftrightarrow> om_Namespace m = ns \<and> om_Name m = n"
  by (auto simp: meta_key_def)

lemma one_cluster_configmaps:
  "ConfigMaps_Get one_cluster ns n = api_get cl_ConfigMaps cm_Meta (ns, n)"
  "ConfigMaps_Create one_cluster ns x = put_cm True x"
  "ConfigMaps_Update one_cluster ns x = put_cm False x"
  by (simp_all add: one_cluster_def api_server_def on_part_def)

lemma one_cluster_dcs:
  "Client_GetDC one_cluster k = api_get cl_DCs dc_Meta (nn_Namespace k, nn_Name k)"
  "Client_StatusUpdateDC one_cluster x = put_dc (\<lambda>old y. old\<lparr>dc_Status := dc_Status y\<rparr>) x"
  by (simp_all add: one_cluster_def api_server_def on_part_def)

lemma writes_put_cm: "writes_configmaps (\<lambda>ns. put_cm b) filed_configmap"
  unfolding writes_configmaps_def Let_def
  by (auto simp: api_put_def Let_def filed_configmap_def filed_in_def same_configmap_def meta_key_def
      gomap split: option.splits if_splits)

lemma configmap_storage_one_cluster: "configmap_storage one_cluster filed_configmap"
proof -
  have "reads_configmaps (ConfigMaps_Get one_cluster) filed_configmap"
    by (simp add: reads_configmaps_def one_cluster_configmaps api_get_def filed_configmap_def
        split: option.split)
  moreover have "writes_configmaps (ConfigMaps_Create one_cluster) filed_configmap"
    "writes_configmaps (ConfigMaps_Update one_cluster) filed_configmap"
    using writes_put_cm [of True] writes_put_cm [of False] by (simp_all add: one_cluster_configmaps [abs_def])
  moreover have "om_Namespace (cm_Meta cm) = ns \<and> om_Name (cm_Meta cm) = n"
    if "filed_configmap s ns n = Some cm" for s ns n cm
    using that by (auto simp: filed_configmap_def filed_in_def split: option.splits if_splits)
  ultimately show ?thesis unfolding configmap_storage_def by blast
qed

lemma dc_storage_one_cluster: "dc_storage one_cluster filed_dc"
proof -
  have "filed_dc (exec (Client_StatusUpdateDC one_cluster x) s) k =
      (case result (Client_StatusUpdateDC one_cluster x) s of
         Inr x' \<Rightarrow> if k = \<lparr>nn_Namespace = dc_Namespace x, nn_Name = dc_Name x\<rparr> then Some x' else filed_dc s k
       | Inl _ \<Rightarrow> filed_dc s k)" for x s k
    by (cases k)
       (auto simp: one_cluster_dcs api_put_def Let_def filed_dc_def filed_in_def meta_key_def gomap
          split: option.splits if_splits)
  moreover have "dc_Status x' = dc_Status x"
    if "result (Client_StatusUpdateDC one_cluster x) s = Inr x'" for x x' s
    using that by (auto simp: one_cluster_dcs api_put_def Let_def split: option.splits if_splits)
  moreover have "k = \<lparr>nn_Namespace = dc_Namespace dc, nn_Name = dc_Name dc\<rparr>"
    if "filed_dc s k = Some dc" for s k dc
    using that by (cases k) (auto simp: filed_dc_def filed_in_def split: option.splits if_splits)
  moreover have "exec (Client_GetDC one_cluster k) s = s \<and>
      (case result (Client_GetDC one_cluster k) s of
         Inr dc \<Rightarrow> filed_dc s k = Some dc | Inl e \<Rightarrow> IsNotFound e \<longrightarrow> filed_dc s k = None)" for k s
    by (simp add: one_cluster_dcs(1) api_get_def filed_dc_def split: option.splits)
  ultimately show ?thesis unfolding dc_storage_def by blast
qed

lemma separate_stores_one_cluster: "separate_stores one_cluster filed_configmap filed_dc"
  by (auto simp: separate_stores_def one_cluster_configmaps one_cluster_dcs api_put_def Let_def
      filed_configmap_def filed_dc_def fun_eq_iff split: option.splits)

subsection \<open>A cluster for examples\<close>

definition demo_meta :: "string \<Rightarrow> string \<Rightarrow> ObjectMeta" where
  "demo_meta kind n = zero_meta\<lparr>om_Namespace := ''ns'', om_Name := n, om_Kind := kind, om_APIVersion := ''v1''\<rparr>"

definition demo_ref :: ObjectReference where
  "demo_ref = \<lparr>or_Kind = ''ConfigMap'', or_Namespace = ''ns'', or_Name = ''app'', or_APIVersion = ''v1''\<rparr>"

definition demo_cm :: ConfigMap where
  "demo_cm = \<lparr>cm_Meta = demo_meta ''ConfigMap'' ''app'', cm_Data = [(''k'', [])], cm_BinaryData = []\<rparr>"

definition demo_key :: NamespacedName where
  "demo_key = \<lparr>nn_Namespace = ''ns'', nn_Name = ''dc''\<rparr>"

definition demo_dc :: "bool \<Rightarrow> DynamicConfiguration" where
  "demo_dc deletion = \<lparr>dc_Meta = demo_meta ''DynamicConfiguration'' ''dc'',
     dc_Spec = \<lparr>spec_AdditionalConf = None,
        spec_Strategy = \<lparr>ss_SyncScope = ''partial'', ss_SyncDeletion = deletion, ss_ConflictPolicy = ''preferCluster''\<rparr>,
        spec_NacosServer = \<lparr>ns_Endpoint = [], ns_ServerAddr = ''h:8848'', ns_Namespace = ''public'', ns_AuthRef = None\<rparr>,
        spec_ObjectRefs = Some [demo_ref]\<rparr>,
     dc_Status = \<lparr>sts_Phase = [], sts_Message = [], sts_ObservedGeneration = 0, sts_SyncStatuses = [],
        sts_ListenConfigs = [], sts_NacosServerStatus = zero_server_status,
        sts_SyncStrategyStatus = zero_strategy\<rparr>\<rparr>"

definition demo_cluster :: "bool \<Rightarrow> cluster" where
  "demo_cluster deletion = \<lparr>cl_ConfigMaps = [((''ns'', ''app''), demo_cm)], cl_Secrets = [],
     cl_DCs = [((''ns'', ''dc''), demo_dc deletion)], cl_Version = 0\<rparr>"

lemmas demo_defs = demo_meta_def demo_ref_def demo_cm_def demo_key_def demo_dc_def demo_cluster_def zero_meta_def

lemma demo_views:
  "filed_dc (demo_cluster b) demo_key = Some (demo_dc b)"
  "filed_configmap (demo_cluster b) ''ns'' ''app'' = Some demo_cm"
  by (simp_all add: filed_dc_def filed_configmap_def filed_in_def demo_defs)

end
