(* ===== verification/Object_Wrapper.thy ===== *)
theory Object_Wrapper
  imports Kube_Env
begin

text \<open>
  \<^verbatim>\<open>pkg/nacos/object_reference_wrapper.go\<close>: access to the ConfigMap or Secret an object reference
  names, with a copy of the object cached in the wrapper.  A method is a program over the pair
  of the wrapper and the outside state.  \<open>reload_configmap\<close> and \<open>reload_secret\<close> are the bodies of
  \<^verbatim>\<open>Reload\<close> up to the assignment of the cached copy; \<open>cmw_load\<close> and \<open>sw_load\<close> are the prologue
  \<^verbatim>\<open>if cmw.cm == nil { Reload }\<close> that most methods share.
\<close>

section \<open>State of a wrapper\<close>

record ConfigMapWrapper =
  cmw_ObjectRef :: ObjectReference
  cmw_cm :: "ConfigMap option"

record SecretWrapper =
  sw_ObjectRef :: ObjectReference
  sw_secret :: "Secret option"

definition outside :: "('s, 'a) state \<Rightarrow> ('w \<times> 's, 'a) state" where
  "outside m = State (\<lambda>(w, s). case run_state m s of (a, s') \<Rightarrow> (a, (w, s')))"

abbreviation set_cm :: "ConfigMap \<Rightarrow> (ConfigMapWrapper \<times> 's, unit) state" where
  "set_cm cm \<equiv> modify (apfst (\<lambda>w. w\<lparr>cmw_cm := Some cm\<rparr>))"

abbreviation set_secret :: "Secret \<Rightarrow> (SecretWrapper \<times> 's, unit) state" where
  "set_secret x \<equiv> modify (apfst (\<lambda>w. w\<lparr>sw_secret := Some x\<rparr>))"

definition new_meta :: "ObjectReference \<Rightarrow> ObjectMeta" where
  "new_meta ref = zero_meta\<lparr>om_Namespace := or_Namespace ref, om_Name := or_Name ref\<rparr>"

definition new_configmap :: "ObjectReference \<Rightarrow> ConfigMap" where
  "new_configmap ref = \<lparr>cm_Meta = new_meta ref, cm_Data = [], cm_BinaryData = []\<rparr>"

definition new_secret :: "ObjectReference \<Rightarrow> Secret" where
  "new_secret ref = \<lparr>sec_Meta = new_meta ref, sec_Data = []\<rparr>"

text \<open>The error of a call that returns a value and an error.\<close>

definition err_of :: "go_error + 'a \<Rightarrow> go_error option" where
  "err_of r = (case r of Inl e \<Rightarrow> Some e | Inr _ \<Rightarrow> None)"

section \<open>ConfigMapWrapper\<close>

definition reload_configmap ::
  "'s Kube \<Rightarrow> ObjectReference \<Rightarrow> ('s, go_error + ConfigMap) state" where
  "reload_configmap K ref = do {
     got \<leftarrow> ConfigMaps_Get K (or_Namespace ref) (or_Name ref);
     found \<leftarrow> (case got of
         Inr cm \<Rightarrow> ret (Inr cm)
       | Inl err \<Rightarrow> if \<not> IsNotFound err then ret (Inl err)
                   else ConfigMaps_Create K (or_Namespace ref) (new_configmap ref));
     (case found of
        Inl err \<Rightarrow> ret (Inl err)
      | Inr cm \<Rightarrow>
          if \<not> ContainsFinalizer K (cm_Meta cm) FinalizerName
          then ConfigMaps_Update K (om_Namespace (cm_Meta cm))
                 (cm\<lparr>cm_Meta := AddFinalizer K (cm_Meta cm) FinalizerName\<rparr>)
          else ret (Inr cm))
   }"

definition cmw_reload :: "'s Kube \<Rightarrow> (ConfigMapWrapper \<times> 's, go_error + ConfigMap) state" where
  "cmw_reload K = do {
     cmw \<leftarrow> gets fst;
     r \<leftarrow> outside (reload_configmap K (cmw_ObjectRef cmw));
     (case r of Inl err \<Rightarrow> ret (Inl err) | Inr cm \<Rightarrow> do { set_cm cm; ret (Inr cm) })
   }"

definition ConfigMapWrapper_Reload :: "'s Kube \<Rightarrow> (ConfigMapWrapper \<times> 's, go_error option) state" where
  "ConfigMapWrapper_Reload K = do { r \<leftarrow> cmw_reload K; ret (err_of r) }"

definition cmw_load :: "'s Kube \<Rightarrow> (ConfigMapWrapper \<times> 's, go_error + ConfigMap) state" where
  "cmw_load K = do {
     cmw \<leftarrow> gets fst;
     (case cmw_cm cmw of Some cm \<Rightarrow> ret (Inr cm) | None \<Rightarrow> cmw_reload K)
   }"

definition ConfigMapWrapper_GetContent ::
  "'s Kube \<Rightarrow> string \<Rightarrow> (ConfigMapWrapper \<times> 's, go_error + string \<times> bool) state" where
  "ConfigMapWrapper_GetContent K dataId = do {
     r \<leftarrow> cmw_load K;
     ret (case r of Inl err \<Rightarrow> Inl err | Inr cm \<Rightarrow> Inr (GetConfigMapContent cm dataId))
   }"

definition ConfigMapWrapper_GetContentLatest ::
  "'s Kube \<Rightarrow> string \<Rightarrow> (ConfigMapWrapper \<times> 's, go_error + string \<times> bool) state" where
  "ConfigMapWrapper_GetContentLatest K dataId = do {
     cmw \<leftarrow> gets fst;
     r \<leftarrow> outside (ConfigMaps_Get K (or_Namespace (cmw_ObjectRef cmw)) (or_Name (cmw_ObjectRef cmw)));
     (case r of
        Inl err \<Rightarrow> ret (Inl err)
      | Inr cm \<Rightarrow> do { set_cm cm; ret (Inr (GetConfigMapContent cm dataId)) })
   }"

definition ConfigMapWrapper_GetAllKeys ::
  "'s Kube \<Rightarrow> (ConfigMapWrapper \<times> 's, go_error + string list) state" where
  "ConfigMapWrapper_GetAllKeys K = do {
     r \<leftarrow> cmw_load K;
     ret (case r of Inl err \<Rightarrow> Inl err | Inr cm \<Rightarrow> Inr (GetConfigMapAllKeys cm))
   }"

definition ConfigMapWrapper_StoreContent ::
  "'s Kube \<Rightarrow> string \<Rightarrow> string \<Rightarrow> (ConfigMapWrapper \<times> 's, go_error option) state" where
  "ConfigMapWrapper_StoreContent K dataId content = do {
     r \<leftarrow> cmw_load K;
     (case r of
        Inl err \<Rightarrow> ret (Some err)
      | Inr cm \<Rightarrow> do {
          set_cm (if looks_like_json content
                  then cm\<lparr>cm_BinaryData := mput dataId content (cm_BinaryData cm)\<rparr>
                  else cm\<lparr>cm_Data := mput dataId content (cm_Data cm)\<rparr>);
          ret None })
   }"

definition ConfigMapWrapper_StoreContentLatest ::
  "'s Kube \<Rightarrow> string \<Rightarrow> string \<Rightarrow> (ConfigMapWrapper \<times> 's, go_error option) state" where
  "ConfigMapWrapper_StoreContentLatest K dataId content = do {
     cmw \<leftarrow> gets fst;
     let ref = cmw_ObjectRef cmw;
     got \<leftarrow> outside (ConfigMaps_Get K (or_Namespace ref) (or_Name ref));
     (case (case got of
              Inr cm \<Rightarrow> Inr (False, cm)
            | Inl err \<Rightarrow> if \<not> IsNotFound err then Inl err else Inr (True, new_configmap ref)) of
        Inl err \<Rightarrow> ret (Some err)
      | Inr (newflag, cm0) \<Rightarrow> do {
          let cm1 = (if looks_like_json content
                     then cm0\<lparr>cm_BinaryData := mput dataId content (cm_BinaryData cm0)\<rparr>
                     else cm0\<lparr>cm_Data := mput dataId content (cm_Data cm0)\<rparr>);
          let cm2 = (if \<not> ContainsFinalizer K (cm_Meta cm1) FinalizerName
                     then cm1\<lparr>cm_Meta := AddFinalizer K (cm_Meta cm1) FinalizerName\<rparr> else cm1);
          r \<leftarrow> outside (if newflag then ConfigMaps_Create K (om_Namespace (cm_Meta cm2)) cm2
                        else ConfigMaps_Update K (om_Namespace (cm_Meta cm2)) cm2);
          (case r of Inl err \<Rightarrow> ret (Some err) | Inr cm \<Rightarrow> do { set_cm cm; ret None })
        })
   }"

text \<open>The second branch deletes from \<^verbatim>\<open>Data\<close>, as line 218 does.\<close>

definition ConfigMapWrapper_DeleteContent ::
  "'s Kube \<Rightarrow> string \<Rightarrow> (ConfigMapWrapper \<times> 's, go_error option) state" where
  "ConfigMapWrapper_DeleteContent K dataId = do {
     r \<leftarrow> cmw_load K;
     (case r of
        Inl err \<Rightarrow> ret (Some err)
      | Inr cm \<Rightarrow>
          if mget (cm_Data cm) dataId \<noteq> None
          then do { set_cm (cm\<lparr>cm_Data := mdel dataId (cm_Data cm)\<rparr>); ret None }
          else if mget (cm_BinaryData cm) dataId \<noteq> None
          then do { set_cm (cm\<lparr>cm_Data := mdel dataId (cm_Data cm)\<rparr>); ret None }
          else ret None)
   }"

text \<open>The loop of \<^verbatim>\<open>StoreAllContent\<close> over the entries, for either wrapper's methods.\<close>

fun store_all_loop ::
  "(string \<Rightarrow> ('w, go_error + string \<times> bool) state) \<Rightarrow>
   (string \<Rightarrow> string \<Rightarrow> ('w, go_error option) state) \<Rightarrow>
   bool \<Rightarrow> (string \<times> string) list \<Rightarrow> ('w, go_error + bool) state" where
  "store_all_loop get store changed [] = ret (Inr changed)"
| "store_all_loop get store changed ((dataId, newContent) # rest) = do {
     c \<leftarrow> (if \<not> changed
          then do {
            r \<leftarrow> get dataId;
            ret (case r of
                   Inl err \<Rightarrow> Inl err
                 | Inr (oldContent, exist) \<Rightarrow> Inr (\<not> exist \<or> CalcMd5 newContent \<noteq> CalcMd5 oldContent)) }
          else ret (Inr True));
     (case c of
        Inl err \<Rightarrow> ret (Inl err)
      | Inr changed' \<Rightarrow> do {
          e \<leftarrow> store dataId newContent;
          (case e of Some err \<Rightarrow> ret (Inl err) | None \<Rightarrow> store_all_loop get store changed' rest) })
   }"

definition ConfigMapWrapper_StoreAllContent ::
  "'s Kube \<Rightarrow> (string, string) gomap \<Rightarrow> (ConfigMapWrapper \<times> 's, go_error + bool) state" where
  "ConfigMapWrapper_StoreAllContent K dataMap =
     store_all_loop (ConfigMapWrapper_GetContent K) (ConfigMapWrapper_StoreContent K) False dataMap"

definition ConfigMapWrapper_Flush :: "'s Kube \<Rightarrow> (ConfigMapWrapper \<times> 's, go_error option) state" where
  "ConfigMapWrapper_Flush K = do {
     cmw \<leftarrow> gets fst;
     (case cmw_cm cmw of
        None \<Rightarrow> ret None
      | Some cm \<Rightarrow> do {
          r \<leftarrow> outside (ConfigMaps_Update K (om_Namespace (cm_Meta cm)) cm);
          (case r of Inl err \<Rightarrow> ret (Some err) | Inr cm' \<Rightarrow> do { set_cm cm'; ret None }) })
   }"

definition put_labels :: "(string, string) gomap \<Rightarrow> ObjectMeta \<Rightarrow> ObjectMeta" where
  "put_labels labels m = m\<lparr>om_Labels := fold (\<lambda>(k, v). mput k v) labels (om_Labels m)\<rparr>"

definition ConfigMapWrapper_InjectLabels ::
  "'s Kube \<Rightarrow> (string, string) gomap \<Rightarrow> (ConfigMapWrapper \<times> 's, unit) state" where
  "ConfigMapWrapper_InjectLabels K labels = do {
     r \<leftarrow> cmw_load K;
     (case r of
        Inl _ \<Rightarrow> ret ()
      | Inr cm \<Rightarrow> if length labels = 0 then ret ()
                 else set_cm (cm\<lparr>cm_Meta := put_labels labels (cm_Meta cm)\<rparr>))
   }"

section \<open>SecretWrapper\<close>

definition reload_secret ::
  "'s Kube \<Rightarrow> ObjectReference \<Rightarrow> ('s, go_error + Secret) state" where
  "reload_secret K ref = do {
     got \<leftarrow> Secrets_Get K (or_Namespace ref) (or_Name ref);
     found \<leftarrow> (case got of
         Inr x \<Rightarrow> ret (Inr x)
       | Inl err \<Rightarrow> if \<not> IsNotFound err then ret (Inl err)
                   else Secrets_Create K (or_Namespace ref) (new_secret ref));
     (case found of
        Inl err \<Rightarrow> ret (Inl err)
      | Inr x \<Rightarrow>
          if \<not> ContainsFinalizer K (sec_Meta x) FinalizerName
          then Secrets_Update K (om_Namespace (sec_Meta x))
                 (x\<lparr>sec_Meta := AddFinalizer K (sec_Meta x) FinalizerName\<rparr>)
          else ret (Inr x))
   }"

definition sw_reload :: "'s Kube \<Rightarrow> (SecretWrapper \<times> 's, go_error + Secret) state" where
  "sw_reload K = do {
     sw \<leftarrow> gets fst;
     r \<leftarrow> outside (reload_secret K (sw_ObjectRef sw));
     (case r of Inl err \<Rightarrow> ret (Inl err) | Inr x \<Rightarrow> do { set_secret x; ret (Inr x) })
   }"

definition SecretWrapper_Reload :: "'s Kube \<Rightarrow> (SecretWrapper \<times> 's, go_error option) state" where
  "SecretWrapper_Reload K = do { r \<leftarrow> sw_reload K; ret (err_of r) }"

definition sw_load :: "'s Kube \<Rightarrow> (SecretWrapper \<times> 's, go_error + Secret) state" where
  "sw_load K = do {
     sw \<leftarrow> gets fst;
     (case sw_secret sw of Some x \<Rightarrow> ret (Inr x) | None \<Rightarrow> sw_reload K)
   }"

definition SecretWrapper_GetContent ::
  "'s Kube \<Rightarrow> string \<Rightarrow> (SecretWrapper \<times> 's, go_error + string \<times> bool) state" where
  "SecretWrapper_GetContent K dataId = do {
     r \<leftarrow> sw_load K;
     ret (case r of Inl err \<Rightarrow> Inl err | Inr x \<Rightarrow> Inr (GetSecretContent x dataId))
   }"

definition SecretWrapper_GetContentLatest ::
  "'s Kube \<Rightarrow> string \<Rightarrow> (SecretWrapper \<times> 's, go_error + string \<times> bool) state" where
  "SecretWrapper_GetContentLatest K dataId = do {
     sw \<leftarrow> gets fst;
     r \<leftarrow> outside (Secrets_Get K (or_Namespace (sw_ObjectRef sw)) (or_Name (sw_ObjectRef sw)));
     (case r of
        Inl err \<Rightarrow> ret (Inl err)
      | Inr x \<Rightarrow> do { set_secret x; ret (Inr (GetSecretContent x dataId)) })
   }"

definition SecretWrapper_GetAllKeys ::
  "'s Kube \<Rightarrow> (SecretWrapper \<times> 's, go_error + string list) state" where
  "SecretWrapper_GetAllKeys K = do {
     r \<leftarrow> sw_load K;
     ret (case r of Inl err \<Rightarrow> Inl err | Inr x \<Rightarrow> Inr (GetSecretAllKeys x))
   }"

definition SecretWrapper_StoreContent ::
  "'s Kube \<Rightarrow> string \<Rightarrow> string \<Rightarrow> (SecretWrapper \<times> 's, go_error option) state" where
  "SecretWrapper_StoreContent K dataId content = do {
     r \<leftarrow> sw_load K;
     (case r of
        Inl err \<Rightarrow> ret (Some err)
      | Inr x \<Rightarrow>
          (case StoreSecretContent x dataId content of
             (x', err) \<Rightarrow> do { set_secret x'; ret err }))
   }"

definition SecretWrapper_StoreContentLatest ::
  "'s Kube \<Rightarrow> string \<Rightarrow> string \<Rightarrow> (SecretWrapper \<times> 's, go_error option) state" where
  "SecretWrapper_StoreContentLatest K dataId content = do {
     sw \<leftarrow> gets fst;
     let ref = sw_ObjectRef sw;
     got \<leftarrow> outside (Secrets_Get K (or_Namespace ref) (or_Name ref));
     (case (case got of
              Inr x \<Rightarrow> Inr (False, x)
            | Inl err \<Rightarrow> if \<not> IsNotFound err then Inl err else Inr (True, new_secret ref)) of
        Inl err \<Rightarrow> ret (Some err)
      | Inr (newflag, x0) \<Rightarrow>
          (case StoreSecretContent x0 dataId content of
             (x1, Some err) \<Rightarrow> ret (Some err)
           | (x1, None) \<Rightarrow> do {
               let x2 = (if \<not> ContainsFinalizer K (sec_Meta x1) FinalizerName
                         then x1\<lparr>sec_Meta := AddFinalizer K (sec_Meta x1) FinalizerName\<rparr> else x1);
               r \<leftarrow> outside (if newflag then Secrets_Create K (om_Namespace (sec_Meta x2)) x2
                             else Secrets_Update K (om_Namespace (sec_Meta x2)) x2);
               (case r of Inl err \<Rightarrow> ret (Some err) | Inr x \<Rightarrow> do { set_secret x; ret None }) }))
   }"

definition SecretWrapper_DeleteContent ::
  "'s Kube \<Rightarrow> string \<Rightarrow> (SecretWrapper \<times> 's, go_error option) state" where
  "SecretWrapper_DeleteContent K dataId = do {
     r \<leftarrow> sw_load K;
     (case r of
        Inl err \<Rightarrow> ret (Some err)
      | Inr x \<Rightarrow>
          if mget (sec_Data x) dataId \<noteq> None
          then do { set_secret (x\<lparr>sec_Data := mdel dataId (sec_Data x)\<rparr>); ret None }
          else ret None)
   }"

definition SecretWrapper_StoreAllContent ::
  "'s Kube \<Rightarrow> (string, string) gomap \<Rightarrow> (SecretWrapper \<times> 's, go_error + bool) state" where
  "SecretWrapper_StoreAllContent K dataMap =
     store_all_loop (SecretWrapper_GetContent K) (SecretWrapper_StoreContent K) False dataMap"

definition SecretWrapper_Flush :: "'s Kube \<Rightarrow> (SecretWrapper \<times> 's, go_error option) state" where
  "SecretWrapper_Flush K = do {
     sw \<leftarrow> gets fst;
     (case sw_secret sw of
        None \<Rightarrow> ret None
      | Some x \<Rightarrow> do {
          r \<leftarrow> outside (Secrets_Update K (om_Namespace (sec_Meta x)) x);
          (case r of Inl err \<Rightarrow> ret (Some err) | Inr x' \<Rightarrow> do { set_secret x'; ret None }) })
   }"

definition SecretWrapper_InjectLabels ::
  "'s Kube \<Rightarrow> (string, string) gomap \<Rightarrow> (SecretWrapper \<times> 's, unit) state" where
  "SecretWrapper_InjectLabels K labels = do {
     r \<leftarrow> sw_load K;
     (case r of
        Inl _ \<Rightarrow> ret ()
      | Inr x \<Rightarrow> if length labels = 0 then ret ()
                else set_secret (x\<lparr>sec_Meta := put_labels labels (sec_Meta x)\<rparr>))
   }"

section \<open>The interface and its registry\<close>

datatype ObjectReferenceWrapper = WConfigMap ConfigMapWrapper | WSecret SecretWrapper

text \<open>A method call through the interface value.\<close>

definition dispatch ::
  "(ConfigMapWrapper \<times> 's, 'a) state \<Rightarrow> (SecretWrapper \<times> 's, 'a) state \<Rightarrow>
   (ObjectReferenceWrapper \<times> 's, 'a) state" where
  "dispatch f g = State (\<lambda>(w, s). case w of
       WConfigMap c \<Rightarrow> (case run_state f (c, s) of (a, (c', s')) \<Rightarrow> (a, (WConfigMap c', s')))
     | WSecret x \<Rightarrow> (case run_state g (x, s) of (a, (x', s')) \<Rightarrow> (a, (WSecret x', s'))))"

abbreviation "Wrapper_GetContent K d \<equiv>
  dispatch (ConfigMapWrapper_GetContent K d) (SecretWrapper_GetContent K d)"
abbreviation "Wrapper_GetContentLatest K d \<equiv>
  dispatch (ConfigMapWrapper_GetContentLatest K d) (SecretWrapper_GetContentLatest K d)"
abbreviation "Wrapper_GetAllKeys K \<equiv>
  dispatch (ConfigMapWrapper_GetAllKeys K) (SecretWrapper_GetAllKeys K)"
abbreviation "Wrapper_StoreContent K d c \<equiv>
  dispatch (ConfigMapWrapper_StoreContent K d c) (SecretWrapper_StoreContent K d c)"
abbreviation "Wrapper_StoreContentLatest K d c \<equiv>
  dispatch (ConfigMapWrapper_StoreContentLatest K d c) (SecretWrapper_StoreContentLatest K d c)"
abbreviation "Wrapper_Flush K \<equiv> dispatch (ConfigMapWrapper_Flush K) (SecretWrapper_Flush K)"

text \<open>The constructors registered in \<^verbatim>\<open>objectWrapperMap\<close>.\<close>

datatype NewObjectWrapperFn = NewConfigMapWrapper | NewSecretWrapper

fun apply_wrapper_fn :: "NewObjectWrapperFn \<Rightarrow> ObjectReference \<Rightarrow> ObjectReferenceWrapper" where
  "apply_wrapper_fn NewConfigMapWrapper ref = WConfigMap \<lparr>cmw_ObjectRef = ref, cmw_cm = None\<rparr>"
| "apply_wrapper_fn NewSecretWrapper ref = WSecret \<lparr>sw_ObjectRef = ref, sw_secret = None\<rparr>"

definition RegisterObjectWrapperIfAbsent ::
  "string \<Rightarrow> NewObjectWrapperFn \<Rightarrow> (string, NewObjectWrapperFn) gomap \<Rightarrow>
   (string, NewObjectWrapperFn) gomap" where
  "RegisterObjectWrapperIfAbsent targetGVK fn m =
     (if mget m targetGVK \<noteq> None then m else mput targetGVK fn m)"

definition RegisterObjectWrapper ::
  "string \<Rightarrow> NewObjectWrapperFn \<Rightarrow> (string, NewObjectWrapperFn) gomap \<Rightarrow>
   (string, NewObjectWrapperFn) gomap" where
  "RegisterObjectWrapper targetGVK fn m = mput targetGVK fn m"

definition objectWrapperMap_init :: "'s Kube \<Rightarrow> (string, NewObjectWrapperFn) gomap" where
  "objectWrapperMap_init K =
     RegisterObjectWrapperIfAbsent (GVKString K SecretGVK) NewSecretWrapper
       (RegisterObjectWrapperIfAbsent (GVKString K ConfigMapGVK) NewConfigMapWrapper [])"

definition NewObjectReferenceWrapper ::
  "'s Kube \<Rightarrow> ObjectReference \<Rightarrow> go_error + ObjectReferenceWrapper" where
  "NewObjectReferenceWrapper K objRef =
     (let targetGVK = ref_gvk_string K objRef in
      case mget (objectWrapperMap_init K) targetGVK of
        None \<Rightarrow> Inl (ErrOther (''unsupport object reference type: '' @ targetGVK))
      | Some fn \<Rightarrow> Inr (apply_wrapper_fn fn objRef))"

section \<open>Working on the cached copy\<close>

lemma run_outside [simp]:
  "run_state (outside m) (w, s) = (case run_state m s of (a, s') \<Rightarrow> (a, (w, s')))"
  by (simp add: outside_def)

text \<open>
  The contract of a wrapper whose copy is loaded: reads and writes go to the copy, as the
  content store it wraps does, and nothing outside changes.
\<close>

locale content_wrapper = content_store get_content store_content all_keys accepts
  for get_content :: "'o \<Rightarrow> string \<Rightarrow> string \<times> bool"
    and store_content :: "'o \<Rightarrow> string \<Rightarrow> string \<Rightarrow> 'o \<times> go_error option"
    and all_keys :: "'o \<Rightarrow> string list"
    and accepts :: "'o \<Rightarrow> string \<Rightarrow> string \<Rightarrow> bool" +
  fixes wget :: "string \<Rightarrow> ('w \<times> 's, go_error + string \<times> bool) state"
    and wstore :: "string \<Rightarrow> string \<Rightarrow> ('w \<times> 's, go_error option) state"
    and cached :: "'w \<Rightarrow> 'o option"
    and with_cache :: "'o \<Rightarrow> 'w \<Rightarrow> 'w"
  assumes wget_cached:
      "cached w = Some x \<Longrightarrow> run_state (wget k) (w, s) = (Inr (get_content x k), (w, s))"
    and wstore_cached:
      "cached w = Some x \<Longrightarrow> run_state (wstore k c) (w, s) =
         (snd (store_content x k c), (with_cache (fst (store_content x k c)) w, s))"
    and cached_with_cache: "cached (with_cache x w) = Some x"
    and with_cache_twice: "with_cache y (with_cache x w) = with_cache y w"
    and with_cache_same: "cached w = Some x \<Longrightarrow> with_cache x w = w"
begin

lemma store_then_get:
  "cached w = Some x \<Longrightarrow> accepts x k c \<Longrightarrow>
   run_state (do { wstore k c; wget k }) (w, s) =
     (Inr (c, True), (with_cache (fst (store_content x k c)) w, s))"
  by (simp add: wstore_cached wget_cached cached_with_cache get_store_same)

definition differs :: "'o \<Rightarrow> string \<times> string \<Rightarrow> bool" where
  "differs x e = (case get_content x (fst e) of
     (old, exist) \<Rightarrow> \<not> exist \<or> CalcMd5 (snd e) \<noteq> CalcMd5 old)"

lemma store_all_cached:
  assumes "cached w = Some x" "distinct (map fst es)"
    "\<And>k c. (k, c) \<in> set es \<Longrightarrow> accepts x k c"
  shows "run_state (store_all_loop wget wstore ch es) (w, s) =
    (Inr (ch \<or> (\<exists>e\<in>set es. differs x e)), (with_cache (store_entries x es) w, s))"
  using assms
proof (induction es arbitrary: w x ch)
  case Nil
  then show ?case by (simp add: with_cache_same)
next
  case (Cons e es)
  obtain k c where e: "e = (k, c)" by (cases e)
  let ?x = "fst (store_content x k c)"
  have acc: "accepts x k c" using Cons.prems(3) e by simp
  have other: "i \<noteq> k" if "(i, d) \<in> set es" for i d
    using Cons.prems(2) e that by force
  have accs: "accepts ?x i d" if "(i, d) \<in> set es" for i d
    using other [OF that] that Cons.prems(3) [of i d] by (simp add: accepts_store_other)
  have same: "differs ?x e' = differs x e'" if "e' \<in> set es" for e'
    using other [of "fst e'" "snd e'"] that by (simp add: differs_def get_store_other)
  have IH: "run_state (store_all_loop wget wstore b es) (with_cache ?x w, s) =
      (Inr (b \<or> (\<exists>e\<in>set es. differs x e)), (with_cache (store_entries ?x es) w, s))" for b
    using Cons.IH [of "with_cache ?x w" ?x b] Cons.prems(2) accs same e
    by (simp add: cached_with_cache with_cache_twice)
  have st: "run_state (wstore k c) (w, s) = (None, (with_cache ?x w, s))"
    using acc by (simp add: wstore_cached [OF Cons.prems(1)] store_accepted)
  show ?case
    using IH by (simp add: e st wget_cached [OF Cons.prems(1)] differs_def split: prod.split)
qed

end

interpretation cmw: content_wrapper
  GetConfigMapContent StoreConfigMapContent GetConfigMapAllKeys configmap_accepts
  "ConfigMapWrapper_GetContent K" "ConfigMapWrapper_StoreContent K"
  cmw_cm "\<lambda>cm w. w\<lparr>cmw_cm := Some cm\<rparr>" for K :: "'s Kube"
  by unfold_locales
     (auto simp: ConfigMapWrapper_GetContent_def ConfigMapWrapper_StoreContent_def cmw_load_def
        StoreConfigMapContent_def)

interpretation scw: content_wrapper
  GetSecretContent StoreSecretContent GetSecretAllKeys "\<lambda>_ _. canonical_base64"
  "SecretWrapper_GetContent K" "SecretWrapper_StoreContent K"
  sw_secret "\<lambda>x w. w\<lparr>sw_secret := Some x\<rparr>" for K :: "'s Kube"
  by unfold_locales
     (auto simp: SecretWrapper_GetContent_def SecretWrapper_StoreContent_def sw_load_def
        split: prod.splits)

section \<open>Choosing a wrapper\<close>

lemma mget_objectWrapperMap:
  "mget (objectWrapperMap_init K) g =
     (if g = GVKString K ConfigMapGVK then Some NewConfigMapWrapper
      else if g = GVKString K SecretGVK then Some NewSecretWrapper else None)"
  by (simp add: objectWrapperMap_init_def RegisterObjectWrapperIfAbsent_def gomap)

lemma ref_gvk_string_v1:
  "gvk_laws K \<Longrightarrow> or_APIVersion ref = ''v1'' \<Longrightarrow>
   ref_gvk_string K ref = GVKString K \<lparr>gvk_Group = [], gvk_Version = ''v1'', gvk_Kind = or_Kind ref\<rparr>"
  by (simp add: ref_gvk_string_def gvk_laws_def)

lemma NewObjectReferenceWrapper_configmap:
  "gvk_laws K \<Longrightarrow> or_APIVersion ref = ''v1'' \<Longrightarrow> or_Kind ref = ''ConfigMap'' \<Longrightarrow>
   NewObjectReferenceWrapper K ref = Inr (WConfigMap \<lparr>cmw_ObjectRef = ref, cmw_cm = None\<rparr>)"
  by (simp add: NewObjectReferenceWrapper_def ref_gvk_string_v1 mget_objectWrapperMap ConfigMapGVK_def)

lemma NewObjectReferenceWrapper_secret:
  "gvk_laws K \<Longrightarrow> or_APIVersion ref = ''v1'' \<Longrightarrow> or_Kind ref = ''Secret'' \<Longrightarrow>
   NewObjectReferenceWrapper K ref = Inr (WSecret \<lparr>sw_ObjectRef = ref, sw_secret = None\<rparr>)"
  by (auto simp: NewObjectReferenceWrapper_def ref_gvk_string_v1 mget_objectWrapperMap Let_def
      SecretGVK_def [symmetric] gvk_laws_def)

section \<open>Reloading and writing through\<close>

lemma configmap_storage_get:
  assumes "configmap_storage K view" "run_state (ConfigMaps_Get K ns n) s = (r, s')"
  shows "s' = s"
    and "case r of Inr cm \<Rightarrow> view s ns n = Some cm | Inl e \<Rightarrow> IsNotFound e \<longrightarrow> view s ns n = None"
proof -
  have "reads_configmaps (ConfigMaps_Get K) view"
    using assms(1) by (simp add: configmap_storage_def)
  then have "exec (ConfigMaps_Get K ns n) s = s \<and>
     (case result (ConfigMaps_Get K ns n) s of
        Inr cm \<Rightarrow> view s ns n = Some cm | Inl e \<Rightarrow> IsNotFound e \<longrightarrow> view s ns n = None)"
    unfolding reads_configmaps_def by blast
  then show "s' = s"
    and "case r of Inr cm \<Rightarrow> view s ns n = Some cm | Inl e \<Rightarrow> IsNotFound e \<longrightarrow> view s ns n = None"
    by (simp_all add: assms(2))
qed

lemma writes_configmapsD:
  assumes "writes_configmaps op view" "run_state (op (om_Namespace (cm_Meta cm)) cm) s = (Inr cm', s')"
  shows "same_configmap cm' cm \<and>
    (\<forall>ns n. view s' ns n = (if ns = om_Namespace (cm_Meta cm) \<and> n = om_Name (cm_Meta cm)
       then Some cm' else view s ns n))"
  using assms(1) [unfolded writes_configmaps_def Let_def, rule_format, of cm s] by (simp add: assms(2))

lemma configmap_storage_write:
  assumes "configmap_storage K view"
    "run_state ((if b then ConfigMaps_Create K else ConfigMaps_Update K) (om_Namespace (cm_Meta cm)) cm) s
       = (Inr cm', s')"
  shows "same_configmap cm' cm \<and>
    (\<forall>ns n. view s' ns n = (if ns = om_Namespace (cm_Meta cm) \<and> n = om_Name (cm_Meta cm)
       then Some cm' else view s ns n))"
proof -
  have "writes_configmaps (if b then ConfigMaps_Create K else ConfigMaps_Update K) view"
    using assms(1) by (simp add: configmap_storage_def)
  then show ?thesis
    using writes_configmapsD [of "if b then ConfigMaps_Create K else ConfigMaps_Update K" view cm s cm' s']
      assms(2) by blast
qed

lemma configmap_storage_error:
  assumes "configmap_storage K view"
    "run_state ((if b then ConfigMaps_Create K else ConfigMaps_Update K) (om_Namespace (cm_Meta cm)) cm) s = (Inl e, s')"
  shows "s' = s"
proof -
  have "writes_configmaps (if b then ConfigMaps_Create K else ConfigMaps_Update K) view"
    using assms(1) by (simp add: configmap_storage_def)
  then show ?thesis
    using assms(2) unfolding writes_configmaps_def Let_def by (auto dest!: spec [of _ cm] spec [of _ s])
qed

lemma configmap_storage_key:
  "configmap_storage K view \<Longrightarrow> view s ns n = Some cm \<Longrightarrow>
   om_Namespace (cm_Meta cm) = ns \<and> om_Name (cm_Meta cm) = n"
  unfolding configmap_storage_def by blast

lemma AddFinalizer_meta:
  assumes "finalizer_laws K"
  shows "om_Namespace (AddFinalizer K m f) = om_Namespace m" "om_Name (AddFinalizer K m f) = om_Name m"
    "f \<in> set (om_Finalizers (AddFinalizer K m f))"
    "set (om_Finalizers (AddFinalizer K m f)) = insert f (set (om_Finalizers m))"
  using assms by (auto simp: finalizer_laws_def)

text \<open>The data of the stored ConfigMap, empty when there is none.\<close>

definition stored_data ::
  "('s \<Rightarrow> string \<Rightarrow> string \<Rightarrow> ConfigMap option) \<Rightarrow> 's \<Rightarrow> string \<Rightarrow> string \<Rightarrow>
   (string, string) gomap \<times> (string, string) gomap" where
  "stored_data view s ns n =
     (case view s ns n of None \<Rightarrow> ([], []) | Some cm \<Rightarrow> (cm_Data cm, cm_BinaryData cm))"

text \<open>
  A reload returns what is stored, creating the object or adding the finalizer first where one is
  missing; it never changes data.
\<close>

definition reload_post ::
  "('s \<Rightarrow> string \<Rightarrow> string \<Rightarrow> ConfigMap option) \<Rightarrow> 's \<Rightarrow> ObjectReference \<Rightarrow> go_error + ConfigMap \<Rightarrow> 's \<Rightarrow> bool" where
  "reload_post view s ref r s' \<longleftrightarrow>
     stored_data view s' = stored_data view s \<and>
     (\<forall>cm. r = Inr cm \<longrightarrow>
        view s' (or_Namespace ref) (or_Name ref) = Some cm \<and>
        (cm_Data cm, cm_BinaryData cm) = stored_data view s (or_Namespace ref) (or_Name ref) \<and>
        FinalizerName \<in> set (om_Finalizers (cm_Meta cm)))"

text \<open>A write of an object with the stored data keeps all data.\<close>

lemma write_same_data:
  assumes st: "configmap_storage K view"
    and run: "run_state ((if b then ConfigMaps_Create K else ConfigMaps_Update K) (om_Namespace (cm_Meta cm)) cm) s
       = (r, s')"
    and same: "(cm_Data cm, cm_BinaryData cm) = stored_data view s (om_Namespace (cm_Meta cm)) (om_Name (cm_Meta cm))"
  shows "stored_data view s' = stored_data view s \<and>
    (\<forall>cm'. r = Inr cm' \<longrightarrow> same_configmap cm' cm \<and>
       view s' (om_Namespace (cm_Meta cm)) (om_Name (cm_Meta cm)) = Some cm')"
proof (cases r)
  case (Inl e)
  then have "s' = s" using configmap_storage_error [OF st] run by blast
  then show ?thesis using Inl by simp
next
  case (Inr cm')
  note w = configmap_storage_write [OF st run [unfolded Inr]]
  have "stored_data view s' ns n = stored_data view s ns n" for ns n
    using w same by (auto simp: stored_data_def same_configmap_def)
  then show ?thesis using w Inr by (auto simp: fun_eq_iff)
qed

lemma add_finalizer_post:
  assumes st: "configmap_storage K view" and fl: "finalizer_laws K"
    and stored: "view s (or_Namespace ref) (or_Name ref) = Some cm"
    and run: "run_state (if \<not> ContainsFinalizer K (cm_Meta cm) FinalizerName
        then ConfigMaps_Update K (om_Namespace (cm_Meta cm))
               (cm\<lparr>cm_Meta := AddFinalizer K (cm_Meta cm) FinalizerName\<rparr>)
        else ret (Inr cm)) s = (r, s')"
  shows "reload_post view s ref r s'"
proof (cases "FinalizerName \<in> set (om_Finalizers (cm_Meta cm))")
  case True
  then have "r = Inr cm" "s' = s" using run fl by (auto simp: finalizer_laws_def)
  then show ?thesis using True stored by (auto simp: reload_post_def stored_data_def)
next
  case False
  define x where "x = cm\<lparr>cm_Meta := AddFinalizer K (cm_Meta cm) FinalizerName\<rparr>"
  note key = configmap_storage_key [OF st stored]
  have meta: "om_Namespace (cm_Meta x) = or_Namespace ref" "om_Name (cm_Meta x) = or_Name ref"
    "FinalizerName \<in> set (om_Finalizers (cm_Meta x))"
    using key by (auto simp: x_def AddFinalizer_meta [OF fl])
  have run': "run_state ((if False then ConfigMaps_Create K else ConfigMaps_Update K)
      (om_Namespace (cm_Meta x)) x) s = (r, s')"
    using run False fl key by (simp add: finalizer_laws_def x_def)
  have same: "(cm_Data x, cm_BinaryData x) = stored_data view s (om_Namespace (cm_Meta x)) (om_Name (cm_Meta x))"
    using stored meta by (simp add: x_def stored_data_def)
  show ?thesis
    using write_same_data [OF st run' same] meta stored
    by (auto simp: reload_post_def same_configmap_def stored_data_def x_def)
qed

lemma reload_configmap_post:
  assumes st: "configmap_storage K view" and fl: "finalizer_laws K"
    and run: "run_state (reload_configmap K ref) s = (r, s')"
  shows "reload_post view s ref r s'"
proof -
  obtain got s1 where g: "run_state (ConfigMaps_Get K (or_Namespace ref) (or_Name ref)) s = (got, s1)"
    by (metis surj_pair)
  note get = configmap_storage_get [OF st g]
  show ?thesis
  proof (cases got)
    case (Inr cm)
    then show ?thesis
      using run get by (intro add_finalizer_post [OF st fl]) (auto simp: reload_configmap_def g)
  next
    case (Inl err)
    show ?thesis
    proof (cases "IsNotFound err")
      case False
      then show ?thesis
        using run get(1) Inl by (auto simp: reload_configmap_def g reload_post_def)
    next
      case True
      define x where "x = new_configmap ref"
      have meta: "om_Namespace (cm_Meta x) = or_Namespace ref" "om_Name (cm_Meta x) = or_Name ref"
        by (simp_all add: x_def new_configmap_def new_meta_def)
      have none: "view s (or_Namespace ref) (or_Name ref) = None" using get(2) Inl True by simp
      obtain found s2 where c:
        "run_state ((if True then ConfigMaps_Create K else ConfigMaps_Update K) (om_Namespace (cm_Meta x)) x) s
          = (found, s2)" by (metis surj_pair)
      have same: "(cm_Data x, cm_BinaryData x) = stored_data view s (om_Namespace (cm_Meta x)) (om_Name (cm_Meta x))"
        using none meta by (simp add: x_def new_configmap_def stored_data_def)
      note w = write_same_data [OF st c same]
      show ?thesis
      proof (cases found)
        case (Inl e)
        then show ?thesis
          using run True \<open>got = Inl err\<close> get(1) c w meta
          by (auto simp: reload_configmap_def g x_def reload_post_def)
      next
        case (Inr cm)
        have "reload_post view s2 ref r s'"
          using run True \<open>got = Inl err\<close> get(1) c w meta Inr
          by (intro add_finalizer_post [OF st fl, of s2]) (auto simp: reload_configmap_def g x_def)
        then show ?thesis using w by (simp add: reload_post_def)
      qed
    qed
  qed
qed

section \<open>Contents of the stored object\<close>

definition stored_content ::
  "('s \<Rightarrow> string \<Rightarrow> string \<Rightarrow> ConfigMap option) \<Rightarrow> 's \<Rightarrow> string \<Rightarrow> string \<Rightarrow> string \<Rightarrow> string \<times> bool" where
  "stored_content view s ns n k =
     (case view s ns n of None \<Rightarrow> ([], False) | Some cm \<Rightarrow> GetConfigMapContent cm k)"

text \<open>The content can be stored so that reading finds it (\<open>configmap_accepts\<close>) in the stored object.\<close>

definition stored_accepts ::
  "('s \<Rightarrow> string \<Rightarrow> string \<Rightarrow> ConfigMap option) \<Rightarrow> 's \<Rightarrow> string \<Rightarrow> string \<Rightarrow> string \<Rightarrow> string \<Rightarrow> bool" where
  "stored_accepts view s ns n k c \<longleftrightarrow>
     (case view s ns n of None \<Rightarrow> True | Some cm \<Rightarrow> configmap_accepts cm k c)"

text \<open>What reading finds once \<open>c\<close> was stored under \<open>k\<close> in the stored object, whatever \<open>c\<close> is.\<close>

definition stored_back ::
  "('s \<Rightarrow> string \<Rightarrow> string \<Rightarrow> ConfigMap option) \<Rightarrow> 's \<Rightarrow> string \<Rightarrow> string \<Rightarrow> string \<Rightarrow> string \<Rightarrow> string" where
  "stored_back view s ns n k c = (case view s ns n of None \<Rightarrow> c | Some cm \<Rightarrow> read_back (ObjConfigMap cm) k c)"

lemma stored_back_accepted: "stored_accepts view s ns n k c \<Longrightarrow> stored_back view s ns n k c = c"
  using read_back_accepted [of "ObjConfigMap _" k c]
  by (auto simp: stored_back_def stored_accepts_def simp del: read_back.simps split: option.splits)

lemma content_of_data:
  "cm_Data a = cm_Data b \<Longrightarrow> cm_BinaryData a = cm_BinaryData b \<Longrightarrow> GetConfigMapContent a = GetConfigMapContent b"
  "cm_Data a = cm_Data b \<Longrightarrow> configmap_accepts a = configmap_accepts b"
  by (simp_all add: GetConfigMapContent_def configmap_accepts_def fun_eq_iff split: option.split)

lemma stored_content_data:
  "stored_content view s ns n k =
     GetConfigMapContent \<lparr>cm_Meta = zero_meta, cm_Data = fst (stored_data view s ns n),
       cm_BinaryData = snd (stored_data view s ns n)\<rparr> k"
  by (simp add: stored_content_def stored_data_def GetConfigMapContent_def split: option.split)

lemma stored_accepts_data:
  "stored_accepts view s ns n k c \<longleftrightarrow>
     configmap_accepts \<lparr>cm_Meta = zero_meta, cm_Data = fst (stored_data view s ns n),
       cm_BinaryData = snd (stored_data view s ns n)\<rparr> k c"
  by (simp add: stored_accepts_def stored_data_def configmap_accepts_def split: option.split)

lemma loaded_content:
  assumes "(cm_Data cm, cm_BinaryData cm) = stored_data view s ns n"
  shows "GetConfigMapContent cm k = stored_content view s ns n k"
    "configmap_accepts cm k c = stored_accepts view s ns n k c"
  using assms [symmetric]
  by (simp_all add: stored_content_data stored_accepts_data GetConfigMapContent_def configmap_accepts_def
      split: option.split)

lemma loaded_back:
  assumes "(cm_Data cm, cm_BinaryData cm) = stored_data view s ns n"
  shows "GetConfigMapContent (fst (StoreConfigMapContent cm k c)) k = (stored_back view s ns n k c, True)"
  using assms object_store_read_back [of "ObjConfigMap cm" k c]
  by (auto simp: stored_back_def stored_data_def split: option.splits)

text \<open>
  After a write of \<open>x\<close>, which is the stored object with \<open>c\<close> under \<open>k\<close> (and perhaps other
  metadata), reading \<open>k\<close> gives \<open>c\<close> and every other key of every object is as before.
\<close>

definition delivered ::
  "('s \<Rightarrow> string \<Rightarrow> string \<Rightarrow> ConfigMap option) \<Rightarrow> 's \<Rightarrow> ObjectReference \<Rightarrow> string \<Rightarrow> string \<Rightarrow> 's \<Rightarrow> bool" where
  "delivered view s ref k c s' \<longleftrightarrow>
     (\<forall>ns n j. stored_content view s' ns n j =
        (if ns = or_Namespace ref \<and> n = or_Name ref \<and> j = k then (c, True)
         else stored_content view s ns n j)) \<and>
     (\<exists>cm. view s' (or_Namespace ref) (or_Name ref) = Some cm \<and>
        FinalizerName \<in> set (om_Finalizers (cm_Meta cm)))"

lemma write_delivered:
  assumes st: "configmap_storage K view"
    and run: "run_state ((if b then ConfigMaps_Create K else ConfigMaps_Update K) (om_Namespace (cm_Meta x)) x) s
       = (Inr cm', s')"
    and base: "(cm_Data cm0, cm_BinaryData cm0) = stored_data view s (or_Namespace ref) (or_Name ref)"
    and x: "cm_Data x = cm_Data (fst (StoreConfigMapContent cm0 k c))"
      "cm_BinaryData x = cm_BinaryData (fst (StoreConfigMapContent cm0 k c))"
      "om_Namespace (cm_Meta x) = or_Namespace ref" "om_Name (cm_Meta x) = or_Name ref"
      "FinalizerName \<in> set (om_Finalizers (cm_Meta x))"
  shows "delivered view s ref k (stored_back view s (or_Namespace ref) (or_Name ref) k c) s'"
proof -
  note w = configmap_storage_write [OF st run]
  have "GetConfigMapContent cm' j = (if j = k then (stored_back view s (or_Namespace ref) (or_Name ref) k c, True) else stored_content view s (or_Namespace ref) (or_Name ref) j)" for j
  proof -
    have "GetConfigMapContent cm' = GetConfigMapContent (fst (StoreConfigMapContent cm0 k c))"
      using w x by (intro content_of_data) (auto simp: same_configmap_def)
    then show ?thesis
      using loaded_back [OF base] loaded_content(1) [OF base] by (simp add: cm_store.get_store_other)
  qed
  then show ?thesis
    using w x by (auto simp: delivered_def stored_content_def same_configmap_def)
qed

lemma store_fold:
  "(if looks_like_json c then cm\<lparr>cm_BinaryData := mput k c (cm_BinaryData cm)\<rparr>
    else cm\<lparr>cm_Data := mput k c (cm_Data cm)\<rparr>) = fst (StoreConfigMapContent cm k c)"
  by (simp add: StoreConfigMapContent_def)

text \<open>What \<^verbatim>\<open>StoreContentLatest\<close> writes, if it writes at all.\<close>

lemma StoreContentLatest_write:
  assumes st: "configmap_storage K view" and fl: "finalizer_laws K"
    and run: "run_state (ConfigMapWrapper_StoreContentLatest K k c) (w, s) = (r, (w', s'))"
  shows "(r \<noteq> None \<and> s' = s) \<or>
    (\<exists>b cm0 x cm'. r = None \<and> w' = w\<lparr>cmw_cm := Some cm'\<rparr> \<and>
       run_state ((if b then ConfigMaps_Create K else ConfigMaps_Update K) (om_Namespace (cm_Meta x)) x) s
         = (Inr cm', s') \<and>
       (cm_Data cm0, cm_BinaryData cm0) = stored_data view s (or_Namespace (cmw_ObjectRef w)) (or_Name (cmw_ObjectRef w)) \<and>
       cm_Data x = cm_Data (fst (StoreConfigMapContent cm0 k c)) \<and>
       cm_BinaryData x = cm_BinaryData (fst (StoreConfigMapContent cm0 k c)) \<and>
       om_Namespace (cm_Meta x) = or_Namespace (cmw_ObjectRef w) \<and> om_Name (cm_Meta x) = or_Name (cmw_ObjectRef w) \<and>
       FinalizerName \<in> set (om_Finalizers (cm_Meta x)))"
proof -
  let ?ref = "cmw_ObjectRef w"
  obtain got s1 where g: "run_state (ConfigMaps_Get K (or_Namespace ?ref) (or_Name ?ref)) s = (got, s1)"
    by (metis surj_pair)
  note get = configmap_storage_get [OF st g]
  define sel where "sel = (case got of Inr cm \<Rightarrow> Inr (False, cm)
      | Inl err \<Rightarrow> if \<not> IsNotFound err then Inl err else Inr (True, new_configmap ?ref))"
  show ?thesis
  proof (cases sel)
    case (Inl err)
    then have "r = Some err" "s' = s"
      using run get(1) by (auto simp: ConfigMapWrapper_StoreContentLatest_def Let_def g sel_def [symmetric])
    then show ?thesis by simp
  next
    case (Inr bc)
    obtain b cm0 where bc: "bc = (b, cm0)" by (cases bc)
    have base: "(cm_Data cm0, cm_BinaryData cm0) = stored_data view s (or_Namespace ?ref) (or_Name ?ref)"
      and key: "om_Namespace (cm_Meta cm0) = or_Namespace ?ref" "om_Name (cm_Meta cm0) = or_Name ?ref"
      using Inr bc get configmap_storage_key [OF st]
      by (auto simp: sel_def stored_data_def new_configmap_def new_meta_def split: sum.splits if_splits)
    let ?cm1 = "fst (StoreConfigMapContent cm0 k c)"
    define x where "x = (if \<not> ContainsFinalizer K (cm_Meta ?cm1) FinalizerName
      then ?cm1\<lparr>cm_Meta := AddFinalizer K (cm_Meta ?cm1) FinalizerName\<rparr> else ?cm1)"
    have meta1: "cm_Meta ?cm1 = cm_Meta cm0" by (simp add: StoreConfigMapContent_def)
    have x: "cm_Data x = cm_Data ?cm1" "cm_BinaryData x = cm_BinaryData ?cm1"
      "om_Namespace (cm_Meta x) = or_Namespace ?ref" "om_Name (cm_Meta x) = or_Name ?ref"
      "FinalizerName \<in> set (om_Finalizers (cm_Meta x))"
      using key fl by (auto simp: x_def meta1 AddFinalizer_meta [OF fl] finalizer_laws_def)
    obtain y s2 where y: "run_state ((if b then ConfigMaps_Create K else ConfigMaps_Update K)
        (om_Namespace (cm_Meta x)) x) s = (y, s2)" by (metis surj_pair)
    have eq: "run_state (ConfigMapWrapper_StoreContentLatest K k c) (w, s) =
       (case y of Inl err \<Rightarrow> (Some err, (w, s2)) | Inr cm \<Rightarrow> (None, (w\<lparr>cmw_cm := Some cm\<rparr>, s2)))"
      using Inr bc get(1) y
      by (cases b)
         (simp_all add: ConfigMapWrapper_StoreContentLatest_def Let_def g store_fold x_def sel_def [symmetric]
            split del: if_split split: sum.split)
    show ?thesis
    proof (cases y)
      case (Inl err)
      then have "r = Some err" "s' = s2" using run eq by simp_all
      then show ?thesis using configmap_storage_error [OF st y [unfolded Inl]] by simp
    next
      case (Inr cm')
      then have "r = None" "s' = s2" "w' = w\<lparr>cmw_cm := Some cm'\<rparr>" using run eq by simp_all
      then show ?thesis
        using y [unfolded Inr] base x
        by (intro disjI2 exI [of _ b] exI [of _ cm0] exI [of _ x] exI [of _ cm'] conjI) simp_all
    qed
  qed
qed

lemma StoreContentLatest_delivered:
  assumes st: "configmap_storage K view" and fl: "finalizer_laws K"
    and run: "run_state (ConfigMapWrapper_StoreContentLatest K k c) (w, s) = (None, (w', s'))"
  shows "delivered view s (cmw_ObjectRef w) k (stored_back view s (or_Namespace (cmw_ObjectRef w)) (or_Name (cmw_ObjectRef w)) k c) s' \<and>
    cmw_cm w' = view s' (or_Namespace (cmw_ObjectRef w)) (or_Name (cmw_ObjectRef w))"
  using StoreContentLatest_write [OF st fl run]
proof (elim disjE exE conjE)
  fix b cm0 x cm'
  assume wr: "run_state ((if b then ConfigMaps_Create K else ConfigMaps_Update K) (om_Namespace (cm_Meta x)) x) s
      = (Inr cm', s')" and w': "w' = w\<lparr>cmw_cm := Some cm'\<rparr>"
    and base: "(cm_Data cm0, cm_BinaryData cm0) = stored_data view s (or_Namespace (cmw_ObjectRef w)) (or_Name (cmw_ObjectRef w))"
    and x: "cm_Data x = cm_Data (fst (StoreConfigMapContent cm0 k c))"
      "cm_BinaryData x = cm_BinaryData (fst (StoreConfigMapContent cm0 k c))"
      "om_Namespace (cm_Meta x) = or_Namespace (cmw_ObjectRef w)" "om_Name (cm_Meta x) = or_Name (cmw_ObjectRef w)"
      "FinalizerName \<in> set (om_Finalizers (cm_Meta x))"
  show ?thesis
    using write_delivered [OF st wr base x] configmap_storage_write [OF st wr] x w' by simp
qed simp

text \<open>Whatever its outcome, only the one data id of the one object can change.\<close>

lemma StoreContentLatest_frame:
  assumes st: "configmap_storage K view" and fl: "finalizer_laws K"
    and run: "run_state (ConfigMapWrapper_StoreContentLatest K k c) (w, s) = (r, (w', s'))"
    and other: "(ns, n, j) \<noteq> (or_Namespace (cmw_ObjectRef w), or_Name (cmw_ObjectRef w), k)"
  shows "stored_content view s' ns n j = stored_content view s ns n j"
  using StoreContentLatest_write [OF st fl run]
proof (elim disjE exE conjE)
  fix b cm0 x cm'
  assume wr: "run_state ((if b then ConfigMaps_Create K else ConfigMaps_Update K) (om_Namespace (cm_Meta x)) x) s
      = (Inr cm', s')"
    and base: "(cm_Data cm0, cm_BinaryData cm0) = stored_data view s (or_Namespace (cmw_ObjectRef w)) (or_Name (cmw_ObjectRef w))"
    and x: "cm_Data x = cm_Data (fst (StoreConfigMapContent cm0 k c))"
      "cm_BinaryData x = cm_BinaryData (fst (StoreConfigMapContent cm0 k c))"
      "om_Namespace (cm_Meta x) = or_Namespace (cmw_ObjectRef w)" "om_Name (cm_Meta x) = or_Name (cmw_ObjectRef w)"
  note w = configmap_storage_write [OF st wr]
  have "GetConfigMapContent cm' = GetConfigMapContent (fst (StoreConfigMapContent cm0 k c))"
    using w x by (intro content_of_data) (auto simp: same_configmap_def)
  moreover have "GetConfigMapContent (fst (StoreConfigMapContent cm0 k c)) i = GetConfigMapContent cm0 i" if "i \<noteq> k" for i
    using that by (simp add: cm_store.get_store_other)
  ultimately have own: "GetConfigMapContent cm' i =
      stored_content view s (or_Namespace (cmw_ObjectRef w)) (or_Name (cmw_ObjectRef w)) i" if "i \<noteq> k" for i
    using that loaded_content(1) [OF base] by simp
  show ?thesis
    using w x other own [of j]
    by (cases "ns = or_Namespace (cmw_ObjectRef w) \<and> n = or_Name (cmw_ObjectRef w)")
       (auto simp: stored_content_def)
qed simp

text \<open>Flushing a loaded copy in which \<open>c\<close> was stored under \<open>k\<close>.\<close>

lemma Flush_delivered:
  assumes st: "configmap_storage K view"
    and run: "run_state (ConfigMapWrapper_Flush K) (w, s) = (None, (w', s'))"
    and w: "cmw_cm w = Some (fst (StoreConfigMapContent cm0 k c))"
    and cm0: "view s (or_Namespace ref) (or_Name ref) = Some cm0" "FinalizerName \<in> set (om_Finalizers (cm_Meta cm0))"
  shows "delivered view s ref k (stored_back view s (or_Namespace ref) (or_Name ref) k c) s'"
proof -
  let ?x = "fst (StoreConfigMapContent cm0 k c)"
  have meta: "cm_Meta ?x = cm_Meta cm0" by (simp add: StoreConfigMapContent_def)
  obtain cm' where wr: "run_state ((if False then ConfigMaps_Create K else ConfigMaps_Update K)
      (om_Namespace (cm_Meta ?x)) ?x) s = (Inr cm', s')"
    using run w by (auto simp: ConfigMapWrapper_Flush_def split: prod.splits sum.splits)
  have base: "(cm_Data cm0, cm_BinaryData cm0) = stored_data view s (or_Namespace ref) (or_Name ref)"
    using cm0 by (simp add: stored_data_def)
  show ?thesis
    using configmap_storage_key [OF st cm0(1)] cm0(2)
    by (intro write_delivered [OF st wr base]) (simp_all add: meta)
qed

section \<open>What the callers rely on\<close>

text \<open>
  C32: storing through the latest version is atomic.  A call that fails changes nothing in the cluster; one
  that succeeds leaves what \<open>stored_back\<close> says readable in the referenced ConfigMap, which it creates if need be and
  which carries the finalizer, changes no other content of any ConfigMap, and keeps the stored version
  in the wrapper.  What is readable is the new content, unless that is JSON-like and the key is in the plain data, where it is the
  old plain content.
\<close>

theorem store_latest_atomic:
  assumes "configmap_storage K view" "finalizer_laws K"
    "run_state (ConfigMapWrapper_StoreContentLatest K k c) (w, s) = (r, (w', s'))"
  shows "(if r = None
    then delivered view s (cmw_ObjectRef w) k (stored_back view s (or_Namespace (cmw_ObjectRef w)) (or_Name (cmw_ObjectRef w)) k c) s' \<and>
      cmw_cm w' = view s' (or_Namespace (cmw_ObjectRef w)) (or_Name (cmw_ObjectRef w))
    else s' = s) \<and>
   (stored_accepts view s (or_Namespace (cmw_ObjectRef w)) (or_Name (cmw_ObjectRef w)) k c \<longrightarrow>
      stored_back view s (or_Namespace (cmw_ObjectRef w)) (or_Name (cmw_ObjectRef w)) k c = c)"
proof (cases r)
  case None
  then show ?thesis using StoreContentLatest_delivered [of K view k c w s w' s'] assms stored_back_accepted by auto
next
  case (Some e)
  then show ?thesis using StoreContentLatest_write [OF assms(1-3)] stored_back_accepted by auto
qed

theorem store_latest_atomic_witness:
  "\<exists>w' s'. run_state (ConfigMapWrapper_StoreContentLatest one_cluster ''k'' ''v'') (\<lparr>cmw_ObjectRef = demo_ref, cmw_cm = None\<rparr>, demo_cluster True)
       = (None, (w', s')) \<and> delivered filed_configmap (demo_cluster True) demo_ref ''k'' ''v'' s'"
proof -
  let ?w = "\<lparr>cmw_ObjectRef = demo_ref, cmw_cm = None\<rparr>"
  have fl: "finalizer_laws one_cluster" by (simp add: one_cluster_def finalizer_laws_api_server)
  obtain w' s' where run: "run_state (ConfigMapWrapper_StoreContentLatest one_cluster ''k'' ''v'') (?w, demo_cluster True) = (None, (w', s'))"
    by (simp add: ConfigMapWrapper_StoreContentLatest_def one_cluster_configmaps api_get_def api_put_def Let_def filed_in_def
        meta_key_def demo_defs looks_like_json_def HasPrefix_def one_cluster_def api_server_def on_part_def)
  have "stored_accepts filed_configmap (demo_cluster True) ''ns'' ''app'' ''k'' ''v''"
    by (simp add: stored_accepts_def demo_views configmap_accepts_def looks_like_json_def HasPrefix_def)
  with run show ?thesis
    using store_latest_atomic [OF configmap_storage_one_cluster fl run] by (auto simp: demo_ref_def)
qed

text \<open>
  Deleting a content that a ConfigMap keeps in its binary data reports success and deletes nothing.
\<close>

theorem delete_binary_keeps_content:
  assumes "cmw_cm w = Some cm" "mget (cm_Data cm) k = None" "mget (cm_BinaryData cm) k = Some c"
  shows "\<exists>w'. run_state (ConfigMapWrapper_DeleteContent K k) (w, s) = (None, (w', s)) \<and>
    run_state (ConfigMapWrapper_GetContent K k) (w', s) = (Inr (c, True), (w', s))"
  using assms
  by (simp add: ConfigMapWrapper_DeleteContent_def ConfigMapWrapper_GetContent_def cmw_load_def GetConfigMapContent_def gomap)

theorem delete_binary_keeps_content_witness:
  "\<exists>w'. run_state (ConfigMapWrapper_DeleteContent one_cluster ''k'')
       (\<lparr>cmw_ObjectRef = demo_ref, cmw_cm = Some (demo_cm\<lparr>cm_Data := [], cm_BinaryData := [(''k'', ''{}'')]\<rparr>)\<rparr>, demo_cluster True)
       = (None, (w', demo_cluster True)) \<and>
     run_state (ConfigMapWrapper_GetContent one_cluster ''k'') (w', demo_cluster True) = (Inr (''{}'', True), (w', demo_cluster True))"
  by (rule delete_binary_keeps_content [where cm = "demo_cm\<lparr>cm_Data := [], cm_BinaryData := [(''k'', ''{}'')]\<rparr>"]) simp_all

end
