(* ===== verification/Config_Client.thy ===== *)
theory Config_Client
  imports Object_Wrapper "HOL-Library.Word"
begin

text \<open>
  The Nacos configuration client: the interface of \<^verbatim>\<open>pkg/nacos/client/config_client.go\<close>, the
  credentials of \<^verbatim>\<open>pkg/nacos/auth/auth_provider.go\<close> and the implementation over the Nacos SDK of
  \<^verbatim>\<open>pkg/nacos/client/impl/default_client.go\<close>.  The controllers use the interface as a value of type
  \<open>'s NacosConfigClient\<close>; \<open>NewDefaultNacosConfigClient\<close> is the one the program installs.  The SDK
  is a parameter: \<open>NacosSDK\<close> holds the calls made to it.  A Go function returning a value and an
  error returns both here, because callers look at the value next to an error.
\<close>

section \<open>The interface\<close>

record NacosServerParam =
  sp_Endpoint :: string
  sp_ServerAddr :: string
  sp_Namespace :: string

text \<open>
  The listener passed as \<^verbatim>\<open>OnChange\<close>: the method value \<^verbatim>\<open>Callback\<close> of a
  \<^verbatim>\<open>DefaultServer2ClusterCallback\<close>, given by the receiver's own fields.
\<close>

record Server2ClusterCallback =
  cb_dcKey :: NamespacedName
  cb_objectRef :: ObjectReference

record NacosConfigParam =
  ncp_Key :: NamespacedName
  ncp_AuthRef :: "ObjectReference option"
  ncp_NacosServerParam :: NacosServerParam
  ncp_DataId :: string
  ncp_Group :: string
  ncp_Content :: string
  ncp_OnChange :: "Server2ClusterCallback option"

record SearchConfigParam =
  scp_Key :: NamespacedName
  scp_AuthRef :: "ObjectReference option"
  scp_NacosServerParam :: NacosServerParam
  scp_DataId :: string
  scp_Group :: string
  scp_PageNo :: int
  scp_PageSize :: int

text \<open>The fields of the SDK's \<^verbatim>\<open>model.ConfigItem\<close> and \<^verbatim>\<open>model.ConfigPage\<close> that are read.\<close>

record ConfigItem =
  ci_DataId :: string
  ci_Group :: string
  ci_Content :: string

record ConfigPage =
  cp_PageItems :: "ConfigItem list option"

record 's NacosConfigClient =
  GetConfig :: "NacosConfigParam \<Rightarrow> ('s, string \<times> go_error option) state"
  PublishConfig :: "NacosConfigParam \<Rightarrow> ('s, bool \<times> go_error option) state"
  DeleteConfig :: "NacosConfigParam \<Rightarrow> ('s, bool \<times> go_error option) state"
  ListenConfig :: "NacosConfigParam \<Rightarrow> ('s, go_error option) state"
  CancelListenConfig :: "NacosConfigParam \<Rightarrow> ('s, go_error option) state"
  CloseClient :: "NacosConfigParam \<Rightarrow> ('s, unit) state"
  SearchConfigs :: "SearchConfigParam \<Rightarrow> ('s, ConfigPage option \<times> go_error option) state"

text \<open>The registered default client, \<open>None\<close> before the first registration.\<close>

definition RegisterNacosClientIfAbsent :: "'c \<Rightarrow> 'c option \<Rightarrow> 'c option" where
  "RegisterNacosClientIfAbsent c d = (case d of None \<Rightarrow> Some c | Some _ \<Rightarrow> d)"

definition RegisterNacosClient :: "'c \<Rightarrow> 'c option \<Rightarrow> 'c option" where
  "RegisterNacosClient c d = Some c"

definition GetDefaultNacosClient :: "'c option \<Rightarrow> 'c outcome" where
  "GetDefaultNacosClient d = (case d of None \<Rightarrow> Panic | Some c \<Rightarrow> Ok c)"

section \<open>Credentials\<close>

record NacosClientAuthInfo =
  ai_AccessKey :: string
  ai_SecretKey :: string
  ai_Username :: string
  ai_Password :: string

record NacosClientParam =
  cp_Endpoint :: string
  cp_ServerAddr :: string
  cp_Namespace :: string
  cp_AuthInfo :: NacosClientAuthInfo

definition empty_auth :: NacosClientAuthInfo where
  "empty_auth = \<lparr>ai_AccessKey = [], ai_SecretKey = [], ai_Username = [], ai_Password = []\<rparr>"

text \<open>\<^verbatim>\<open>if v, ok := s.Data[k]; ok && len(v) > 0\<close> sets the field, which is empty otherwise.\<close>

definition secret_field :: "Secret \<Rightarrow> string \<Rightarrow> string" where
  "secret_field s k = (case mget (sec_Data s) k of
     Some v \<Rightarrow> if length v > 0 then v else [] | None \<Rightarrow> [])"

definition getNaocsAuthFromSecret ::
  "'s Kube \<Rightarrow> ObjectReference \<Rightarrow> ('s, go_error + NacosClientAuthInfo) state" where
  "getNaocsAuthFromSecret K obj = do {
     r \<leftarrow> Client_GetSecret K \<lparr>nn_Namespace = or_Namespace obj, nn_Name = or_Name obj\<rparr>;
     ret (case r of
       Inl err \<Rightarrow> if IsNotFound err then Inr empty_auth else Inl err
     | Inr s \<Rightarrow> Inr \<lparr>ai_AccessKey = secret_field s ''accessKey'', ai_SecretKey = secret_field s ''secretKey'',
                     ai_Username = secret_field s ''username'', ai_Password = secret_field s ''password''\<rparr>)
   }"

definition getNacosAuthInfo ::
  "'s Kube \<Rightarrow> ObjectReference \<Rightarrow> ('s, go_error + NacosClientAuthInfo) state" where
  "getNacosAuthInfo K obj =
     (if ref_gvk_string K obj = GVKString K SecretGVK then getNaocsAuthFromSecret K obj
      else ret (Inl (ErrOther (''unsupported nacos auth reference type: '' @ ref_gvk_string K obj))))"

definition GetNacosClientParams ::
  "'s Kube \<Rightarrow> ObjectReference option \<Rightarrow> NacosServerParam \<Rightarrow> string \<Rightarrow>
   ('s, go_error + NacosClientParam) state" where
  "GetNacosClientParams K authRef sp namespace = do {
     a \<leftarrow> (case authRef of
            None \<Rightarrow> ret (Inr empty_auth)
          | Some ref \<Rightarrow> getNacosAuthInfo K (ref\<lparr>or_Namespace := namespace\<rparr>));
     ret (case a of
       Inl err \<Rightarrow> Inl err
     | Inr authInfo \<Rightarrow>
         if length (sp_Endpoint sp) > 0
         then Inr \<lparr>cp_Endpoint = sp_Endpoint sp, cp_ServerAddr = [], cp_Namespace = sp_Namespace sp,
                   cp_AuthInfo = authInfo\<rparr>
         else if length (sp_ServerAddr sp) > 0
         then Inr \<lparr>cp_Endpoint = [], cp_ServerAddr = sp_ServerAddr sp, cp_Namespace = sp_Namespace sp,
                   cp_AuthInfo = authInfo\<rparr>
         else Inl (ErrOther ''either endpoint or serverAddr should be set''))
   }"

section \<open>The SDK\<close>

datatype ClientOption =
    WithAccessKey string | WithSecretKey string | WithUsername string | WithPassword string
  | WithTimeoutMs nat | WithNotLoadCacheAtStart bool | WithLogDir string | WithCacheDir string
  | WithLogLevel string | WithNamespaceId string | WithAppConnLabels "(string, string) gomap"
  | WithEndpoint string | WithAppName string

record ServerConfig =
  sc_IpAddr :: string
  sc_Port :: "64 word"

record ConfigParam =
  vo_DataId :: string
  vo_Group :: string
  vo_Content :: string
  vo_ConfigTags :: string
  vo_OnChange :: "Server2ClusterCallback option"

record vo_SearchConfigParam =
  vos_Search :: string
  vos_DataId :: string
  vos_Group :: string
  vos_PageNo :: int
  vos_PageSize :: int

record ('c, 's) NacosSDK =
  sdk_NewConfigClient :: "ClientOption list \<Rightarrow> ServerConfig list \<Rightarrow> ('s, go_error + 'c) state"
  sdk_GetConfig :: "'c \<Rightarrow> ConfigParam \<Rightarrow> ('s, string \<times> go_error option) state"
  sdk_PublishConfig :: "'c \<Rightarrow> ConfigParam \<Rightarrow> ('s, bool \<times> go_error option) state"
  sdk_DeleteConfig :: "'c \<Rightarrow> ConfigParam \<Rightarrow> ('s, bool \<times> go_error option) state"
  sdk_ListenConfig :: "'c \<Rightarrow> ConfigParam \<Rightarrow> ('s, go_error option) state"
  sdk_CancelListenConfig :: "'c \<Rightarrow> ConfigParam \<Rightarrow> ('s, go_error option) state"
  sdk_SearchConfig :: "'c \<Rightarrow> vo_SearchConfigParam \<Rightarrow> ('s, ConfigPage option \<times> go_error option) state"
  sdk_CloseClient :: "'c \<Rightarrow> ('s, unit) state"

section \<open>\<^verbatim>\<open>strconv.Atoi\<close>\<close>

definition digit_value :: "char \<Rightarrow> nat option" where
  "digit_value c = (let n = (of_char c :: nat) in if 48 \<le> n \<and> n \<le> 57 then Some (n - 48) else None)"

fun parse_digits :: "nat \<Rightarrow> string \<Rightarrow> nat option" where
  "parse_digits acc [] = Some acc"
| "parse_digits acc (c # cs) =
     (case digit_value c of None \<Rightarrow> None | Some d \<Rightarrow> parse_digits (10 * acc + d) cs)"

text \<open>A decimal with an optional sign that fits 64 bits; \<open>None\<close> is the syntax or range error.\<close>

definition Atoi :: "string \<Rightarrow> int option" where
  "Atoi s =
     (let (neg, ds) = (case s of
            [] \<Rightarrow> (False, [])
          | c # cs \<Rightarrow> if c = CHR ''-'' then (True, cs) else if c = CHR ''+'' then (False, cs) else (False, s))
      in case (if ds = [] then None else parse_digits 0 ds) of
           None \<Rightarrow> None
         | Some n \<Rightarrow>
             (let v = (if neg then - int n else int n) in
              if - (2 ^ 63) \<le> v \<and> v < 2 ^ 63 then Some v else None))"

section \<open>ClientBuilder\<close>

type_synonym 'c client_cache = "(string, 'c) gomap"

definition cacheKey :: "NacosServerParam \<Rightarrow> NamespacedName \<Rightarrow> string" where
  "cacheKey sp key =
     sp_Endpoint sp @ ''-'' @ sp_ServerAddr sp @ ''-'' @ sp_Namespace sp @ ''-'' @
     nn_Namespace key @ ''-'' @ nn_Name key"

definition ClientBuilder_Remove ::
  "('c, 's) NacosSDK \<Rightarrow> NacosServerParam \<Rightarrow> NamespacedName \<Rightarrow> ('c client_cache \<times> 's, unit) state" where
  "ClientBuilder_Remove S sp key = do {
     m \<leftarrow> gets fst;
     _ \<leftarrow> (case mget m (cacheKey sp key) of
            Some c \<Rightarrow> outside (sdk_CloseClient S c)
          | None \<Rightarrow> ret ());
     modify (apfst (mdel (cacheKey sp key)))
   }"

definition ClientBuilder_Get ::
  "NacosServerParam \<Rightarrow> NamespacedName \<Rightarrow> ('c client_cache \<times> 's, go_error + 'c) state" where
  "ClientBuilder_Get sp key = do {
     m \<leftarrow> gets fst;
     ret (case mget m (cacheKey sp key) of
            Some c \<Rightarrow> Inr c
          | None \<Rightarrow> Inl (ErrOther ''empty DynamicConfiguration''))
   }"

text \<open>The options, and the server list when there is no endpoint (lines 65 to 102).\<close>

definition client_options :: "string \<Rightarrow> NamespacedName \<Rightarrow> NacosClientParam \<Rightarrow> ClientOption list" where
  "client_options currentContext key p =
     [WithAccessKey (ai_AccessKey (cp_AuthInfo p)), WithSecretKey (ai_SecretKey (cp_AuthInfo p)),
      WithUsername (ai_Username (cp_AuthInfo p)), WithPassword (ai_Password (cp_AuthInfo p)),
      WithTimeoutMs 5000, WithNotLoadCacheAtStart True, WithLogDir ''/tmp/nacos/log'',
      WithCacheDir ''/tmp/nacos/cache'', WithLogLevel ''debug'', WithNamespaceId (cp_Namespace p),
      WithAppConnLabels [(''k8s.namespace'', nn_Namespace key), (''k8s.cluster'', currentContext),
                         (''k8s.name'', nn_Name key)]] @
     (if length (cp_Endpoint p) > 0 then [WithEndpoint (cp_Endpoint p)] else [])"

definition server_configs :: "NacosClientParam \<Rightarrow> go_error + ServerConfig list" where
  "server_configs p =
     (if length (cp_Endpoint p) > 0 then Inr []
      else if length (cp_ServerAddr p) > 0 then
        (let ip = cp_ServerAddr p in
         if StrContains ip '':'' then
           (let split = Split ip '':'' in
            case Atoi (split ! 1) of
              None \<Rightarrow> Inl (ErrOther (''invalid ServerAddr: '' @ cp_ServerAddr p))
            | Some v \<Rightarrow> Inr [\<lparr>sc_IpAddr = split ! 0, sc_Port = word_of_int v\<rparr>])
         else Inr [\<lparr>sc_IpAddr = ip, sc_Port = 8848\<rparr>])
      else Inr [])"

definition ClientBuilder_Build ::
  "'s Kube \<Rightarrow> ('c, 's) NacosSDK \<Rightarrow> string \<Rightarrow> ObjectReference option \<Rightarrow> NacosServerParam \<Rightarrow>
   NamespacedName \<Rightarrow> ('c client_cache \<times> 's, go_error + 'c) state" where
  "ClientBuilder_Build K S currentContext authRef sp key = do {
     m \<leftarrow> gets fst;
     (case mget m (cacheKey sp key) of
        Some c \<Rightarrow> ret (Inr c)
      | None \<Rightarrow> do {
          ps \<leftarrow> outside (GetNacosClientParams K authRef sp (nn_Namespace key));
          (case ps of
             Inl err \<Rightarrow> ret (Inl err)
           | Inr p \<Rightarrow>
               (case server_configs p of
                  Inl err \<Rightarrow> ret (Inl err)
                | Inr sc \<Rightarrow> do {
                    r \<leftarrow> outside (sdk_NewConfigClient S (client_options currentContext key p) sc);
                    (case r of
                       Inl err \<Rightarrow> ret (Inl err)
                     | Inr c \<Rightarrow> do {
                         modify (apfst (mput (cacheKey sp key) c));
                         ret (Inr c) }) })) })
   }"

section \<open>DefaultNacosConfigClient\<close>

definition vo_param :: "NacosConfigParam \<Rightarrow> ConfigParam" where
  "vo_param p = \<lparr>vo_DataId = ncp_DataId p, vo_Group = ncp_Group p, vo_Content = [], vo_ConfigTags = [],
     vo_OnChange = None\<rparr>"

definition config_tags :: "string \<Rightarrow> NamespacedName \<Rightarrow> string" where
  "config_tags currentContext key = ''k8s.cluster/'' @ currentContext @ '','' @ ''k8s.namespace/'' @
     nn_Namespace key @ '','' @ ''k8s.name/'' @ nn_Name key"

abbreviation build_for ::
  "'s Kube \<Rightarrow> ('c, 's) NacosSDK \<Rightarrow> string \<Rightarrow> NacosConfigParam \<Rightarrow>
   ('c client_cache \<times> 's, go_error + 'c) state" where
  "build_for K S ctx p \<equiv>
     ClientBuilder_Build K S ctx (ncp_AuthRef p) (ncp_NacosServerParam p) (ncp_Key p)"

definition Default_CancelListenConfig ::
  "('c, 's) NacosSDK \<Rightarrow> NacosConfigParam \<Rightarrow> ('c client_cache \<times> 's, go_error option) state" where
  "Default_CancelListenConfig S p = do {
     r \<leftarrow> ClientBuilder_Get (ncp_NacosServerParam p) (ncp_Key p);
     (case r of
        Inl err \<Rightarrow> ret (Some (ErrOther (''get proxyClient failed, '' @ ErrorText err)))
      | Inr c \<Rightarrow> outside (sdk_CancelListenConfig S c (vo_param p)))
   }"

definition Default_GetConfig ::
  "'s Kube \<Rightarrow> ('c, 's) NacosSDK \<Rightarrow> string \<Rightarrow> NacosConfigParam \<Rightarrow>
   ('c client_cache \<times> 's, string \<times> go_error option) state" where
  "Default_GetConfig K S ctx p = do {
     r \<leftarrow> build_for K S ctx p;
     (case r of Inl err \<Rightarrow> ret ([], Some err) | Inr c \<Rightarrow> outside (sdk_GetConfig S c (vo_param p)))
   }"

definition Default_PublishConfig ::
  "'s Kube \<Rightarrow> ('c, 's) NacosSDK \<Rightarrow> string \<Rightarrow> NacosConfigParam \<Rightarrow>
   ('c client_cache \<times> 's, bool \<times> go_error option) state" where
  "Default_PublishConfig K S ctx p = do {
     r \<leftarrow> build_for K S ctx p;
     (case r of
        Inl err \<Rightarrow> ret (False, Some err)
      | Inr c \<Rightarrow> outside (sdk_PublishConfig S c
                  ((vo_param p)\<lparr>vo_Content := ncp_Content p, vo_ConfigTags := config_tags ctx (ncp_Key p)\<rparr>)))
   }"

definition Default_DeleteConfig ::
  "'s Kube \<Rightarrow> ('c, 's) NacosSDK \<Rightarrow> string \<Rightarrow> NacosConfigParam \<Rightarrow>
   ('c client_cache \<times> 's, bool \<times> go_error option) state" where
  "Default_DeleteConfig K S ctx p = do {
     r \<leftarrow> build_for K S ctx p;
     (case r of Inl err \<Rightarrow> ret (False, Some err) | Inr c \<Rightarrow> outside (sdk_DeleteConfig S c (vo_param p)))
   }"

definition Default_ListenConfig ::
  "'s Kube \<Rightarrow> ('c, 's) NacosSDK \<Rightarrow> string \<Rightarrow> NacosConfigParam \<Rightarrow>
   ('c client_cache \<times> 's, go_error option) state" where
  "Default_ListenConfig K S ctx p = do {
     r \<leftarrow> build_for K S ctx p;
     (case r of
        Inl err \<Rightarrow> ret (Some err)
      | Inr c \<Rightarrow> outside (sdk_ListenConfig S c ((vo_param p)\<lparr>vo_OnChange := ncp_OnChange p\<rparr>)))
   }"

definition Default_CloseClient ::
  "('c, 's) NacosSDK \<Rightarrow> NacosConfigParam \<Rightarrow> ('c client_cache \<times> 's, unit) state" where
  "Default_CloseClient S p = ClientBuilder_Remove S (ncp_NacosServerParam p) (ncp_Key p)"

definition Default_SearchConfigs ::
  "'s Kube \<Rightarrow> ('c, 's) NacosSDK \<Rightarrow> string \<Rightarrow> SearchConfigParam \<Rightarrow>
   ('c client_cache \<times> 's, ConfigPage option \<times> go_error option) state" where
  "Default_SearchConfigs K S ctx p = do {
     r \<leftarrow> ClientBuilder_Build K S ctx (scp_AuthRef p) (scp_NacosServerParam p) (scp_Key p);
     (case r of
        Inl err \<Rightarrow> ret (None, Some (ErrOther (''get proxyClient failed, '' @ ErrorText err)))
      | Inr c \<Rightarrow> outside (sdk_SearchConfig S c
          \<lparr>vos_Search = ''blur'', vos_DataId = scp_DataId p, vos_Group = scp_Group p,
           vos_PageNo = scp_PageNo p, vos_PageSize = scp_PageSize p\<rparr>))
   }"

definition NewDefaultNacosConfigClient ::
  "'s Kube \<Rightarrow> ('c, 's) NacosSDK \<Rightarrow> string \<Rightarrow> ('c client_cache \<times> 's) NacosConfigClient" where
  "NewDefaultNacosConfigClient K S ctx = \<lparr>
     GetConfig = Default_GetConfig K S ctx,
     PublishConfig = Default_PublishConfig K S ctx,
     DeleteConfig = Default_DeleteConfig K S ctx,
     ListenConfig = Default_ListenConfig K S ctx,
     CancelListenConfig = Default_CancelListenConfig S,
     CloseClient = Default_CloseClient S,
     SearchConfigs = Default_SearchConfigs K S ctx\<rparr>"


section \<open>Addresses\<close>

lemma digit_value_digit: "d < 10 \<Longrightarrow> digit_value (char_of (48 + d)) = Some d"
  by (simp add: digit_value_def Let_def)

lemma parse_digits_append:
  "parse_digits a (s @ t) = (case parse_digits a s of None \<Rightarrow> None | Some b \<Rightarrow> parse_digits b t)"
  by (induction s arbitrary: a) (auto split: option.split)

lemma parse_digits_Itoa: "parse_digits 0 (Itoa n) = Some n"
proof (induction n rule: Itoa.induct)
  case (1 n)
  then show ?case
    by (cases "n < 10")
       (simp_all add: Itoa.simps [of n] digit_string_def digit_value_digit parse_digits_append)
qed

lemma Itoa_chars: "c \<in> set (Itoa n) \<Longrightarrow> digit_value c \<noteq> None"
proof (induction n rule: Itoa.induct)
  case (1 n)
  have "n mod 10 < 10" by simp
  with 1 show ?case
    by (cases "n < 10") (auto simp: Itoa.simps [of n] digit_string_def digit_value_digit)
qed

lemma Itoa_nonempty [simp]: "Itoa n \<noteq> []"
  by (subst Itoa.simps) (simp add: digit_string_def)

lemma Atoi_Itoa: "n < 2 ^ 63 \<Longrightarrow> Atoi (Itoa n) = Some (int n)"
proof -
  assume n: "n < 2 ^ 63"
  obtain c cs where ds: "Itoa n = c # cs" by (cases "Itoa n") auto
  have "digit_value c \<noteq> None" using Itoa_chars [of c n] ds by simp
  then have "c \<noteq> CHR ''-''" "c \<noteq> CHR ''+''" by (auto simp: digit_value_def)
  moreover have "int n < 2 ^ 63" using n by (metis of_nat_less_numeral_power_cancel_iff)
  moreover have "parse_digits 0 (c # cs) = Some n" using parse_digits_Itoa [of n] ds by simp
  ultimately show ?thesis unfolding Atoi_def ds Let_def by simp
qed

lemma StrContains_sep: "StrContains (s @ x # t) [x]"
  by (induction s) (auto simp: HasPrefix_def)

lemma StrContains_single: "StrContains s [x] \<longleftrightarrow> x \<in> set s"
  by (induction s) auto

text \<open>The index into the split address is in range whenever it is evaluated.\<close>

lemma Split_at_least_two:
  assumes "StrContains s [x]"
  shows "2 \<le> length (Split s [x])"
proof -
  obtain a b where s: "s = a @ x # b" "x \<notin> set a"
    using assms by (auto simp: StrContains_single dest: split_list_first)
  have "Split b [x] \<noteq> []" by simp
  then show ?thesis using s by (simp add: Split_Cons_sep Suc_le_eq)
qed

lemma server_configs_host_port:
  assumes "CHR '':'' \<notin> set host" "n < 2 ^ 63" "cp_Endpoint p = []"
    "cp_ServerAddr p = host @ '':'' @ Itoa n"
  shows "server_configs p = Inr [\<lparr>sc_IpAddr = host, sc_Port = of_nat n\<rparr>]"
proof -
  have "CHR '':'' \<notin> set (Itoa n)"
    using Itoa_chars [of "CHR '':''" n] by (auto simp: digit_value_def)
  then have "Split (cp_ServerAddr p) '':'' = [host, Itoa n]"
    using assms(1,4) by (simp add: Split_Cons_sep Split_no_sep)
  then show ?thesis
    using assms by (simp add: server_configs_def Let_def StrContains_sep Atoi_Itoa)
qed

section \<open>The cache of clients\<close>

text \<open>
  The contract of a pool of connections by key: a lookup changes nothing, a build returns the pooled
  connection if there is one and pools the one it makes otherwise, keys do not affect each other.
\<close>

locale client_pool =
  fixes pget :: "'k \<Rightarrow> ('w, go_error + 'c) state"
    and pbuild :: "'k \<Rightarrow> ('w, go_error + 'c) state"
    and premove :: "'k \<Rightarrow> ('w, unit) state"
    and same_key :: "'k \<Rightarrow> 'k \<Rightarrow> bool"
  assumes get_pure: "exec (pget k) w = w"
    and get_same: "same_key j k \<Longrightarrow> result (pget j) w = result (pget k) w"
    and build_hit: "result (pget k) w = Inr c \<Longrightarrow> run_state (pbuild k) w = (Inr c, w)"
    and build_get: "run_state (pbuild k) w = (Inr c, w') \<Longrightarrow> result (pget k) w' = Inr c"
    and build_other: "\<not> same_key j k \<Longrightarrow> result (pget j) (exec (pbuild k) w) = result (pget j) w"
    and remove_get: "\<exists>e. result (pget k) (exec (premove k) w) = Inl e"
    and remove_other: "\<not> same_key j k \<Longrightarrow> result (pget j) (exec (premove k) w) = result (pget j) w"
begin

lemma build_again:
  assumes "run_state (pbuild k) w = (Inr c, w')" "same_key j k"
  shows "run_state (pbuild j) w' = (Inr c, w')"
  using build_get [OF assms(1)] get_same [OF assms(2)] by (intro build_hit) simp

lemma build_around:
  assumes "run_state (pbuild k) w = (Inr c, w')" "\<not> same_key k j"
  shows "run_state (pbuild k) (exec (pbuild j) w') = (Inr c, exec (pbuild j) w')"
  using build_get [OF assms(1)] build_other [OF assms(2)] by (intro build_hit) simp

lemma built_until_removed:
  assumes "run_state (pbuild k) w = (Inr c, w')" "\<not> same_key k j"
  shows "run_state (pbuild k) (exec (premove j) w') = (Inr c, exec (premove j) w')"
  using build_get [OF assms(1)] remove_other [OF assms(2)] by (intro build_hit) simp

end

text \<open>A request for a connection: credentials reference, server and DynamicConfiguration.\<close>

type_synonym conn_request = "ObjectReference option \<times> NacosServerParam \<times> NamespacedName"

abbreviation req_get :: "conn_request \<Rightarrow> ('c client_cache \<times> 's, go_error + 'c) state" where
  "req_get \<equiv> \<lambda>(_, sp, key). ClientBuilder_Get sp key"

abbreviation req_build ::
  "'s Kube \<Rightarrow> ('c, 's) NacosSDK \<Rightarrow> string \<Rightarrow> conn_request \<Rightarrow> ('c client_cache \<times> 's, go_error + 'c) state" where
  "req_build K S ctx \<equiv> \<lambda>(a, sp, key). ClientBuilder_Build K S ctx a sp key"

abbreviation req_remove ::
  "('c, 's) NacosSDK \<Rightarrow> conn_request \<Rightarrow> ('c client_cache \<times> 's, unit) state" where
  "req_remove S \<equiv> \<lambda>(_, sp, key). ClientBuilder_Remove S sp key"

abbreviation req_same :: "conn_request \<Rightarrow> conn_request \<Rightarrow> bool" where
  "req_same \<equiv> \<lambda>(_, sp, key) (_, sp', key'). cacheKey sp key = cacheKey sp' key'"

lemma run_ClientBuilder_Get:
  "run_state (ClientBuilder_Get sp key) (m, s) =
     (case mget m (cacheKey sp key) of
        Some c \<Rightarrow> Inr c | None \<Rightarrow> Inl (ErrOther ''empty DynamicConfiguration''), (m, s))"
  by (simp add: ClientBuilder_Get_def)

text \<open>What a build leaves in the cache.\<close>

lemma ClientBuilder_Build_cache:
  assumes "run_state (ClientBuilder_Build K S ctx a sp key) (m, s) = (r, (m', s'))"
  shows "(case r of Inr c \<Rightarrow> mget m' (cacheKey sp key) = Some c | Inl _ \<Rightarrow> m' = m) \<and>
    (\<forall>k. k \<noteq> cacheKey sp key \<longrightarrow> mget m' k = mget m k) \<and>
    (\<forall>c. mget m (cacheKey sp key) = Some c \<longrightarrow> r = Inr c \<and> m' = m \<and> s' = s)"
  using assms
  by (auto simp: ClientBuilder_Build_def gomap split: option.splits prod.splits sum.splits)

lemma ClientBuilder_Remove_cache:
  "mget (fst (exec (ClientBuilder_Remove S sp key) w)) k =
     (if k = cacheKey sp key then None else mget (fst w) k)"
  by (cases w) (simp add: ClientBuilder_Remove_def gomap split: option.splits prod.splits)

interpretation pool: client_pool req_get "req_build K S ctx" "req_remove S" req_same
  for K :: "'s Kube" and S :: "('c, 's) NacosSDK" and ctx :: string
proof (unfold_locales, goal_cases)
  case (1 k w)
  then show ?case by (cases k; cases w) (simp add: run_ClientBuilder_Get)
next
  case (2 j k w)
  then show ?case by (cases j; cases k; cases w) (simp add: run_ClientBuilder_Get)
next
  case (3 k w c)
  then show ?case
    by (cases k; cases w)
       (auto simp: run_ClientBuilder_Get ClientBuilder_Build_def split: option.splits)
next
  case (4 k w c w')
  then show ?case
    by (cases k; cases w; cases w') (auto simp: run_ClientBuilder_Get dest: ClientBuilder_Build_cache)
next
  case (5 j k w)
  obtain a sp key where k: "k = (a, sp, key)" by (cases k)
  obtain m s where w: "w = (m, s)" by (cases w)
  obtain r m' s' where run: "run_state (ClientBuilder_Build K S ctx a sp key) (m, s) = (r, (m', s'))"
    by (metis surj_pair)
  show ?case
    using 5 ClientBuilder_Build_cache [OF run]
    by (cases j) (simp add: k w run run_ClientBuilder_Get)
next
  case (6 k w)
  obtain a sp key where k: "k = (a, sp, key)" by (cases k)
  obtain m s where w: "exec (ClientBuilder_Remove S sp key) w = (m, s)" by (metis surj_pair)
  then show ?case
    using ClientBuilder_Remove_cache [of S sp key w "cacheKey sp key"]
    by (simp add: k run_ClientBuilder_Get)
next
  case (7 j k w)
  obtain a sp key where k: "k = (a, sp, key)" by (cases k)
  obtain b tp jey where j: "j = (b, tp, jey)" by (cases j)
  obtain m s where w: "exec (ClientBuilder_Remove S sp key) w = (m, s)" by (metis surj_pair)
  then show ?case
    using ClientBuilder_Remove_cache [of S sp key w "cacheKey tp jey"] 7
    by (cases w) (simp add: k j run_ClientBuilder_Get)
qed

text \<open>Fields without a hyphen give different keys to different requests.\<close>

lemma cacheKey_inj:
  assumes "cacheKey sp key = cacheKey sp' key'"
    and "\<And>c x. c = CHR ''-'' \<Longrightarrow>
      x \<in> {sp_Endpoint sp, sp_ServerAddr sp, sp_Namespace sp, nn_Namespace key,
           sp_Endpoint sp', sp_ServerAddr sp', sp_Namespace sp', nn_Namespace key'} \<Longrightarrow> c \<notin> set x"
  shows "sp = sp' \<and> key = key'"
proof -
  have nh: "CHR ''-'' \<notin> set x"
    if "x \<in> {sp_Endpoint sp, sp_ServerAddr sp, sp_Namespace sp, nn_Namespace key,
       sp_Endpoint sp', sp_ServerAddr sp', sp_Namespace sp', nn_Namespace key'}" for x
    using assms(2) that by blast
  have "sp_Endpoint sp = sp_Endpoint sp' \<and> sp_ServerAddr sp = sp_ServerAddr sp' \<and>
      sp_Namespace sp = sp_Namespace sp' \<and> nn_Namespace key = nn_Namespace key' \<and>
      nn_Name key = nn_Name key'"
    using assms(1) nh by (simp add: cacheKey_def append_sep_eq)
  then show ?thesis by (simp add: NacosServerParam.equality NamespacedName.equality)
qed

section \<open>Credentials come from the namespace of the DynamicConfiguration\<close>

lemma GetNacosClientParams_own_namespace:
  assumes "\<And>n. g \<lparr>nn_Namespace = ns, nn_Name = n\<rparr> = Client_GetSecret K \<lparr>nn_Namespace = ns, nn_Name = n\<rparr>"
  shows "GetNacosClientParams (K\<lparr>Client_GetSecret := g\<rparr>) authRef sp ns = GetNacosClientParams K authRef sp ns"
  using assms
  by (cases authRef)
     (simp_all add: GetNacosClientParams_def getNacosAuthInfo_def getNaocsAuthFromSecret_def ref_gvk_string_def)

section \<open>What the controllers rely on\<close>

text \<open>
  C35: a client is built once per key of the cache.  After a successful build, building again for the same
  key, in whatever reference and after any build or removal under other keys, returns the same client
  and makes no call; only removing the key makes the next lookup fail.
\<close>

theorem client_built_once:
  assumes "run_state (ClientBuilder_Build K S ctx a sp key) w = (Inr c, w')"
  shows "run_state (ClientBuilder_Build K S ctx b sp key) w' = (Inr c, w') \<and>
    (cacheKey sp2 key2 = cacheKey sp key \<or>
       result (ClientBuilder_Build K S ctx b sp key) (exec (ClientBuilder_Build K S ctx a2 sp2 key2) w') = Inr c \<and>
       result (ClientBuilder_Build K S ctx b sp key) (exec (ClientBuilder_Remove S sp2 key2) w') = Inr c) \<and>
    (\<exists>e. result (ClientBuilder_Get sp key) (exec (ClientBuilder_Remove S sp key) w') = Inl e)"
proof -
  have again: "run_state (ClientBuilder_Build K S ctx b sp key) w' = (Inr c, w')"
    using pool.build_again [of K S ctx "(a, sp, key)" w c w' "(b, sp, key)"] assms by simp
  then show ?thesis
    using pool.build_around [of K S ctx "(b, sp, key)" w' c w' "(a2, sp2, key2)"]
      pool.built_until_removed [of K S ctx "(b, sp, key)" w' c w' "(a2, sp2, key2)"]
      pool.remove_get [where k = "(b, sp, key)" and w = w'] by auto
qed

definition demo_sdk :: "(nat, nat) NacosSDK" where
  "demo_sdk = \<lparr>sdk_NewConfigClient = (\<lambda>_ _. State (\<lambda>n. (Inr n, Suc n))),
     sdk_GetConfig = (\<lambda>_ _. ret ([], None)), sdk_PublishConfig = (\<lambda>_ _. ret (True, None)),
     sdk_DeleteConfig = (\<lambda>_ _. ret (True, None)), sdk_ListenConfig = (\<lambda>_ _. ret None),
     sdk_CancelListenConfig = (\<lambda>_ _. ret None), sdk_SearchConfig = (\<lambda>_ _. ret (None, None)),
     sdk_CloseClient = (\<lambda>_. ret ())\<rparr>"

definition demo_server :: NacosServerParam where
  "demo_server = \<lparr>sp_Endpoint = [], sp_ServerAddr = ''h'', sp_Namespace = ''public''\<rparr>"

abbreviation demo_kube :: "nat Kube" where
  "demo_kube \<equiv> api_server (\<lambda>_. demo_cluster True) (\<lambda>_ n. n)"

lemma demo_build:
  "run_state (ClientBuilder_Build K demo_sdk ctx None demo_server key) ([], n) = (Inr n, ([(cacheKey demo_server key, n)], Suc n))"
  by (simp add: ClientBuilder_Build_def GetNacosClientParams_def server_configs_def demo_server_def demo_sdk_def
      StrContains_single)

theorem client_built_once_witness:
  "run_state (ClientBuilder_Build demo_kube demo_sdk [] None demo_server demo_key) ([(cacheKey demo_server demo_key, 0)], 1)
     = (Inr 0, ([(cacheKey demo_server demo_key, 0)], 1))"
  using client_built_once [OF demo_build [of demo_kube "[]" demo_key 0]] by simp

text \<open>
  The key of the cache does not separate its fields, so resources of different namespaces can share a
  client: the resource \<open>b-c\<close> of namespace \<open>a\<close> is served by the client, hence with the credentials,
  built for the resource \<open>c\<close> of namespace \<open>a-b\<close>.
\<close>

theorem client_shared_across_namespaces:
  assumes "run_state (ClientBuilder_Build K S ctx auth1 sp \<lparr>nn_Namespace = ns1 @ ''-'' @ ns2, nn_Name = n\<rparr>) w = (Inr c, w')"
  shows "run_state (ClientBuilder_Build K S ctx auth2 sp \<lparr>nn_Namespace = ns1, nn_Name = ns2 @ ''-'' @ n\<rparr>) w' = (Inr c, w')"
  using pool.build_again [of K S ctx "(auth1, sp, \<lparr>nn_Namespace = ns1 @ ''-'' @ ns2, nn_Name = n\<rparr>)" w c w'
      "(auth2, sp, \<lparr>nn_Namespace = ns1, nn_Name = ns2 @ ''-'' @ n\<rparr>)"] assms
  by (simp add: cacheKey_def)

theorem client_shared_across_namespaces_witness:
  "result (ClientBuilder_Build demo_kube demo_sdk [] (Some demo_ref) demo_server \<lparr>nn_Namespace = ''a'', nn_Name = ''b-c''\<rparr>)
     (exec (ClientBuilder_Build demo_kube demo_sdk [] None demo_server \<lparr>nn_Namespace = ''a-b'', nn_Name = ''c''\<rparr>) ([], 0)) = Inr 0"
  using client_shared_across_namespaces [of demo_kube demo_sdk "[]" None demo_server "''a''" "''b''" "''c''" "([], 0)" 0
      "([(cacheKey demo_server \<lparr>nn_Namespace = ''a-b'', nn_Name = ''c''\<rparr>, 0)], 1)" "Some demo_ref"]
  by (simp add: demo_build)

text \<open>
  The credentials of a new client come from Secrets of the resource's own namespace: how Secrets of other
  namespaces read makes no difference, and without a reference no Secret is read at all.
\<close>

theorem credentials_from_own_namespace:
  assumes "\<And>n. g \<lparr>nn_Namespace = ns, nn_Name = n\<rparr> = Client_GetSecret K \<lparr>nn_Namespace = ns, nn_Name = n\<rparr>"
  shows "GetNacosClientParams (K\<lparr>Client_GetSecret := g\<rparr>) authRef sp ns = GetNacosClientParams K authRef sp ns \<and>
    GetNacosClientParams (K\<lparr>Client_GetSecret := g'\<rparr>) None sp ns = GetNacosClientParams K None sp ns"
  using GetNacosClientParams_own_namespace [of g ns K authRef sp] assms by (simp add: GetNacosClientParams_def)

theorem credentials_from_own_namespace_witness:
  "GetNacosClientParams (one_cluster\<lparr>Client_GetSecret := (\<lambda>k. if nn_Namespace k = ''ns'' then Client_GetSecret one_cluster k
       else ret (Inl (ErrOther ''denied'')))\<rparr>) (Some demo_ref) demo_server ''ns''
     = GetNacosClientParams one_cluster (Some demo_ref) demo_server ''ns''"
  using credentials_from_own_namespace [of "\<lambda>k. if nn_Namespace k = ''ns'' then Client_GetSecret one_cluster k
       else ret (Inl (ErrOther ''denied''))" "''ns''" one_cluster "Some demo_ref" demo_server] by simp

end
