(* ===== verification/Server2Cluster.thy ===== *)
theory Server2Cluster
  imports Config_Client
begin

text \<open>
  \<^verbatim>\<open>pkg/nacos/server2cluster.go\<close>: what happens in the cluster when the Nacos server reports a new
  content, and the manager of the per-resource mutexes.  \<open>syncConfigToLocal\<close> is one attempt;
  \<open>CallbackWithContext\<close> repeats it on a conflict through client-go's \<^verbatim>\<open>RetryOnConflict\<close>, which is a
  parameter.  The lock manager is modelled twice: its methods as programs, and
  \<^verbatim>\<open>GetLock\<close> as the atomic steps its inner mutex leaves, interleaved over threads.
\<close>

section \<open>The lock manager\<close>

text \<open>A mutex is a pointer; \<open>lm_next\<close> is the next fresh one.\<close>

record LockManager =
  lm_locks :: "(string, nat) gomap"
  lm_next :: nat

definition NewLockManager :: LockManager where
  "NewLockManager = \<lparr>lm_locks = [], lm_next = 0\<rparr>"

definition HasLock :: "string \<Rightarrow> (LockManager, bool) state" where
  "HasLock key = gets (\<lambda>lm. mget (lm_locks lm) key \<noteq> None)"

definition lm_create :: "string \<Rightarrow> LockManager \<Rightarrow> LockManager" where
  "lm_create key lm = lm\<lparr>lm_locks := mput key (lm_next lm) (lm_locks lm), lm_next := Suc (lm_next lm)\<rparr>"

text \<open>Reading a missing key of the map gives a nil pointer: \<open>None\<close>.\<close>

definition GetLock :: "string \<Rightarrow> (LockManager, nat option) state" where
  "GetLock key = do {
     has \<leftarrow> HasLock key;
     (if \<not> has
      then do { modify (lm_create key); gets (\<lambda>lm. mget (lm_locks lm) key) }
      else gets (\<lambda>lm. mget (lm_locks lm) key))
   }"

definition DelLock :: "string \<Rightarrow> (LockManager, unit) state" where
  "DelLock key = do {
     has \<leftarrow> HasLock key;
     (if \<not> has then ret () else modify (\<lambda>lm. lm\<lparr>lm_locks := mdel key (lm_locks lm)\<rparr>))
   }"

section \<open>One attempt\<close>

definition NewDefaultServer2ClusterCallback :: "NamespacedName \<Rightarrow> ObjectReference \<Rightarrow> Server2ClusterCallback" where
  "NewDefaultServer2ClusterCallback dcKey objectRef = \<lparr>cb_dcKey = dcKey, cb_objectRef = objectRef\<rparr>"

text \<open>A local variable of wrapper type, with the program that uses it.\<close>

definition local_var :: "'w \<Rightarrow> ('w \<times> 's, 'a) state \<Rightarrow> ('s, 'a) state" where
  "local_var w m = State (\<lambda>s. case run_state m (w, s) of (a, (_, s')) \<Rightarrow> (a, s'))"

definition syncConfigToLocal ::
  "'s Kube \<Rightarrow> Server2ClusterCallback \<Rightarrow> string \<Rightarrow> string \<Rightarrow> string \<Rightarrow> string \<Rightarrow> ('s, go_error option) state" where
  "syncConfigToLocal K cb namespace grp dataId content = do {
     got \<leftarrow> Client_GetDC K (cb_dcKey cb);
     (case got of
        Inl err \<Rightarrow> if IsNotFound err then ret None else ret (Some err)
      | Inr dc \<Rightarrow>
          (case NewObjectReferenceWrapper K (cb_objectRef cb) of
             Inl err \<Rightarrow> ret (Some err)
           | Inr objWrapper \<Rightarrow> local_var objWrapper (do {
               r \<leftarrow> Wrapper_GetContent K dataId;
               (case r of
                  Inl err \<Rightarrow> ret (Some err)
                | Inr (oldContent, _) \<Rightarrow> do {
                    t \<leftarrow> outside (gets (Now K));
                    (if length content = 0 \<and> \<not> ss_SyncDeletion (dc_Strategy dc)
                     then do {
                       u \<leftarrow> outside (Client_StatusUpdateDC K
                              (UpdateSyncStatusIfAbsent dc grp dataId [] ''server'' t True
                                 ''skipped due to syncDeletion is false''));
                       ret (err_of u) }
                     else let newMd5 = CalcMd5 content in
                     if newMd5 = CalcMd5 oldContent
                     then (let dc' = UpdateSyncStatusIfAbsent dc grp dataId newMd5 ''server'' t True
                                       ''skipped due to same md5''
                           in ret None)
                     else do {
                       e \<leftarrow> Wrapper_StoreContent K dataId content;
                       (case e of
                          Some err \<Rightarrow> ret (Some err)
                        | None \<Rightarrow> do {
                            t' \<leftarrow> outside (gets (Now K));
                            u \<leftarrow> outside (Client_StatusUpdateDC K
                                   (UpdateSyncStatus dc grp dataId newMd5 ''server'' t' True []));
                            (case u of
                               Inl err \<Rightarrow> ret (Some err)
                             | Inr _ \<Rightarrow> Wrapper_Flush K) }) }) }) })))
   }"

section \<open>The callback\<close>

text \<open>\<^verbatim>\<open>NamespacedName.String\<close>\<close>

definition key_String :: "NamespacedName \<Rightarrow> string" where
  "key_String k = nn_Namespace k @ ''/'' @ nn_Name k"

definition on_locks :: "(LockManager, 'a) state \<Rightarrow> (LockManager \<times> 's, 'a) state" where
  "on_locks m = State (\<lambda>(lm, s). case run_state m lm of (a, lm') \<Rightarrow> (a, (lm', s)))"

text \<open>
  The state is the lock manager and the outside.  The mutex is held while the attempt runs: locking
  and unlocking it, in one thread, changes neither part.  The logged error is the result.
\<close>

definition locked_attempt ::
  "'s Kube \<Rightarrow> Server2ClusterCallback \<Rightarrow> string \<Rightarrow> string \<Rightarrow> string \<Rightarrow> string \<Rightarrow>
   (LockManager \<times> 's, go_error option) state" where
  "locked_attempt K cb namespace grp dataId content = do {
     lock \<leftarrow> on_locks (GetLock (key_String (cb_dcKey cb)));
     outside (syncConfigToLocal K cb namespace grp dataId content)
   }"

definition CallbackWithContext ::
  "'s Kube \<Rightarrow> (nat \<Rightarrow> (LockManager \<times> 's, go_error option) state \<Rightarrow> (LockManager \<times> 's, go_error option) state) \<Rightarrow>
   Server2ClusterCallback \<Rightarrow> string \<Rightarrow> string \<Rightarrow> string \<Rightarrow> string \<Rightarrow>
   (LockManager \<times> 's, go_error option) state" where
  "CallbackWithContext K RetryOnConflict cb namespace grp dataId content =
     RetryOnConflict 3 (locked_attempt K cb namespace grp dataId content)"

definition Callback ::
  "'s Kube \<Rightarrow> (nat \<Rightarrow> (LockManager \<times> 's, go_error option) state \<Rightarrow> (LockManager \<times> 's, go_error option) state) \<Rightarrow>
   Server2ClusterCallback \<Rightarrow> string \<Rightarrow> string \<Rightarrow> string \<Rightarrow> string \<Rightarrow>
   (LockManager \<times> 's, go_error option) state" where
  "Callback K RetryOnConflict cb namespace grp dataId content =
     CallbackWithContext K RetryOnConflict cb namespace grp dataId content"

text \<open>
  The documented behaviour of \<^verbatim>\<open>RetryOnConflict\<close> with \<open>n\<close> steps: the function is called until it
  returns something other than a conflict or has been called \<open>n\<close> times; its last result is returned.
\<close>

fun attempts :: "nat \<Rightarrow> ('s, go_error option) state \<Rightarrow> ('s, go_error option) state" where
  "attempts 0 f = ret None"
| "attempts (Suc n) f = do {
     r \<leftarrow> f;
     (case r of
        None \<Rightarrow> ret None
      | Some err \<Rightarrow> if n = 0 \<or> \<not> IsConflict err then ret (Some err) else attempts n f)
   }"

section \<open>What an attempt does to a ConfigMap\<close>

lemma run_local_var [simp]:
  "run_state (local_var w m) s = (case run_state m (w, s) of (a, (_, s')) \<Rightarrow> (a, s'))"
  by (simp add: local_var_def)

lemma run_dispatch [simp]:
  "run_state (dispatch f g) (WConfigMap c, s) =
     (case run_state f (c, s) of (a, (c', s')) \<Rightarrow> (a, (WConfigMap c', s')))"
  "run_state (dispatch f g) (WSecret x, s) =
     (case run_state g (x, s) of (a, (x', s')) \<Rightarrow> (a, (WSecret x', s')))"
  by (simp_all add: dispatch_def)

lemma run_fresh_GetContent:
  "run_state (ConfigMapWrapper_GetContent K d) (\<lparr>cmw_ObjectRef = ref, cmw_cm = None\<rparr>, s) =
     (case run_state (reload_configmap K ref) s of
        (Inl e, s1) \<Rightarrow> (Inl e, (\<lparr>cmw_ObjectRef = ref, cmw_cm = None\<rparr>, s1))
      | (Inr cm, s1) \<Rightarrow> (Inr (GetConfigMapContent cm d), (\<lparr>cmw_ObjectRef = ref, cmw_cm = Some cm\<rparr>, s1)))"
  by (simp add: ConfigMapWrapper_GetContent_def cmw_load_def cmw_reload_def split: prod.split sum.split)

text \<open>The attempt on a ConfigMap, once the resource and the object are read.\<close>

definition attempt_loaded ::
  "'s Kube \<Rightarrow> DynamicConfiguration \<Rightarrow> ObjectReference \<Rightarrow> ConfigMap \<Rightarrow> string \<Rightarrow> string \<Rightarrow> string \<Rightarrow> 's \<Rightarrow>
   go_error option \<times> 's" where
  "attempt_loaded K dc ref cm g d c s =
     (if c = [] \<and> \<not> ss_SyncDeletion (dc_Strategy dc)
      then apfst err_of (run_state (Client_StatusUpdateDC K (UpdateSyncStatusIfAbsent dc g d [] ''server''
             (Now K s) True ''skipped due to syncDeletion is false'')) s)
      else if CalcMd5 c = CalcMd5 (fst (GetConfigMapContent cm d)) then (None, s)
      else (case run_state (Client_StatusUpdateDC K
                   (UpdateSyncStatus dc g d (CalcMd5 c) ''server'' (Now K s) True [])) s of
              (Inl e, s2) \<Rightarrow> (Some e, s2)
            | (Inr _, s2) \<Rightarrow> apsnd snd (run_state (ConfigMapWrapper_Flush K)
                (\<lparr>cmw_ObjectRef = ref, cmw_cm = Some (fst (StoreConfigMapContent cm d c))\<rparr>, s2))))"

lemma syncConfigToLocal_loaded:
  assumes "run_state (Client_GetDC K (cb_dcKey cb)) s = (Inr dc, s)"
    and "NewObjectReferenceWrapper K ref = Inr (WConfigMap \<lparr>cmw_ObjectRef = ref, cmw_cm = None\<rparr>)"
    and "cb_objectRef cb = ref" "run_state (reload_configmap K ref) s = (Inr cm, s1)"
  shows "run_state (syncConfigToLocal K cb ns g d c) s = attempt_loaded K dc ref cm g d c s1"
proof -
  have st: "run_state (ConfigMapWrapper_StoreContent K d c) (\<lparr>cmw_ObjectRef = ref, cmw_cm = Some cm\<rparr>, s1)
      = (None, (\<lparr>cmw_ObjectRef = ref, cmw_cm = Some (fst (StoreConfigMapContent cm d c))\<rparr>, s1))"
    by (simp add: cmw.wstore_cached StoreConfigMapContent_def)
  show ?thesis
    by (cases "GetConfigMapContent cm d")
       (simp add: syncConfigToLocal_def assms run_fresh_GetContent st attempt_loaded_def Let_def
          split: prod.split sum.split)
qed

lemma syncConfigToLocal_load_error:
  assumes "run_state (Client_GetDC K (cb_dcKey cb)) s = (Inr dc, s)"
    and "NewObjectReferenceWrapper K ref = Inr (WConfigMap \<lparr>cmw_ObjectRef = ref, cmw_cm = None\<rparr>)"
    and "cb_objectRef cb = ref" "run_state (reload_configmap K ref) s = (Inl e, s1)"
  shows "run_state (syncConfigToLocal K cb ns g d c) s = (Some e, s1)"
  by (simp add: syncConfigToLocal_def assms run_fresh_GetContent)

lemma reload_keeps_dcs:
  "separate_stores K view dview \<Longrightarrow> run_state (reload_configmap K ref) s = (r, s') \<Longrightarrow>
   configmap_storage K view \<Longrightarrow> dview s' = dview s"
proof -
  assume sep: "separate_stores K view dview" and run: "run_state (reload_configmap K ref) s = (r, s')"
    and st: "configmap_storage K view"
  have "keeps (\<lambda>x. dview x = dview s) (ConfigMaps_Get K a b)" for a b
    using configmap_storage_get(1) [OF st] by (intro keepsI) (metis prod.collapse)
  moreover have "keeps (\<lambda>x. dview x = dview s) (ConfigMaps_Create K a b)"
    "keeps (\<lambda>x. dview x = dview s) (ConfigMaps_Update K a b)" for a b
    using sep by (auto intro!: keepsI simp: separate_stores_def)
  ultimately have "keeps (\<lambda>x. dview x = dview s) (reload_configmap K ref)"
    unfolding reload_configmap_def by (intro keeps_rules)
  from keepsD [OF this, of s] show "dview s' = dview s" by (simp add: run)
qed

text \<open>The outside as the attempt sees it: a cluster in which the resource exists.\<close>

definition cluster_store ::
  "'s Kube \<Rightarrow> ('s \<Rightarrow> string \<Rightarrow> string \<Rightarrow> ConfigMap option) \<Rightarrow>
   ('s \<Rightarrow> NamespacedName \<Rightarrow> DynamicConfiguration option) \<Rightarrow> bool" where
  "cluster_store K view dview \<longleftrightarrow>
     gvk_laws K \<and> finalizer_laws K \<and> configmap_storage K view \<and> dc_storage K dview \<and>
     separate_stores K view dview"

lemma cluster_store_one_cluster: "cluster_store one_cluster filed_configmap filed_dc"
  unfolding cluster_store_def
  by (simp add: configmap_storage_one_cluster dc_storage_one_cluster separate_stores_one_cluster)
     (simp add: one_cluster_def gvk_laws_api_server finalizer_laws_api_server)

lemma dc_storage_get:
  assumes "dc_storage K dview" "run_state (Client_GetDC K k) s = (r, s')"
  shows "s' = s" "r = Inr dc \<Longrightarrow> dview s k = Some dc" "r = Inl e \<Longrightarrow> IsNotFound e \<Longrightarrow> dview s k = None"
proof -
  have "exec (Client_GetDC K k) s = s \<and>
        (case result (Client_GetDC K k) s of
           Inr dc \<Rightarrow> dview s k = Some dc | Inl e \<Rightarrow> IsNotFound e \<longrightarrow> dview s k = None)"
    using assms(1) unfolding dc_storage_def by blast
  then show "s' = s" "r = Inr dc \<Longrightarrow> dview s k = Some dc"
    "r = Inl e \<Longrightarrow> IsNotFound e \<Longrightarrow> dview s k = None"
    by (simp_all add: assms(2))
qed

lemma dc_storage_update:
  assumes "dc_storage K dview" "run_state (Client_StatusUpdateDC K x) s = (Inr x', s')"
  shows "dview s' k = (if k = \<lparr>nn_Namespace = dc_Namespace x, nn_Name = dc_Name x\<rparr> then Some x' else dview s k)"
    and "dc_Status x' = dc_Status x"
proof -
  have "dview (exec (Client_StatusUpdateDC K x) s) k =
        (case result (Client_StatusUpdateDC K x) s of
           Inr x' \<Rightarrow> if k = \<lparr>nn_Namespace = dc_Namespace x, nn_Name = dc_Name x\<rparr> then Some x' else dview s k
         | Inl _ \<Rightarrow> dview s k)"
    using assms(1) unfolding dc_storage_def by blast
  then show "dview s' k = (if k = \<lparr>nn_Namespace = dc_Namespace x, nn_Name = dc_Name x\<rparr> then Some x' else dview s k)"
    by (simp add: assms(2))
  have "result (Client_StatusUpdateDC K x) s = Inr x' \<longrightarrow> dc_Status x' = dc_Status x"
    using assms(1) unfolding dc_storage_def by blast
  then show "dc_Status x' = dc_Status x" by (simp add: assms(2))
qed

text \<open>A result of an attempt on an existing resource comes from its loaded part.\<close>

lemma attempt_split:
  assumes cs: "cluster_store K view dview" and ref: "or_APIVersion ref = ''v1''" "or_Kind ref = ''ConfigMap''"
    and cb: "cb_objectRef cb = ref" "dview s (cb_dcKey cb) = Some dc"
    and run: "run_state (syncConfigToLocal K cb ns g d c) s = (r, s')"
  shows "(r \<noteq> None \<and> stored_data view s' = stored_data view s) \<or>
    (\<exists>cm s1. run_state (reload_configmap K ref) s = (Inr cm, s1) \<and>
       attempt_loaded K dc ref cm g d c s1 = (r, s'))"
proof -
  have st: "configmap_storage K view" "finalizer_laws K" "dc_storage K dview"
    using cs by (simp_all add: cluster_store_def)
  have new: "NewObjectReferenceWrapper K ref = Inr (WConfigMap \<lparr>cmw_ObjectRef = ref, cmw_cm = None\<rparr>)"
    using cs ref by (simp add: cluster_store_def NewObjectReferenceWrapper_configmap)
  obtain x s0 where x: "run_state (Client_GetDC K (cb_dcKey cb)) s = (x, s0)" by (metis surj_pair)
  note get = dc_storage_get [OF st(3) x]
  show ?thesis
  proof (cases x)
    case (Inl e)
    then have "\<not> IsNotFound e" using get(3) cb(2) by auto
    then show ?thesis using run get(1) Inl by (auto simp: syncConfigToLocal_def x)
  next
    case (Inr y)
    then have y: "run_state (Client_GetDC K (cb_dcKey cb)) s = (Inr dc, s)"
      using get(1,2) cb(2) x by auto
    obtain l s1 where l: "run_state (reload_configmap K ref) s = (l, s1)" by (metis surj_pair)
    show ?thesis
    proof (cases l)
      case (Inl e)
      then show ?thesis
        using syncConfigToLocal_load_error [OF y new cb(1)] run l reload_configmap_post [OF st(1,2) l]
        by (auto simp: reload_post_def)
    next
      case (Inr cm)
      then show ?thesis
        using syncConfigToLocal_loaded [OF y new cb(1)] run l by auto
    qed
  qed
qed

lemma status_update_view:
  "cluster_store K view dview \<Longrightarrow> run_state (Client_StatusUpdateDC K x) s = (r, s') \<Longrightarrow> view s' = view s"
  unfolding cluster_store_def separate_stores_def by (metis snd_conv)

lemma Flush_keeps_dcs:
  assumes "cluster_store K view dview" "run_state (ConfigMapWrapper_Flush K) (w, s) = (e, (w', s'))"
  shows "dview s' = dview s"
proof -
  have upd: "dview (exec (ConfigMaps_Update K a x) t) = dview t" for a x t
    using assms(1) by (simp add: cluster_store_def separate_stores_def)
  have "run_state (ConfigMaps_Update K a x) t = (y, t') \<Longrightarrow> dview t' = dview t" for a x t y t'
    using upd [of a x t] by simp
  then show ?thesis
    using assms(2) by (auto simp: ConfigMapWrapper_Flush_def split: option.splits prod.splits sum.splits)
qed

lemma attempt_loaded_delivers:
  assumes cs: "cluster_store K view dview" and dc: "dview s1 k = Some dc"
    and cm: "view s1 (or_Namespace ref) (or_Name ref) = Some cm" "FinalizerName \<in> set (om_Finalizers (cm_Meta cm))"
    and guard: "c \<noteq> [] \<or> ss_SyncDeletion (dc_Strategy dc)"
      "CalcMd5 (fst (stored_content view s1 (or_Namespace ref) (or_Name ref) d)) \<noteq> CalcMd5 c"
    and run: "attempt_loaded K dc ref cm g d c s1 = (None, s')"
  shows "delivered view s1 ref d (stored_back view s1 (or_Namespace ref) (or_Name ref) d c) s' \<and>
    (\<exists>dc' t. dview s' k = Some dc' \<and>
       GetSyncStatusByDataId dc' g d = Some (mk_status d (CalcMd5 c) ''server'' t True []))"
proof -
  let ?new = "UpdateSyncStatus dc g d (CalcMd5 c) ''server'' (Now K s1) True []"
  let ?w = "\<lparr>cmw_ObjectRef = ref, cmw_cm = Some (fst (StoreConfigMapContent cm d c))\<rparr>"
  have st: "configmap_storage K view" "dc_storage K dview" using cs by (simp_all add: cluster_store_def)
  have "CalcMd5 c \<noteq> CalcMd5 (fst (GetConfigMapContent cm d))"
    using guard(2) cm(1) by (simp add: stored_content_def)
  with guard(1) have loaded: "attempt_loaded K dc ref cm g d c s1 =
      (case run_state (Client_StatusUpdateDC K ?new) s1 of
         (Inl e, s2) \<Rightarrow> (Some e, s2)
       | (Inr _, s2) \<Rightarrow> apsnd snd (run_state (ConfigMapWrapper_Flush K) (?w, s2)))"
    by (auto simp: attempt_loaded_def)
  obtain y s2 where y: "run_state (Client_StatusUpdateDC K ?new) s1 = (y, s2)" by (metis surj_pair)
  obtain e w' s3 where f0: "run_state (ConfigMapWrapper_Flush K) (?w, s2) = (e, (w', s3))" by (metis surj_pair)
  obtain dc' where u: "run_state (Client_StatusUpdateDC K ?new) s1 = (Inr dc', s2)"
    using run y loaded by (cases y) auto
  have f: "run_state (ConfigMapWrapper_Flush K) (?w, s2) = (None, (w', s'))"
    using run loaded u f0 by simp
  have v: "view s2 = view s1" by (rule status_update_view [OF cs u])
  have "delivered view s2 ref d (stored_back view s2 (or_Namespace ref) (or_Name ref) d c) s'"
    using cm v by (intro Flush_delivered [OF st(1) f]) simp_all
  then have "delivered view s1 ref d (stored_back view s1 (or_Namespace ref) (or_Name ref) d c) s'"
    by (simp add: delivered_def stored_content_def stored_back_def v)
  moreover have "k = \<lparr>nn_Namespace = dc_Namespace dc, nn_Name = dc_Name dc\<rparr>"
    using st(2) dc unfolding dc_storage_def by blast
  then have "dview s' k = Some dc'"
    using dc_storage_update(1) [OF st(2) u] Flush_keeps_dcs [OF cs f] by simp
  moreover have "dc_SyncStatuses dc' = dc_SyncStatuses ?new"
    using dc_storage_update(2) [OF st(2) u] by simp
  then have "GetSyncStatusByDataId dc' g d = Some (mk_status d (CalcMd5 c) ''server'' (Now K s1) True [])"
    using GetSyncStatus_UpdateSyncStatus [of dc g d "CalcMd5 c" "''server''" "Now K s1" True "[]" g d]
    by (simp add: GetSyncStatusByDataId_eq)
  ultimately show ?thesis by blast
qed

text \<open>What an attempt that ended without error did: ignore a deletion, find the content there already, or write it.\<close>

definition ignored :: "DynamicConfiguration \<Rightarrow> string \<Rightarrow> bool" where
  "ignored dc c \<longleftrightarrow> c = [] \<and> \<not> ss_SyncDeletion (dc_Strategy dc)"

definition attempted ::
  "('s \<Rightarrow> string \<Rightarrow> string \<Rightarrow> ConfigMap option) \<Rightarrow> ('s \<Rightarrow> NamespacedName \<Rightarrow> DynamicConfiguration option) \<Rightarrow>
   Server2ClusterCallback \<Rightarrow> DynamicConfiguration \<Rightarrow> string \<Rightarrow> string \<Rightarrow> string \<Rightarrow> 's \<Rightarrow> 's \<Rightarrow> bool" where
  "attempted view dview cb dc g d c s s' \<longleftrightarrow>
     (let ns = or_Namespace (cb_objectRef cb); n = or_Name (cb_objectRef cb) in
      if ignored dc c then stored_data view s' = stored_data view s
      else if CalcMd5 (fst (stored_content view s ns n d)) = CalcMd5 c
      then stored_data view s' = stored_data view s \<and> dview s' = dview s
      else (\<forall>ns' n' j. stored_content view s' ns' n' j =
              (if ns' = ns \<and> n' = n \<and> j = d then (stored_back view s ns n d c, True) else stored_content view s ns' n' j)) \<and>
           (\<exists>dc' t. dview s' (cb_dcKey cb) = Some dc' \<and>
              GetSyncStatusByDataId dc' g d = Some (mk_status d (CalcMd5 c) ''server'' t True [])))"

lemma stored_data_contents:
  assumes "stored_data view s' = stored_data view s"
  shows "stored_content view s' = stored_content view s" "stored_accepts view s' = stored_accepts view s"
    "stored_back view s' ns n k c = stored_back view s ns n k c"
proof -
  show "stored_content view s' = stored_content view s" "stored_accepts view s' = stored_accepts view s"
    using assms by (auto simp: stored_content_data stored_accepts_data fun_eq_iff)
  show "stored_back view s' ns n k c = stored_back view s ns n k c"
    using fun_cong [OF fun_cong [OF assms], of ns n] by (auto simp: stored_data_def stored_back_def split: option.splits)
qed

lemma attempt_cases:
  assumes cs: "cluster_store K view dview" and ref: "or_APIVersion ref = ''v1''" "or_Kind ref = ''ConfigMap''"
    and cb: "cb_objectRef cb = ref" "dview s (cb_dcKey cb) = Some dc"
    and run: "run_state (syncConfigToLocal K cb ns g d c) s = (None, s')"
  shows "attempted view dview cb dc g d c s s'"
proof -
  have st: "configmap_storage K view" "finalizer_laws K" "separate_stores K view dview"
    using cs by (simp_all add: cluster_store_def)
  obtain cm s1 where l: "run_state (reload_configmap K ref) s = (Inr cm, s1)"
    and a: "attempt_loaded K dc ref cm g d c s1 = (None, s')"
    using attempt_split [OF cs ref cb run] by blast
  have post: "stored_data view s1 = stored_data view s" "view s1 (or_Namespace ref) (or_Name ref) = Some cm"
    "FinalizerName \<in> set (om_Finalizers (cm_Meta cm))"
    using reload_configmap_post [OF st(1,2) l] by (auto simp: reload_post_def)
  have dcs: "dview s1 = dview s" by (rule reload_keeps_dcs [OF st(3) l st(1)])
  note cont = stored_data_contents [OF post(1)]
  have cm: "stored_content view s1 (or_Namespace ref) (or_Name ref) d = GetConfigMapContent cm d"
    using post(2) by (simp add: stored_content_def)
  consider (ignored) "ignored dc c"
    | (same) "\<not> ignored dc c" "CalcMd5 c = CalcMd5 (fst (GetConfigMapContent cm d))"
    | (other) "\<not> ignored dc c" "CalcMd5 (fst (stored_content view s1 (or_Namespace ref) (or_Name ref) d)) \<noteq> CalcMd5 c"
    using cm by force
  then show ?thesis
  proof cases
    case ignored
    obtain u s2 where u: "run_state (Client_StatusUpdateDC K (UpdateSyncStatusIfAbsent dc g d [] ''server''
        (Now K s1) True ''skipped due to syncDeletion is false'')) s1 = (u, s2)" by (metis surj_pair)
    then have "s' = s2" using a ignored by (simp add: attempt_loaded_def ignored_def)
    then have "view s' = view s1" using status_update_view [OF cs u] by simp
    then show ?thesis using post(1) ignored by (simp add: attempted_def stored_data_def fun_eq_iff)
  next
    case same
    then have "s' = s1" using a by (auto simp: attempt_loaded_def ignored_def)
    then show ?thesis using same post(1) dcs cm cont(1) cb(1) by (auto simp: attempted_def Let_def)
  next
    case other
    then show ?thesis
      using attempt_loaded_delivers [OF cs _ post(2,3) _ other(2) a, of "cb_dcKey cb"] cb dcs cont
      by (auto simp: attempted_def delivered_def ignored_def Let_def)
  qed
qed

lemma attempt_delivers:
  assumes cs: "cluster_store K view dview" and ref: "or_APIVersion ref = ''v1''" "or_Kind ref = ''ConfigMap''"
    and cb: "cb_objectRef cb = ref" "dview s (cb_dcKey cb) = Some dc"
    and acc: "stored_accepts view s (or_Namespace ref) (or_Name ref) d c"
    and guard: "\<not> ignored dc c"
    and run: "run_state (syncConfigToLocal K cb ns g d c) s = (None, s')"
  shows "CalcMd5 (fst (stored_content view s' (or_Namespace ref) (or_Name ref) d)) = CalcMd5 c"
    and "CalcMd5 (fst (stored_content view s (or_Namespace ref) (or_Name ref) d)) \<noteq> CalcMd5 c \<longrightarrow>
       (\<exists>dc' t. dview s' (cb_dcKey cb) = Some dc' \<and>
          GetSyncStatusByDataId dc' g d = Some (mk_status d (CalcMd5 c) ''server'' t True []))"
  using attempt_cases [OF cs ref cb run] guard cb(1) stored_back_accepted [OF acc] stored_data_contents(1) [of view s' s]
  by (auto simp: attempted_def Let_def split: if_splits)

text \<open>
  C1: what an attempt on a ConfigMap that ends without error has done, for any content.  An empty content of the server is ignored if
  deletions are not synchronised: no ConfigMap changes.  A content with the md5 of what the data id has already changes neither the data of
  a ConfigMap nor any stored resource, so no status is recorded for it.  Any other content was written: reading the data id gives what
  \<open>stored_back\<close> says, every other data id of every ConfigMap is as before, and the stored resource records the md5 of the content as
  synchronised from the server.  So unless it is an ignored deletion, or a JSON-like content for a key of the plain data, the ConfigMap
  ends with a content that has the md5 of the server's.
\<close>

theorem server_content_delivered:
  assumes "cluster_store K view dview" and "or_APIVersion ref = ''v1''" "or_Kind ref = ''ConfigMap''"
    and "cb_objectRef cb = ref" "dview s (cb_dcKey cb) = Some dc"
    and "run_state (syncConfigToLocal K cb ns g d c) s = (None, s')"
  shows "attempted view dview cb dc g d c s s' \<and>
    (stored_accepts view s (or_Namespace ref) (or_Name ref) d c \<and> \<not> ignored dc c \<longrightarrow>
       CalcMd5 (fst (stored_content view s' (or_Namespace ref) (or_Name ref) d)) = CalcMd5 c)"
  using attempt_cases [OF assms] attempt_delivers(1) [OF assms(1-5) _ _ assms(6)] by blast

text \<open>
  C4: with deletion not synchronised, an empty content from the server never changes the data of any
  ConfigMap, whatever the outcome of the attempt.
\<close>

theorem ignored_deletion_keeps_data:
  assumes cs: "cluster_store K view dview" and ref: "or_APIVersion ref = ''v1''" "or_Kind ref = ''ConfigMap''"
    and cb: "cb_objectRef cb = ref" "dview s (cb_dcKey cb) = Some dc"
    and off: "\<not> ss_SyncDeletion (dc_Strategy dc)"
  shows "stored_data view (exec (syncConfigToLocal K cb ns g d []) s) = stored_data view s"
proof -
  obtain r s' where run: "run_state (syncConfigToLocal K cb ns g d []) s = (r, s')" by (metis surj_pair)
  have st: "configmap_storage K view" "finalizer_laws K" using cs by (simp_all add: cluster_store_def)
  show ?thesis
  proof (cases "stored_data view s' = stored_data view s")
    case False
    then obtain cm s1 where l: "run_state (reload_configmap K ref) s = (Inr cm, s1)"
      and a: "attempt_loaded K dc ref cm g d [] s1 = (r, s')"
      using attempt_split [OF cs ref cb run] by blast
    obtain u s2 where u: "run_state (Client_StatusUpdateDC K (UpdateSyncStatusIfAbsent dc g d [] ''server''
        (Now K s1) True ''skipped due to syncDeletion is false'')) s1 = (u, s2)" by (metis surj_pair)
    then have "s' = s2" using a off by (simp add: attempt_loaded_def)
    then have "view s' = view s1" using status_update_view [OF cs u] by simp
    then show ?thesis
      using reload_configmap_post [OF st l] run by (simp add: reload_post_def stored_data_def fun_eq_iff)
  qed (simp add: run)
qed

section \<open>Examples\<close>

definition demo_cb :: Server2ClusterCallback where
  "demo_cb = NewDefaultServer2ClusterCallback demo_key demo_ref"

lemma demo_cb_sel [simp]: "cb_dcKey demo_cb = demo_key" "cb_objectRef demo_cb = demo_ref"
  by (simp_all add: demo_cb_def NewDefaultServer2ClusterCallback_def)

lemma demo_ref_sel [simp]:
  "or_APIVersion demo_ref = ''v1''" "or_Kind demo_ref = ''ConfigMap''" "or_Namespace demo_ref = ''ns''"
  "or_Name demo_ref = ''app''"
  by (simp_all add: demo_ref_def)

lemma demo_attempt:
  "\<exists>s cm. run_state (syncConfigToLocal one_cluster demo_cb ''public'' ''configmap.app'' ''k'' ''a'') (demo_cluster True) = (None, s) \<and>
     filed_configmap s ''ns'' ''app'' = Some cm \<and> om_Kind (cm_Meta cm) = ''ConfigMap''"
proof -
  have new: "NewObjectReferenceWrapper one_cluster demo_ref =
      Inr (WConfigMap \<lparr>cmw_ObjectRef = demo_ref, cmw_cm = None\<rparr>)"
    by (rule NewObjectReferenceWrapper_configmap)
       (simp_all add: one_cluster_def gvk_laws_api_server)
  have dc: "run_state (Client_GetDC one_cluster (cb_dcKey demo_cb)) (demo_cluster True) = (Inr (demo_dc True), demo_cluster True)"
    using demo_views(1) [of True] by (simp add: one_cluster_dcs api_get_def filed_dc_def)
  obtain cm s1 where l: "run_state (reload_configmap one_cluster demo_ref) (demo_cluster True) = (Inr cm, s1)"
    and cm: "cm = demo_cm\<lparr>cm_Meta := (cm_Meta demo_cm)\<lparr>om_Finalizers := [FinalizerName], om_ResourceVersion := ''v''\<rparr>\<rparr>"
    and s1: "s1 = (demo_cluster True)\<lparr>cl_ConfigMaps := [((''ns'', ''app''), cm)], cl_Version := 1\<rparr>"
    by (simp add: reload_configmap_def one_cluster_configmaps api_get_def api_put_def filed_in_def demo_defs
        one_cluster_def api_server_def on_part_def Let_def version_string_def meta_key_def)
  have "CalcMd5 ''a'' \<noteq> []" by simp
  then have "\<exists>s x. attempt_loaded one_cluster (demo_dc True) demo_ref cm ''configmap.app'' ''k'' ''a'' s1 = (None, s) \<and>
      filed_configmap s ''ns'' ''app'' = Some x \<and> om_Kind (cm_Meta x) = ''ConfigMap''"
    by (simp add: filed_configmap_def attempt_loaded_def cm s1 GetConfigMapContent_def demo_defs one_cluster_dcs api_put_def
        filed_in_def Let_def ConfigMapWrapper_Flush_def one_cluster_configmaps StoreConfigMapContent_def
        looks_like_json_def UpdateSyncStatus_def meta_key_def HasPrefix_def)
  then show ?thesis
    unfolding syncConfigToLocal_loaded [OF dc new demo_cb_sel(2) l] .
qed

lemma demo_attempt_succeeds:
  "run_state (syncConfigToLocal one_cluster demo_cb ''public'' ''configmap.app'' ''k'' ''a'') (demo_cluster True) =
   (None, exec (syncConfigToLocal one_cluster demo_cb ''public'' ''configmap.app'' ''k'' ''a'') (demo_cluster True))"
  using demo_attempt by auto

theorem server_content_delivered_witness:
  "CalcMd5 (fst (stored_content filed_configmap
     (exec (syncConfigToLocal one_cluster demo_cb ''public'' ''configmap.app'' ''k'' ''a'') (demo_cluster True))
     ''ns'' ''app'' ''k'')) = CalcMd5 ''a''"
  using server_content_delivered [OF cluster_store_one_cluster demo_ref_sel(1,2) demo_cb_sel(2) _ demo_attempt_succeeds]
  by (simp add: demo_views stored_accepts_def configmap_accepts_def looks_like_json_def HasPrefix_def ignored_def)

theorem ignored_deletion_keeps_data_witness:
  "stored_data filed_configmap
     (exec (syncConfigToLocal one_cluster demo_cb ''public'' ''configmap.app'' ''k'' []) (demo_cluster False))
     ''ns'' ''app'' = ([(''k'', [])], [])"
  using ignored_deletion_keeps_data [OF cluster_store_one_cluster demo_ref_sel(1,2) demo_cb_sel(2),
      of "demo_cluster False" "demo_dc False" "''public''" "''configmap.app''" "''k''"]
  by (simp add: demo_views stored_data_def demo_dc_def demo_cm_def)

section \<open>Locks\<close>

text \<open>Mutexes handed out are distinct for distinct keys and older than the next one.\<close>

definition wf_locks :: "LockManager \<Rightarrow> bool" where
  "wf_locks lm \<longleftrightarrow>
     (\<forall>k m. mget (lm_locks lm) k = Some m \<longrightarrow> m < lm_next lm) \<and>
     (\<forall>j k m. mget (lm_locks lm) j = Some m \<longrightarrow> mget (lm_locks lm) k = Some m \<longrightarrow> j = k)"

lemma wf_locks_new [simp]: "wf_locks NewLockManager"
  by (simp add: wf_locks_def NewLockManager_def)

lemma wf_lm_create:
  assumes "wf_locks lm"
  shows "wf_locks (lm_create k lm)"
proof -
  have "m \<noteq> lm_next lm" if "mget (lm_locks lm) j = Some m" for j m
    using assms that unfolding wf_locks_def by force
  moreover have "m < Suc (lm_next lm)" if "mget (lm_locks lm) j = Some m" for j m
    using assms that unfolding wf_locks_def by (meson less_Suc_eq)
  ultimately show ?thesis
    using assms unfolding wf_locks_def by (auto simp: lm_create_def gomap split: if_splits)
qed

lemma run_GetLock:
  "run_state (GetLock k) lm =
     (case mget (lm_locks lm) k of
        Some m \<Rightarrow> (Some m, lm) | None \<Rightarrow> (Some (lm_next lm), lm_create k lm))"
  by (simp add: GetLock_def HasLock_def lm_create_def gomap split: option.split)

lemma GetLock_some: "\<exists>m. result (GetLock k) lm = Some m"
  by (cases "mget (lm_locks lm) k") (simp_all add: run_GetLock)

lemma wf_GetLock: "keeps wf_locks (GetLock k)"
  by (rule keepsI) (simp add: run_GetLock wf_lm_create split: option.split)

lemma wf_DelLock: "keeps wf_locks (DelLock k)"
  by (rule keepsI) (auto simp: DelLock_def HasLock_def wf_locks_def gomap split: if_splits)

lemma GetLock_registers: "mget (lm_locks (exec (GetLock k) lm)) k = result (GetLock k) lm"
  by (simp add: run_GetLock lm_create_def gomap split: option.split)

lemma GetLock_keeps_entries:
  "mget (lm_locks lm) j = Some m \<Longrightarrow> mget (lm_locks (exec (GetLock k) lm)) j = Some m"
  by (auto simp: run_GetLock lm_create_def gomap split: option.split)

text \<open>
  Calls of \<^verbatim>\<open>GetLock\<close> that do not overlap give a mutex, and two calls give the same mutex
  exactly when they name the same key, whatever calls for other keys come between.
\<close>

theorem GetLock_serial:
  assumes "wf_locks lm"
  shows "\<exists>m m'. result (GetLock j) lm = Some m \<and>
    result (GetLock k) (fold (\<lambda>i l. exec (GetLock i) l) is (exec (GetLock j) lm)) = Some m' \<and>
    (m = m' \<longleftrightarrow> j = k)"
proof -
  obtain m where m: "result (GetLock j) lm = Some m" using GetLock_some by blast
  let ?l = "fold (\<lambda>i l. exec (GetLock i) l) is (exec (GetLock j) lm)"
  have inv: "wf_locks l \<Longrightarrow> mget (lm_locks l) j = Some m \<Longrightarrow>
      wf_locks (fold (\<lambda>i l. exec (GetLock i) l) is l) \<and>
      mget (lm_locks (fold (\<lambda>i l. exec (GetLock i) l) is l)) j = Some m" for l
    by (induction "is" arbitrary: l) (auto simp: keepsD [OF wf_GetLock] GetLock_keeps_entries)
  have l: "wf_locks ?l" "mget (lm_locks ?l) j = Some m"
    using inv [OF keepsD [OF wf_GetLock assms], of j] m GetLock_registers [of j lm] by simp_all
  obtain m' where m': "result (GetLock k) ?l = Some m'" using GetLock_some by blast
  have wf: "wf_locks (exec (GetLock k) ?l)" by (rule keepsD [OF wf_GetLock l(1)])
  have "mget (lm_locks (exec (GetLock k) ?l)) j = Some m" "mget (lm_locks (exec (GetLock k) ?l)) k = Some m'"
    using GetLock_keeps_entries [OF l(2)] GetLock_registers [of k ?l] m' by simp_all
  then have "m = m' \<longleftrightarrow> j = k" using wf unfolding wf_locks_def by (metis option.inject)
  then show ?thesis using m m' by blast
qed

theorem GetLock_serial_witness:
  "\<exists>m m'. result (GetLock ''a/x'') NewLockManager = Some m \<and>
    result (GetLock ''a/y'') (fold (\<lambda>i l. exec (GetLock i) l) [''b/z''] (exec (GetLock ''a/x'') NewLockManager))
      = Some m' \<and> (m = m' \<longleftrightarrow> ''a/x'' = ''a/y'')"
  by (rule GetLock_serial) simp

subsection \<open>Overlapping calls\<close>

text \<open>
  The inner read-write mutex makes three parts of \<^verbatim>\<open>GetLock\<close> atomic: the check, the creation and the
  read.  A thread is at one of them for a key, or has its result.
\<close>

datatype lock_pc = Check string | Create string | Read string | Got string "nat option"

inductive getlock_step :: "(nat \<Rightarrow> lock_pc) \<times> LockManager \<Rightarrow> (nat \<Rightarrow> lock_pc) \<times> LockManager \<Rightarrow> bool" where
  step_check: "T t = Check k \<Longrightarrow>
     getlock_step (T, lm) (T(t := if result (HasLock k) lm then Read k else Create k), lm)"
| step_create: "T t = Create k \<Longrightarrow>
     getlock_step (T, lm) (T(t := Got k (mget (lm_locks (lm_create k lm)) k)), lm_create k lm)"
| step_read: "T t = Read k \<Longrightarrow>
     getlock_step (T, lm) (T(t := Got k (mget (lm_locks lm) k)), lm)"

inductive_cases getlock_stepE: "getlock_step (T, lm) S"

abbreviation getlock_reach :: "(nat \<Rightarrow> lock_pc) \<times> LockManager \<Rightarrow> (nat \<Rightarrow> lock_pc) \<times> LockManager \<Rightarrow> bool" where
  "getlock_reach \<equiv> getlock_step\<^sup>*\<^sup>*"

text \<open>Run alone, the steps of a thread are the program \<open>GetLock\<close>.\<close>

lemma getlock_alone:
  assumes "T t = Check k"
  shows "getlock_reach (T, lm) (T(t := Got k (result (GetLock k) lm)), exec (GetLock k) lm)"
proof (cases "result (HasLock k) lm")
  case True
  have "getlock_step (T, lm) (T(t := Read k), lm)" using step_check [of T t k lm] assms True by simp
  moreover have "getlock_step (T(t := Read k), lm) (T(t := Got k (mget (lm_locks lm) k)), lm)"
    using step_read [of "T(t := Read k)" t k lm] by simp
  ultimately show ?thesis
    using True by (auto simp: HasLock_def run_GetLock intro: converse_rtranclp_into_rtranclp)
next
  case False
  have "getlock_step (T, lm) (T(t := Create k), lm)" using step_check [of T t k lm] assms False by simp
  moreover have "getlock_step (T(t := Create k), lm)
      (T(t := Got k (mget (lm_locks (lm_create k lm)) k)), lm_create k lm)"
    using step_create [of "T(t := Create k)" t k lm] by simp
  ultimately show ?thesis
    using False
    by (auto simp: HasLock_def run_GetLock lm_create_def gomap intro: converse_rtranclp_into_rtranclp)
qed

text \<open>
  Once a key is registered, every interleaving of calls for any keys hands out the registered
  mutex for it.
\<close>

theorem GetLock_registered_agrees:
  assumes "getlock_reach (T, lm) (T', lm')" "\<forall>t. \<exists>k. T t = Check k"
    "mget (lm_locks lm) k = Some m" "T' t = Got k r"
  shows "r = Some m"
proof -
  let ?I = "\<lambda>(U, l). mget (lm_locks l) k = Some m \<and>
    (\<forall>t. U t \<noteq> Create k \<and> (\<forall>r. U t = Got k r \<longrightarrow> r = Some m))"
  have "?I (T', lm')"
    using assms(1)
  proof (induction rule: rtranclp_induct2)
    case refl
    have "T t \<noteq> Create k \<and> (\<forall>r. T t = Got k r \<longrightarrow> r = Some m)" for t
      using assms(2) by (metis lock_pc.distinct(1,5))
    then show ?case using assms(3) by simp
  next
    case (step U l U' l')
    then show ?case
      by (auto elim!: getlock_stepE simp: HasLock_def lm_create_def gomap split: if_splits)
  qed
  then show ?thesis using assms(4) by auto
qed

theorem GetLock_registered_agrees_witness:
  "\<exists>r. getlock_reach (\<lambda>_. Check ''k'', exec (GetLock ''k'') NewLockManager)
     ((\<lambda>_. Check ''k'')(0 := Got ''k'' r), exec (GetLock ''k'') NewLockManager) \<and> r = Some 0"
proof (rule exI, rule conjI)
  let ?lm = "exec (GetLock ''k'') NewLockManager"
  have m: "mget (lm_locks ?lm) ''k'' = Some 0"
    by (simp add: run_GetLock NewLockManager_def lm_create_def)
  then have again: "run_state (GetLock ''k'') ?lm = (Some 0, ?lm)"
    by (simp add: run_GetLock)
  show reach: "getlock_reach (\<lambda>_. Check ''k'', ?lm)
     ((\<lambda>_. Check ''k'')(0 := Got ''k'' (result (GetLock ''k'') ?lm)), ?lm)"
    using getlock_alone [of "\<lambda>_. Check ''k''" 0 "''k''" ?lm] again by simp
  show "result (GetLock ''k'') ?lm = Some 0"
    by (rule GetLock_registered_agrees [OF reach _ m, of 0]) simp_all
qed

text \<open>
  Two first calls for the same key can overlap so that each thread gets a mutex of its own, and
  the mutual exclusion of the callback is lost.
\<close>

theorem GetLock_race:
  "\<exists>T lm a b. getlock_reach (\<lambda>_. Check k, NewLockManager) (T, lm) \<and>
     T 0 = Got k (Some a) \<and> T 1 = Got k (Some b) \<and> a \<noteq> b"
proof -
  let ?T = "\<lambda>_::nat. Check k"
  let ?l = "NewLockManager"
  have "getlock_step (?T, ?l) (?T(0 := Create k), ?l)"
    using step_check [of ?T 0 k ?l] by (simp add: HasLock_def NewLockManager_def)
  moreover have "getlock_step (?T(0 := Create k), ?l) (?T(0 := Create k, 1 := Create k), ?l)"
    using step_check [of "?T(0 := Create k)" 1 k ?l] by (simp add: HasLock_def NewLockManager_def)
  moreover have "getlock_step (?T(0 := Create k, 1 := Create k), ?l)
      (?T(0 := Got k (Some 0), 1 := Create k), lm_create k ?l)"
    using step_create [of "?T(0 := Create k, 1 := Create k)" 0 k ?l]
    by (simp add: lm_create_def NewLockManager_def fun_upd_twist)
  moreover have "getlock_step (?T(0 := Got k (Some 0), 1 := Create k), lm_create k ?l)
      (?T(0 := Got k (Some 0), 1 := Got k (Some 1)), lm_create k (lm_create k ?l))"
    using step_create [of "?T(0 := Got k (Some 0), 1 := Create k)" 1 k "lm_create k ?l"]
    by (simp add: lm_create_def NewLockManager_def)
  ultimately have "getlock_reach (?T, ?l)
      (?T(0 := Got k (Some 0), 1 := Got k (Some 1)), lm_create k (lm_create k ?l))"
    by (meson rtranclp.rtrancl_refl converse_rtranclp_into_rtranclp)
  moreover have "(?T(0 := Got k (Some 0), 1 := Got k (Some 1))) 0 = Got k (Some 0)"
    "(?T(0 := Got k (Some 0), 1 := Got k (Some 1))) 1 = Got k (Some 1)" "(0::nat) \<noteq> 1" by simp_all
  ultimately show ?thesis by blast
qed

section \<open>Retrying\<close>

text \<open>The state after \<open>n\<close> calls, whatever they return.\<close>

definition after_calls :: "('s, 'a) state \<Rightarrow> nat \<Rightarrow> 's \<Rightarrow> 's" where
  "after_calls f n s = (exec f ^^ n) s"

definition conflicts :: "go_error option \<Rightarrow> bool" where
  "conflicts r \<longleftrightarrow> (\<exists>e. r = Some e \<and> IsConflict e)"

lemma attempts_spec:
  "\<exists>m\<le>n. (\<forall>i<m. conflicts (result f (after_calls f i s))) \<and>
     run_state (attempts (Suc n) f) s = run_state f (after_calls f m s) \<and>
     (m = n \<or> \<not> conflicts (result f (after_calls f m s)))"
proof (induction n arbitrary: s)
  case 0
  show ?case
    by (intro exI [of _ 0]) (auto simp: after_calls_def split: prod.splits option.splits)
next
  case (Suc n)
  obtain r s1 where r: "run_state f s = (r, s1)" by (metis surj_pair)
  show ?case
  proof (cases "conflicts r")
    case False
    then have "run_state (attempts (Suc (Suc n)) f) s = (r, s1)"
      using r by (auto simp: conflicts_def split: option.splits)
    then show ?thesis
      using False r by (intro exI [of _ 0]) (simp add: after_calls_def)
  next
    case True
    then have eq: "run_state (attempts (Suc (Suc n)) f) s = run_state (attempts (Suc n) f) s1"
      using r by (auto simp: conflicts_def)
    have shift: "after_calls f (Suc i) s = after_calls f i s1" for i
      unfolding after_calls_def funpow_Suc_right by (simp add: r)
    obtain m where m: "m \<le> n" "\<forall>i<m. conflicts (result f (after_calls f i s1))"
      "run_state (attempts (Suc n) f) s1 = run_state f (after_calls f m s1)"
      "m = n \<or> \<not> conflicts (result f (after_calls f m s1))" using Suc.IH by blast
    have "\<forall>i<Suc m. conflicts (result f (after_calls f i s))"
      using m(2) True r shift by (auto simp: less_Suc_eq_0_disj after_calls_def)
    then show ?thesis
      using m eq shift by (intro exI [of _ "Suc m"]) auto
  qed
qed

text \<open>
  With \<^verbatim>\<open>RetryOnConflict\<close> as documented, the callback makes one to three attempts, each
  in the state the previous one left, goes on only after a conflict and reports the last result; it
  reports a conflict only when all three attempts ended in one.
\<close>

theorem callback_retries:
  assumes "\<And>n f. RetryOnConflict n f = attempts n f"
  shows "\<exists>m\<le>2. (\<forall>i<m. conflicts (result (locked_attempt K cb ns g d c)
         (after_calls (locked_attempt K cb ns g d c) i s))) \<and>
     run_state (Callback K RetryOnConflict cb ns g d c) s =
       run_state (locked_attempt K cb ns g d c) (after_calls (locked_attempt K cb ns g d c) m s) \<and>
     (conflicts (result (Callback K RetryOnConflict cb ns g d c) s) \<longrightarrow> m = 2)"
proof -
  have "run_state (Callback K RetryOnConflict cb ns g d c) s =
      run_state (attempts (Suc 2) (locked_attempt K cb ns g d c)) s"
    by (simp add: Callback_def CallbackWithContext_def assms numeral_3_eq_3 numeral_2_eq_2)
  then show ?thesis using attempts_spec [of 2 "locked_attempt K cb ns g d c" s] by auto
qed

theorem callback_retries_witness:
  "\<exists>m\<le>2. run_state (Callback one_cluster attempts demo_cb ''public'' ''configmap.app'' ''k'' ''a'')
      (NewLockManager, demo_cluster True) =
    run_state (locked_attempt one_cluster demo_cb ''public'' ''configmap.app'' ''k'' ''a'')
      (after_calls (locked_attempt one_cluster demo_cb ''public'' ''configmap.app'' ''k'' ''a'')
         m (NewLockManager, demo_cluster True))"
  using callback_retries [of attempts one_cluster demo_cb "''public''" "''configmap.app''" "''k''" "''a''"
      "(NewLockManager, demo_cluster True)"] by blast

end
