(* ===== verification/Sync_Handler.thy ===== *)
theory Sync_Handler
  imports Server2Cluster
begin

text \<open>
  The variables the synchronisation handlers of \<^verbatim>\<open>config_sync_controller.go\<close> and
  \<^verbatim>\<open>nacos_controller.go\<close> share: the DynamicConfiguration they hold a pointer to, the list of failed
  data ids, the local object (a client object in the first, a wrapper in the second) and the outside.
  The last part has the rules the proofs about handlers use: invariants of the DynamicConfiguration,
  and agreement of two handlers that differ in one client operation.
\<close>

section \<open>State and elementary steps\<close>

record ('o, 's) handler =
  h_world :: 's
  h_obj :: 'o
  h_dc :: DynamicConfiguration
  h_errs :: "string list"

definition in_world :: "('s, 'a) state \<Rightarrow> (('o, 's) handler, 'a) state" where
  "in_world m = State (\<lambda>h. case run_state m (h_world h) of (a, s) \<Rightarrow> (a, h\<lparr>h_world := s\<rparr>))"

definition on_obj :: "('o \<times> 's, 'a) state \<Rightarrow> (('o, 's) handler, 'a) state" where
  "on_obj m = State (\<lambda>h. case run_state m (h_obj h, h_world h) of
     (a, (x, s)) \<Rightarrow> (a, h\<lparr>h_obj := x, h_world := s\<rparr>))"

definition on_dc :: "(DynamicConfiguration \<Rightarrow> DynamicConfiguration) \<Rightarrow> (('o, 's) handler, unit) state" where
  "on_dc f = modify (\<lambda>h. h\<lparr>h_dc := f (h_dc h)\<rparr>)"

definition add_err :: "string \<Rightarrow> string \<Rightarrow> (('o, 's) handler, unit) state" where
  "add_err g d = modify (\<lambda>h. h\<lparr>h_errs := h_errs h @ [g @ ''#'' @ d]\<rparr>)"

text \<open>\<^verbatim>\<open>UpdateSyncStatus(dc, group, dataId, md5, from, metav1.Now(), ready, message)\<close>\<close>

definition set_status ::
  "'s Kube \<Rightarrow> string \<Rightarrow> string \<Rightarrow> string \<Rightarrow> string \<Rightarrow> bool \<Rightarrow> string \<Rightarrow> (('o, 's) handler, unit) state" where
  "set_status K g d md5 src ready msg = do {
     t \<leftarrow> gets (\<lambda>h. Now K (h_world h));
     on_dc (\<lambda>dc. UpdateSyncStatus dc g d md5 src t ready msg)
   }"

section \<open>Parameters of the client calls\<close>

definition server_param :: "DynamicConfiguration \<Rightarrow> NacosServerParam" where
  "server_param dc = \<lparr>sp_Endpoint = ns_Endpoint (dc_NacosServer dc),
     sp_ServerAddr = ns_ServerAddr (dc_NacosServer dc), sp_Namespace = ns_Namespace (dc_NacosServer dc)\<rparr>"

definition dc_key :: "DynamicConfiguration \<Rightarrow> NamespacedName" where
  "dc_key dc = \<lparr>nn_Namespace = dc_Namespace dc, nn_Name = dc_Name dc\<rparr>"

definition config_param ::
  "DynamicConfiguration \<Rightarrow> string \<Rightarrow> string \<Rightarrow> string \<Rightarrow> Server2ClusterCallback option \<Rightarrow> NacosConfigParam" where
  "config_param dc g d content onChange =
     \<lparr>ncp_Key = dc_key dc, ncp_AuthRef = ns_AuthRef (dc_NacosServer dc),
      ncp_NacosServerParam = server_param dc, ncp_DataId = d, ncp_Group = g, ncp_Content = content,
      ncp_OnChange = onChange\<rparr>"

section \<open>Running the elementary steps\<close>

lemma run_in_world [simp]:
  "run_state (in_world m) h = (case run_state m (h_world h) of (a, s) \<Rightarrow> (a, h\<lparr>h_world := s\<rparr>))"
  by (simp add: in_world_def)

lemma run_on_obj [simp]:
  "run_state (on_obj m) h =
     (case run_state m (h_obj h, h_world h) of (a, (x, s)) \<Rightarrow> (a, h\<lparr>h_obj := x, h_world := s\<rparr>))"
  by (simp add: on_obj_def)

lemma run_on_dc [simp]: "run_state (on_dc f) h = ((), h\<lparr>h_dc := f (h_dc h)\<rparr>)"
  by (simp add: on_dc_def)

lemma run_add_err [simp]: "run_state (add_err g d) h = ((), h\<lparr>h_errs := h_errs h @ [g @ ''#'' @ d]\<rparr>)"
  by (simp add: add_err_def)

lemma run_set_status [simp]:
  "run_state (set_status K g d md5 src ready msg) h =
     ((), h\<lparr>h_dc := UpdateSyncStatus (h_dc h) g d md5 src (Now K (h_world h)) ready msg\<rparr>)"
  by (simp add: set_status_def)

section \<open>Invariants of the DynamicConfiguration\<close>

text \<open>
  A property of the resource that the two writes a group's synchronisation makes keep: a sync status
  and a listened data id, both of that group.
\<close>

definition group_inv :: "string \<Rightarrow> (DynamicConfiguration \<Rightarrow> bool) \<Rightarrow> bool" where
  "group_inv g I \<longleftrightarrow>
     (\<forall>dc d md5 src t ready msg. I dc \<longrightarrow> I (UpdateSyncStatus dc g d md5 src t ready msg)) \<and>
     (\<forall>dc d. I dc \<longrightarrow> I (AddListenConfig dc g d))"

text \<open>An invariant of a handler: \<open>P\<close> of the local object and \<open>I\<close> of the resource.\<close>

definition hinv :: "('o \<Rightarrow> bool) \<Rightarrow> (DynamicConfiguration \<Rightarrow> bool) \<Rightarrow> ('o, 's) handler \<Rightarrow> bool" where
  "hinv P I h \<longleftrightarrow> P (h_obj h) \<and> I (h_dc h)"

abbreviation any :: "'o \<Rightarrow> bool" where
  "any \<equiv> \<lambda>_. True"

lemma keeps_in_world [keeps_rules]: "keeps (hinv P I) (in_world m)"
  by (rule keepsI) (simp add: hinv_def split: prod.split)

lemma keeps_on_obj [keeps_rules]: "keeps (hinv any I) (on_obj m)"
  by (rule keepsI) (simp add: hinv_def split: prod.split)

lemma keeps_add_err [keeps_rules]: "keeps (hinv P I) (add_err g d)"
  by (rule keepsI) (simp add: hinv_def)

lemma keeps_set_obj: "P x \<Longrightarrow> keeps (hinv P I) (modify (h_obj_update (\<lambda>_. x)))"
  by (rule keepsI) (simp add: hinv_def)

lemma keeps_set_status [keeps_rules]:
  "group_inv g I \<Longrightarrow> keeps (hinv P I) (set_status K g d md5 src ready msg)"
  by (rule keepsI) (simp add: hinv_def group_inv_def)

lemma keeps_AddListenConfig [keeps_rules]:
  "group_inv g I \<Longrightarrow> keeps (hinv P I) (on_dc (\<lambda>dc. AddListenConfig dc g d))"
  by (rule keepsI) (simp add: hinv_def group_inv_def)

text \<open>Reading a variable: the rest may use what the invariant says of it.\<close>

lemma keeps_bind_gets:
  "(\<And>s. I s \<Longrightarrow> keeps I (k (f s))) \<Longrightarrow> keeps I (State_Monad.bind (gets f) k)"
  by (simp add: keeps_def)

lemma group_inv_wf: "group_inv g wf_status"
  by (simp add: group_inv_def wf_status_ops)

text \<open>What lies outside the group: identity, specification, and the entries of other groups.\<close>

definition same_elsewhere :: "string \<Rightarrow> DynamicConfiguration \<Rightarrow> DynamicConfiguration \<Rightarrow> bool" where
  "same_elsewhere g dc0 dc \<longleftrightarrow>
     dc_Spec dc = dc_Spec dc0 \<and> dc_Meta dc = dc_Meta dc0 \<and>
     (\<forall>x. x \<noteq> g \<longrightarrow> mget (dc_SyncStatuses dc) x = mget (dc_SyncStatuses dc0) x \<and>
                     mget (dc_ListenConfigs dc) x = mget (dc_ListenConfigs dc0) x)"

lemma group_inv_same_elsewhere: "group_inv g (same_elsewhere g dc0)"
  by (simp add: group_inv_def same_elsewhere_def UpdateSyncStatus_def AddListenConfig_def Let_def gomap)

lemma group_inv_strategy: "group_inv g (\<lambda>dc. dc_Spec dc = sp)"
  by (simp add: group_inv_def)

lemma listens_UpdateSyncStatus [simp]: "listens (UpdateSyncStatus dc g d m f t r x) = listens dc"
  by (rule listens_cong) simp

lemma group_inv_listens: "group_inv g (\<lambda>dc. listens dc g' d)"
  by (simp add: group_inv_def listens_AddListenConfig)

section \<open>Agreement of two programs\<close>

text \<open>
  \<open>agree I m n\<close>: started where \<open>I\<close> holds, \<open>m\<close> and \<open>n\<close> do the same and leave \<open>I\<close> true.
\<close>

definition agree :: "('s \<Rightarrow> bool) \<Rightarrow> ('s, 'a) state \<Rightarrow> ('s, 'a) state \<Rightarrow> bool" where
  "agree I m n \<longleftrightarrow> (\<forall>s. I s \<longrightarrow> run_state m s = run_state n s \<and> I (exec n s))"

lemma agreeI: "(\<And>s. I s \<Longrightarrow> run_state m s = run_state n s) \<Longrightarrow> keeps I n \<Longrightarrow> agree I m n"
  by (simp add: agree_def keeps_def)

lemma agree_refl: "keeps I m \<Longrightarrow> agree I m m"
  by (simp add: agree_def keeps_def)

lemma agreeD: "agree I m n \<Longrightarrow> I s \<Longrightarrow> run_state m s = run_state n s"
  by (simp add: agree_def)

lemma agree_bind:
  assumes "agree I m n" "\<And>x. agree I (f x) (g x)"
  shows "agree I (State_Monad.bind m f) (State_Monad.bind n g)"
  unfolding agree_def
proof (intro allI impI)
  fix s assume "I s"
  then have "run_state m s = run_state n s" "I (exec n s)" using assms(1) by (auto simp: agree_def)
  moreover obtain x s1 where n: "run_state n s = (x, s1)" by (metis surj_pair)
  ultimately show "run_state (State_Monad.bind m f) s = run_state (State_Monad.bind n g) s \<and>
      I (exec (State_Monad.bind n g) s)"
    using assms(2) [of x] by (simp add: agree_def)
qed

lemma agree_bindO:
  "agree I m n \<Longrightarrow> (\<And>x. agree I (f x) (g x)) \<Longrightarrow> agree I (bindO m f) (bindO n g)"
  unfolding bindO_def
  by (intro agree_bind) (auto split: outcome.split intro: agree_refl keeps_ret)

lemma agree_for_each:
  "(\<And>x. x \<in> set xs \<Longrightarrow> agree I (f x) (g x)) \<Longrightarrow> agree I (for_each f xs) (for_each g xs)"
  by (induction xs) (auto intro: agree_refl agree_bindO keeps_ret)

lemma agree_bind_gets:
  "(\<And>s. I s \<Longrightarrow> agree I (k (f s)) (k' (f s))) \<Longrightarrow>
   agree I (State_Monad.bind (gets f) k) (State_Monad.bind (gets f) k')"
  by (simp add: agree_def)

lemma agree_if: "(b \<Longrightarrow> agree I m n) \<Longrightarrow> (\<not> b \<Longrightarrow> agree I m' n') \<Longrightarrow> agree I (if b then m else m') (if b then n else n')"
  by simp

lemma agree_case_option:
  "(x = None \<Longrightarrow> agree I m n) \<Longrightarrow> (\<And>y. x = Some y \<Longrightarrow> agree I (f y) (g y)) \<Longrightarrow>
   agree I (case x of None \<Rightarrow> m | Some y \<Rightarrow> f y) (case x of None \<Rightarrow> n | Some y \<Rightarrow> g y)"
  by (simp split: option.split)

lemma agree_case_prod:
  "(\<And>a b. x = (a, b) \<Longrightarrow> agree I (f a b) (g a b)) \<Longrightarrow>
   agree I (case x of (a, b) \<Rightarrow> f a b) (case x of (a, b) \<Rightarrow> g a b)"
  by (simp split: prod.split)

lemmas agree_rules = agree_bind_gets agree_bindO agree_for_each agree_if agree_case_option agree_case_prod

section \<open>Loops\<close>

text \<open>What one iteration establishes for its element, the other iterations not undoing it.\<close>

lemma for_each_establishes:
  assumes "\<And>x s s'. x \<in> set xs \<Longrightarrow> I s \<Longrightarrow> run_state (f x) s = (Ok (), s') \<Longrightarrow> P x s'"
    and "\<And>x y. keeps (P x) (f y)" "\<And>x. keeps I (f x)"
    and "run_state (for_each f xs) s = (Ok (), s')" "I s"
  shows "\<forall>x\<in>set xs. P x s'"
  using assms(1,4,5)
proof (induction xs arbitrary: s)
  case Nil
  then show ?case by simp
next
  case (Cons x xs)
  obtain s1 where s1: "run_state (f x) s = (Ok (), s1)" "run_state (for_each f xs) s1 = (Ok (), s')"
    using Cons.prems(2) by (auto simp: run_bindO split: prod.splits outcome.splits)
  have "I s1" using keepsD [OF assms(3) Cons.prems(3), of x] s1(1) by simp
  then have rest: "\<forall>y\<in>set xs. P y s'" using Cons.IH Cons.prems(1) s1(2) by simp
  have "P x s1" using Cons.prems(1,3) s1(1) by simp
  moreover have "keeps (P x) (for_each f xs)" by (intro keeps_rules assms(2))
  ultimately have "P x s'" using keepsD [of "P x" "for_each f xs" s1] s1(2) by simp
  then show ?case using rest by simp
qed

text \<open>The list of failed data ids only grows.\<close>

lemma keeps_errs [keeps_rules]:
  "keeps (\<lambda>h. e \<in> set (h_errs h)) (in_world m)" "keeps (\<lambda>h. e \<in> set (h_errs h)) (on_obj n)"
  "keeps (\<lambda>h. e \<in> set (h_errs h)) (add_err g d)" "keeps (\<lambda>h. e \<in> set (h_errs h)) (on_dc f)"
  "keeps (\<lambda>h. e \<in> set (h_errs h)) (set_status K g d md5 src ready msg)"
  "keeps (\<lambda>h. e \<in> set (h_errs h)) (modify (h_obj_update u))"
  by (auto intro!: keepsI split: prod.split)

lemma keeps_disj: "keeps I m \<Longrightarrow> keeps J m \<Longrightarrow> keeps (\<lambda>s. I s \<or> J s) m"
  by (auto simp: keeps_def)

section \<open>Which side wins\<close>

text \<open>
  The decision table of a data id seen on both sides, on the server's content, the local content
  (empty when absent) and the conflict policy.
\<close>

datatype sync_action = TakeServer | PushCluster | LeaveBoth

definition decide :: "bool \<Rightarrow> string \<Rightarrow> string \<Rightarrow> sync_action" where
  "decide preferCluster server local =
     (if server \<noteq> [] \<and> (local = [] \<or> \<not> preferCluster) then TakeServer
      else if local \<noteq> [] then PushCluster else LeaveBoth)"

abbreviation prefers_cluster :: "DynamicConfiguration \<Rightarrow> bool" where
  "prefers_cluster dc \<equiv> ss_ConflictPolicy (dc_Strategy dc) = PreferCluster"

section \<open>A client for examples\<close>

text \<open>Every configuration of this server has the given content; every write succeeds.\<close>

definition demo_client :: "string \<Rightarrow> 's NacosConfigClient" where
  "demo_client content = \<lparr>
     GetConfig = (\<lambda>_. ret (content, None)), PublishConfig = (\<lambda>_. ret (True, None)),
     DeleteConfig = (\<lambda>_. ret (True, None)), ListenConfig = (\<lambda>_. ret None),
     CancelListenConfig = (\<lambda>_. ret None), CloseClient = (\<lambda>_. ret ()),
     SearchConfigs = (\<lambda>_. ret (None, None))\<rparr>"

definition demo_handler :: "(Object, cluster) handler" where
  "demo_handler = \<lparr>h_world = demo_cluster False, h_obj = ObjConfigMap demo_cm, h_dc = demo_dc False, h_errs = []\<rparr>"

lemma demo_handler_sel [simp]:
  "h_world demo_handler = demo_cluster False" "h_obj demo_handler = ObjConfigMap demo_cm"
  "h_dc demo_handler = demo_dc False" "h_errs demo_handler = []"
  by (simp_all add: demo_handler_def)

lemma demo_client_sel [simp]:
  "GetConfig (demo_client c) p = ret (c, None)" "PublishConfig (demo_client c) p = ret (True, None)"
  "DeleteConfig (demo_client c) p = ret (True, None)" "ListenConfig (demo_client c) p = ret None"
  "CancelListenConfig (demo_client c) p = ret None" "CloseClient (demo_client c) p = ret ()"
  "SearchConfigs (demo_client c) q = ret (None, None)"
  by (simp_all add: demo_client_def)

lemma ToLower_ConfigMap [simp]: "ToLower ''ConfigMap'' = ''configmap''"
  by code_simp

end
