(* ===== verification/Config_Sync.thy ===== *)
theory Config_Sync
  imports Sync_Handler
begin

text \<open>
  \<^verbatim>\<open>pkg/nacos/config_sync_controller.go\<close>: what the ConfigMap and Secret reconcilers do when an object
  changes.  For every DynamicConfiguration of the namespace the data ids are listened to, compared
  with the keys of the object and deleted, adopted or published; the outcome goes into the status of
  the DynamicConfiguration.  \<^verbatim>\<open>err.Error()\<close> on a nil error is the outcome \<open>Panic\<close>.
\<close>

section \<open>One data id seen for the first time\<close>

definition obj_group :: "Object \<Rightarrow> string" where
  "obj_group x = ToLower (om_Kind (obj_meta x)) @ ''.'' @ om_Name (obj_meta x)"

definition obj_ref :: "Object \<Rightarrow> ObjectReference" where
  "obj_ref x = \<lparr>or_Kind = om_Kind (obj_meta x), or_Namespace = om_Namespace (obj_meta x),
     or_Name = om_Name (obj_meta x), or_APIVersion = om_APIVersion (obj_meta x)\<rparr>"

text \<open>Lines 309 to 362 up to the listening: \<open>Ok False\<close> is the early return.\<close>

definition reconcile_content ::
  "'s Kube \<Rightarrow> 's NacosConfigClient \<Rightarrow> string \<Rightarrow> string \<Rightarrow> ((Object, 's) handler, bool outcome) state" where
  "reconcile_content K C grp dataId = do {
     obj \<leftarrow> gets h_obj;
     dc \<leftarrow> gets h_dc;
     bindO (ret (GetContent obj dataId)) (\<lambda>(localContent, localExist0). do {
       let localExist = (localExist0 \<and> length localContent > 0);
       (serverContent, err) \<leftarrow> in_world (GetConfig C (config_param dc grp dataId [] None));
       let serverExist = (length serverContent > 0);
       let isPreferCluster = (ss_ConflictPolicy (dc_Strategy dc) = PreferCluster);
       (if (serverExist \<and> \<not> localExist) \<or> (serverExist \<and> localExist \<and> \<not> isPreferCluster)
        then bindO (ret (StoreContent obj dataId serverContent)) (\<lambda>(obj', _). do {
          modify (h_obj_update (\<lambda>_. obj'));
          set_status K grp dataId [] ''server'' True [];
          ret (Ok True) })
        else if (\<not> serverExist \<and> localExist) \<or> (serverExist \<and> localExist \<and> isPreferCluster)
        then do {
          (success, perr) \<leftarrow> in_world (PublishConfig C (config_param dc grp dataId localContent None));
          (if perr \<noteq> None \<or> \<not> success
           then do {
             add_err grp dataId;
             (case perr of
                None \<Rightarrow> ret Panic
              | Some e \<Rightarrow> do {
                  set_status K grp dataId [] ''server'' False
                    (''publish Config to nacos server error: '' @ ErrorText e);
                  ret (Ok False) }) }
           else do {
             set_status K grp dataId [] ''config'' True [];
             ret (Ok True) }) }
        else ret (Ok True)) })
   }"

definition listen_data_id ::
  "'s Kube \<Rightarrow> 's NacosConfigClient \<Rightarrow> string \<Rightarrow> string \<Rightarrow> Server2ClusterCallback \<Rightarrow>
   (('o, 's) handler, unit outcome) state" where
  "listen_data_id K C grp dataId cb = do {
     dc \<leftarrow> gets h_dc;
     err \<leftarrow> in_world (ListenConfig C (config_param dc grp dataId [] (Some cb)));
     (case err of
        Some e \<Rightarrow> do {
          add_err grp dataId;
          set_status K grp dataId [] ''server'' False (''listen Config from nacos server error: '' @ ErrorText e);
          ret (Ok ()) }
      | None \<Rightarrow> do {
          on_dc (\<lambda>dc. AddListenConfig dc grp dataId);
          ret (Ok ()) })
   }"

definition configDataIdSync ::
  "'s Kube \<Rightarrow> 's NacosConfigClient \<Rightarrow> string \<Rightarrow> Server2ClusterCallback \<Rightarrow>
   ((Object, 's) handler, unit outcome) state" where
  "configDataIdSync K C dataId cb = do {
     obj \<leftarrow> gets h_obj;
     let grp = obj_group obj;
     bindO (reconcile_content K C grp dataId) (\<lambda>go.
       if go then listen_data_id K C grp dataId cb else ret (Ok ()))
   }"

definition Sync_configGroupSync ::
  "'s Kube \<Rightarrow> 's NacosConfigClient \<Rightarrow> ((Object, 's) handler, unit outcome) state" where
  "Sync_configGroupSync K C = do {
     obj \<leftarrow> gets h_obj;
     dc \<leftarrow> gets h_dc;
     let cb = NewDefaultServer2ClusterCallback (dc_key dc) (obj_ref obj);
     bindO (ret (GetAllKeys obj)) (\<lambda>dataIds. for_each (\<lambda>dataId. configDataIdSync K C dataId cb) dataIds)
   }"

section \<open>Deleting on the server\<close>

text \<open>The call with its two outcomes (lines 169 to 189, and the same text elsewhere).\<close>

definition delete_remote ::
  "'s Kube \<Rightarrow> 's NacosConfigClient \<Rightarrow> string \<Rightarrow> string \<Rightarrow> (('o, 's) handler, unit outcome) state" where
  "delete_remote K C grp dataId = do {
     dc \<leftarrow> gets h_dc;
     (success, err) \<leftarrow> in_world (DeleteConfig C (config_param dc grp dataId [] None));
     (if err \<noteq> None \<or> \<not> success
      then do {
        set_status K grp dataId [] ''cluster'' False (''delete config error: '' @ Sprintf_err err);
        add_err grp dataId;
        ret (Ok ()) }
      else do {
        set_status K grp dataId [] ''cluster'' True ''delete nacos server config success'';
        ret (Ok ()) })
   }"

definition delete_or_ignore ::
  "'s Kube \<Rightarrow> 's NacosConfigClient \<Rightarrow> string \<Rightarrow> string \<Rightarrow> (('o, 's) handler, unit outcome) state" where
  "delete_or_ignore K C grp dataId = do {
     dc \<leftarrow> gets h_dc;
     (if ss_SyncDeletion (dc_Strategy dc) then delete_remote K C grp dataId
      else do {
        set_status K grp dataId [] ''cluster'' True
          ''ignore delete nacos server config due to the syncDeletion false'';
        ret (Ok ()) })
   }"

section \<open>DoReconcile\<close>

text \<open>Lines 143 to 165: listening again to what is listened to.\<close>

definition relisten ::
  "'s Kube \<Rightarrow> 's NacosConfigClient \<Rightarrow> string \<Rightarrow> Server2ClusterCallback \<Rightarrow> string \<Rightarrow>
   (('o, 's) handler, unit outcome) state" where
  "relisten K C grp cb dataId = do {
     dc \<leftarrow> gets h_dc;
     err \<leftarrow> in_world (ListenConfig C (config_param dc grp dataId [] (Some cb)));
     (case err of
        Some e \<Rightarrow> do {
          add_err grp dataId;
          set_status K grp dataId [] ''server'' False (''listen Config from nacos server error: '' @ ErrorText e);
          ret (Ok ()) }
      | None \<Rightarrow> ret (Ok ()))
   }"

text \<open>Lines 198 to 256: a data id that is listened to and present.\<close>

definition sync_existing ::
  "'s Kube \<Rightarrow> 's NacosConfigClient \<Rightarrow> string \<Rightarrow> string \<Rightarrow> ((Object, 's) handler, unit outcome) state" where
  "sync_existing K C grp dataId = do {
     obj \<leftarrow> gets h_obj;
     dc \<leftarrow> gets h_dc;
     bindO (ret (GetContent obj dataId)) (\<lambda>(localContent, localExist). do {
       let oldMd5 = (case GetSyncStatusByDataId dc grp dataId of Some st \<Rightarrow> st_Md5 st | None \<Rightarrow> CalcMd5 []);
       let newMd5 = CalcMd5 localContent;
       (if \<not> localExist \<or> length localContent = 0
        then (if oldMd5 \<noteq> newMd5 \<and> ss_SyncDeletion (dc_Strategy dc)
              then delete_remote K C grp dataId else ret (Ok ()))
        else if oldMd5 \<noteq> newMd5
        then do {
          (success, err) \<leftarrow> in_world (PublishConfig C (config_param dc grp dataId localContent None));
          (if err \<noteq> None \<or> \<not> success
           then do {
             set_status K grp dataId [] ''cluster'' False (''publish config error: '' @ Sprintf_err err);
             add_err grp dataId;
             ret (Ok ()) }
           else do {
             set_status K grp dataId newMd5 ''cluster'' True ''publish nacos server config success'';
             ret (Ok ()) }) }
        else ret (Ok ())) })
   }"

text \<open>Lines 257 to 267: the overall status, stored through the status subresource.\<close>

definition finish_status :: "(('o, 's) handler, unit) state" where
  "finish_status = do {
     errs \<leftarrow> gets h_errs;
     (if length errs > 0
      then on_dc (\<lambda>dc. FailedStatus dc (''sync Config error: '' @ Join errs '',''))
      else on_dc UpdateStatus)
   }"

definition store_status :: "'s Kube \<Rightarrow> (('o, 's) handler, unit outcome) state" where
  "store_status K = do {
     dc \<leftarrow> gets h_dc;
     err \<leftarrow> in_world (Client_StatusUpdateDC K dc);
     ret (Ok ())
   }"

definition sync_listened ::
  "'s Kube \<Rightarrow> 's NacosConfigClient \<Rightarrow> string \<Rightarrow> Server2ClusterCallback \<Rightarrow> string list \<Rightarrow> string list \<Rightarrow>
   ((Object, 's) handler, unit outcome) state" where
  "sync_listened K C grp cb listenDataIds localDataIds =
     bindO (for_each (relisten K C grp cb) listenDataIds) (\<lambda>_.
     (case CompareDataIds listenDataIds localDataIds of (listenOnly, localOnly, bothIds) \<Rightarrow>
        bindO (for_each (delete_or_ignore K C grp) listenOnly) (\<lambda>_.
        bindO (for_each (\<lambda>dataId. configDataIdSync K C dataId cb) localOnly) (\<lambda>_.
        for_each (sync_existing K C grp) bothIds))))"

definition reconcile_dc ::
  "'s Kube \<Rightarrow> 's NacosConfigClient \<Rightarrow> string \<Rightarrow> ObjectReference \<Rightarrow> string list \<Rightarrow>
   ((Object, 's) handler, unit outcome) state" where
  "reconcile_dc K C nacosGroup configMapRef localDataIds = do {
     obj \<leftarrow> gets h_obj;
     dc \<leftarrow> gets h_dc;
     (if \<not> DynamicConfigurationMatch obj dc then ret (Ok ())
      else let cb = NewDefaultServer2ClusterCallback (dc_key dc) configMapRef in
        (case mget (dc_ListenConfigs dc) nacosGroup of
           None \<Rightarrow> bindO (Sync_configGroupSync K C) (\<lambda>_. store_status K)
         | Some listenDataIds \<Rightarrow>
             bindO (sync_listened K C nacosGroup cb listenDataIds localDataIds) (\<lambda>_. do {
               finish_status;
               store_status K })))
   }"

text \<open>The body of the loop over the resources: a fresh copy of the resource and an empty error list.\<close>

definition for_dc ::
  "((Object, 's) handler, 'a) state \<Rightarrow> DynamicConfiguration \<Rightarrow> (Object \<times> 's, 'a) state" where
  "for_dc m dc = State (\<lambda>(obj, s).
     case run_state m \<lparr>h_world = s, h_obj = obj, h_dc = dc, h_errs = []\<rparr> of
       (r, h) \<Rightarrow> (r, (h_obj h, h_world h)))"

definition DoReconcile ::
  "'s Kube \<Rightarrow> 's NacosConfigClient \<Rightarrow> (Object \<times> 's, go_error option outcome) state" where
  "DoReconcile K C = do {
     obj \<leftarrow> gets fst;
     got \<leftarrow> outside (Client_ListDC K (om_Namespace (obj_meta obj)));
     (case got of
        Inl err \<Rightarrow> ret (Ok (Some err))
      | Inr items \<Rightarrow>
          bindO (ret (GetAllKeys obj)) (\<lambda>localDataIds.
          bindO (for_each (for_dc (reconcile_dc K C (obj_group obj) (obj_ref obj) localDataIds)) items) (\<lambda>_.
          ret (Ok None))))
   }"

section \<open>Finalize\<close>

definition finalize_dc ::
  "'s Kube \<Rightarrow> 's NacosConfigClient \<Rightarrow> string \<Rightarrow> string list \<Rightarrow> ((Object, 's) handler, unit outcome) state" where
  "finalize_dc K C nacosGroup localDataIds = do {
     obj \<leftarrow> gets h_obj;
     dc \<leftarrow> gets h_dc;
     (if \<not> DynamicConfigurationMatch obj dc then ret (Ok ())
      else
        (case mget (dc_ListenConfigs dc) nacosGroup of
           None \<Rightarrow> ret (Ok ())
         | Some listenDataIds \<Rightarrow>
             (case CompareDataIds listenDataIds localDataIds of (_, _, bothIds) \<Rightarrow>
                bindO (for_each (delete_or_ignore K C nacosGroup) bothIds) (\<lambda>_. do {
                  finish_status;
                  store_status K }))))
   }"

definition Sync_Finalize ::
  "'s Kube \<Rightarrow> 's NacosConfigClient \<Rightarrow> (Object \<times> 's, go_error option outcome) state" where
  "Sync_Finalize K C = do {
     obj \<leftarrow> gets fst;
     got \<leftarrow> outside (Client_ListDC K (om_Namespace (obj_meta obj)));
     (case got of
        Inl err \<Rightarrow> ret (Ok (Some err))
      | Inr items \<Rightarrow>
          bindO (ret (GetAllKeys obj)) (\<lambda>localDataIds.
          bindO (for_each (for_dc (finalize_dc K C (obj_group obj) localDataIds)) items) (\<lambda>_.
          ret (Ok None))))
   }"

section \<open>Invariants\<close>

text \<open>The object under synchronisation keeps its metadata, hence its group.\<close>

lemma StoreContent_meta:
  "StoreContent obj k v = Ok (obj', e) \<Longrightarrow> obj_meta obj' = obj_meta obj"
  by (cases obj) (auto simp: StoreContent_def StoreConfigMapContent_def StoreSecretContent_def
      split: if_splits sum.splits)

lemma StoreContent_group:
  "StoreContent obj k v = Ok (obj', e) \<Longrightarrow> obj_group obj' = obj_group obj"
  by (simp add: obj_group_def StoreContent_meta)

abbreviation in_group :: "string \<Rightarrow> Object \<Rightarrow> bool" where
  "in_group g \<equiv> \<lambda>x. obj_group x = g"

text \<open>A property of the object that storing a content keeps and that fixes the group.\<close>

definition obj_inv :: "string \<Rightarrow> (Object \<Rightarrow> bool) \<Rightarrow> bool" where
  "obj_inv g P \<longleftrightarrow> (\<forall>x. P x \<longrightarrow> obj_group x = g) \<and>
     (\<forall>x k v x' e. P x \<longrightarrow> StoreContent x k v = Ok (x', e) \<longrightarrow> P x')"

lemma obj_inv_group: "obj_inv g (in_group g)"
  by (auto simp: obj_inv_def dest: StoreContent_group)

lemma obj_inv_kind: "obj_inv g (\<lambda>x. kind_matches x \<and> obj_group x = g)"
proof -
  have "kind_matches x'" if "kind_matches x" "StoreContent x k v = Ok (x', e)" for x k v x' e
    using that object_store_kind [of x k v] by simp
  then show ?thesis unfolding obj_inv_def using StoreContent_group by metis
qed

lemma keeps_reconcile_content:
  assumes "obj_inv g P" "group_inv g I"
  shows "keeps (hinv P I) (reconcile_content K C g d)"
  unfolding reconcile_content_def
proof (intro keeps_bind_gets, goal_cases)
  case (1 h h')
  have store: "keeps (hinv P I) (bindO (ret (StoreContent (h_obj h) d c)) (\<lambda>(obj', _). do {
          modify (h_obj_update (\<lambda>_. obj'));
          set_status K g d [] ''server'' True [];
          ret (Ok True) }))" for c
  proof (cases "StoreContent (h_obj h) d c")
    case (Ok y)
    then have "P (fst y)"
      using 1(1) assms(1) unfolding obj_inv_def hinv_def by (metis prod.collapse)
    then show ?thesis
      using assms(2) Ok by (auto intro!: keeps_rules keeps_set_obj split: prod.split)
  qed (auto intro: keeps_rules)
  show ?case
    unfolding Let_def by (intro keeps_rules store assms)
qed

lemma keeps_listen_data_id [keeps_rules]:
  "group_inv g I \<Longrightarrow> keeps (hinv P I) (listen_data_id K C g d cb)"
  unfolding listen_data_id_def by (intro keeps_rules)

lemma keeps_configDataIdSync:
  assumes "obj_inv g P" "group_inv g I"
  shows "keeps (hinv P I) (configDataIdSync K C d cb)"
  unfolding configDataIdSync_def Let_def
proof (rule keeps_bind_gets)
  fix h :: "(Object, 'a) handler" assume "hinv P I h"
  then have "obj_group (h_obj h) = g" using assms(1) by (simp add: hinv_def obj_inv_def)
  then show "keeps (hinv P I) (bindO (reconcile_content K C (obj_group (h_obj h)) d)
      (\<lambda>go. if go then listen_data_id K C (obj_group (h_obj h)) d cb else ret (Ok ())))"
    using assms by (auto intro!: keeps_rules keeps_reconcile_content)
qed

lemma keeps_Sync_configGroupSync:
  "obj_inv g P \<Longrightarrow> group_inv g I \<Longrightarrow> keeps (hinv P I) (Sync_configGroupSync K C)"
  unfolding Sync_configGroupSync_def Let_def by (intro keeps_rules keeps_configDataIdSync)

lemma keeps_delete_remote [keeps_rules]:
  "group_inv g I \<Longrightarrow> keeps (hinv P I) (delete_remote K C g d)"
  unfolding delete_remote_def by (intro keeps_rules)

lemma keeps_delete_or_ignore [keeps_rules]:
  "group_inv g I \<Longrightarrow> keeps (hinv P I) (delete_or_ignore K C g d)"
  unfolding delete_or_ignore_def by (intro keeps_rules)

lemma keeps_relisten [keeps_rules]:
  "group_inv g I \<Longrightarrow> keeps (hinv P I) (relisten K C g cb d)"
  unfolding relisten_def by (intro keeps_rules)

lemma keeps_sync_existing [keeps_rules]:
  "group_inv g I \<Longrightarrow> keeps (hinv P I) (sync_existing K C g d)"
  unfolding sync_existing_def Let_def by (intro keeps_rules)

lemma keeps_sync_listened:
  "obj_inv g P \<Longrightarrow> group_inv g I \<Longrightarrow> keeps (hinv P I) (sync_listened K C g cb xs ys)"
  unfolding sync_listened_def by (intro keeps_rules keeps_configDataIdSync)

text \<open>Properties that the overall status does not affect.\<close>

definition phase_inv :: "(DynamicConfiguration \<Rightarrow> bool) \<Rightarrow> bool" where
  "phase_inv I \<longleftrightarrow> (\<forall>dc msg. I dc \<longrightarrow> I (FailedStatus dc msg) \<and> I (UpdateStatus dc))"

lemma phase_inv_wf: "phase_inv wf_status"
  by (simp add: phase_inv_def)

lemma phase_inv_same_elsewhere: "phase_inv (same_elsewhere g dc0)"
  by (simp add: phase_inv_def same_elsewhere_def)

lemma phase_inv_spec: "phase_inv (\<lambda>dc. dc_Spec dc = sp)"
  by (simp add: phase_inv_def)

lemma keeps_finish_status [keeps_rules]: "phase_inv I \<Longrightarrow> keeps (hinv P I) finish_status"
  by (rule keepsI) (simp add: finish_status_def hinv_def phase_inv_def)

lemma keeps_store_status [keeps_rules]: "keeps (hinv P I) (store_status K)"
  unfolding store_status_def by (intro keeps_rules)

lemma keeps_reconcile_dc:
  "group_inv g I \<Longrightarrow> phase_inv I \<Longrightarrow> keeps (hinv (in_group g) I) (reconcile_dc K C g ref ids)"
  unfolding reconcile_dc_def Let_def
  by (intro keeps_rules keeps_Sync_configGroupSync [OF obj_inv_group] keeps_sync_listened [OF obj_inv_group])

lemma keeps_finalize_dc:
  "group_inv g I \<Longrightarrow> phase_inv I \<Longrightarrow> keeps (hinv P I) (finalize_dc K C g ids)"
  unfolding finalize_dc_def by (intro keeps_rules)

text \<open>
  C17: reconciling an object keeps the status of each resource well-formed (no group, no data id
  twice), whatever the client calls return, and touches no entry of another group, no
  specification and no metadata.
\<close>

theorem reconcile_dc_own_group:
  assumes "wf_status (h_dc h)" "g = obj_group (h_obj h)"
  shows "wf_status (h_dc (exec (reconcile_dc K C g ref ids) h)) \<and>
    same_elsewhere g (h_dc h) (h_dc (exec (reconcile_dc K C g ref ids) h)) \<and>
    wf_status (h_dc (exec (finalize_dc K C g ids) h)) \<and>
    same_elsewhere g (h_dc h) (h_dc (exec (finalize_dc K C g ids) h))"
proof -
  have refl: "same_elsewhere g (h_dc h) (h_dc h)" by (simp add: same_elsewhere_def)
  note r = keepsD [OF keeps_reconcile_dc] and f = keepsD [OF keeps_finalize_dc]
  show ?thesis
    using r [OF group_inv_wf phase_inv_wf, of g h K C ref ids]
      r [OF group_inv_same_elsewhere phase_inv_same_elsewhere, of g "h_dc h" h K C ref ids]
      f [OF group_inv_wf phase_inv_wf, of any h K C g ids]
      f [OF group_inv_same_elsewhere phase_inv_same_elsewhere, of any g "h_dc h" h K C ids]
      assms refl
    by (simp add: hinv_def)
qed

section \<open>Deletion switched off\<close>

abbreviation keep_remote :: "DynamicConfiguration \<Rightarrow> bool" where
  "keep_remote dc \<equiv> \<not> ss_SyncDeletion (dc_Strategy dc)"

lemma inv_keep_remote: "group_inv g keep_remote" "phase_inv keep_remote"
  by (simp_all add: group_inv_def phase_inv_def)

text \<open>Parts that do not call \<^verbatim>\<open>DeleteConfig\<close>.\<close>

lemma client_frame:
  "GetConfig (C\<lparr>DeleteConfig := del\<rparr>) = GetConfig C" "PublishConfig (C\<lparr>DeleteConfig := del\<rparr>) = PublishConfig C"
  "ListenConfig (C\<lparr>DeleteConfig := del\<rparr>) = ListenConfig C"
  by simp_all

lemma no_DeleteConfig [simp]:
  "configDataIdSync K (C\<lparr>DeleteConfig := del\<rparr>) d cb = configDataIdSync K C d cb"
  "relisten K (C\<lparr>DeleteConfig := del\<rparr>) g cb = relisten K C g cb"
  "Sync_configGroupSync K (C\<lparr>DeleteConfig := del\<rparr>) = Sync_configGroupSync K C"
proof -
  show 1: "configDataIdSync K (C\<lparr>DeleteConfig := del\<rparr>) d cb = configDataIdSync K C d cb" for d cb
    unfolding configDataIdSync_def reconcile_content_def listen_data_id_def client_frame ..
  show "relisten K (C\<lparr>DeleteConfig := del\<rparr>) g cb = relisten K C g cb"
    by (simp add: relisten_def fun_eq_iff)
  show "Sync_configGroupSync K (C\<lparr>DeleteConfig := del\<rparr>) = Sync_configGroupSync K C"
    by (simp add: Sync_configGroupSync_def 1)
qed

lemma agree_delete_or_ignore:
  "agree (hinv P keep_remote) (delete_or_ignore K (C\<lparr>DeleteConfig := del\<rparr>) g d) (delete_or_ignore K C g d)"
  by (intro agreeI keeps_delete_or_ignore inv_keep_remote) (simp add: delete_or_ignore_def hinv_def)

lemma agree_sync_existing:
  "agree (hinv P keep_remote) (sync_existing K (C\<lparr>DeleteConfig := del\<rparr>) g d) (sync_existing K C g d)"
  by (intro agreeI keeps_sync_existing inv_keep_remote)
     (simp add: sync_existing_def hinv_def Let_def run_bindO split: prod.split outcome.split)

lemma agree_reconcile_dc:
  "agree (hinv (in_group g) keep_remote) (reconcile_dc K (C\<lparr>DeleteConfig := del\<rparr>) g ref ids)
     (reconcile_dc K C g ref ids)"
  unfolding reconcile_dc_def sync_listened_def Let_def no_DeleteConfig
  by (intro agree_rules agree_refl agree_delete_or_ignore agree_sync_existing keeps_rules
      keeps_configDataIdSync [OF obj_inv_group] keeps_Sync_configGroupSync [OF obj_inv_group] inv_keep_remote)

lemma agree_finalize_dc:
  "agree (hinv P keep_remote) (finalize_dc K (C\<lparr>DeleteConfig := del\<rparr>) g ids) (finalize_dc K C g ids)"
  unfolding finalize_dc_def
  by (intro agree_rules agree_refl agree_delete_or_ignore keeps_rules inv_keep_remote)

text \<open>Lifting to the loop over the resources, whose state is the object and the outside.\<close>

lemma run_for_dc:
  "run_state (for_dc m dc) (obj, s) =
     (case run_state m \<lparr>h_world = s, h_obj = obj, h_dc = dc, h_errs = []\<rparr> of
        (r, h) \<Rightarrow> (r, (h_obj h, h_world h)))"
  by (simp add: for_dc_def)

lemma agree_for_dc:
  assumes "agree (hinv (in_group g) I) m n" "I dc"
  shows "agree (\<lambda>(obj, s). obj_group obj = g) (for_dc m dc) (for_dc n dc)"
proof -
  have "run_state m h = run_state n h \<and> obj_group (h_obj (exec n h)) = g"
    if "h = \<lparr>h_world = s, h_obj = obj, h_dc = dc, h_errs = []\<rparr>" "obj_group obj = g" for h obj s
    using assms that unfolding agree_def by (simp add: hinv_def)
  then show ?thesis
    unfolding agree_def by (auto simp: run_for_dc split: prod.splits) (metis snd_conv)
qed

text \<open>
  C3: when no resource of the namespace synchronises deletions, reconciling and finalizing an
  object never calls \<^verbatim>\<open>DeleteConfig\<close>: replacing that operation of the client by any other changes
  neither the results nor the states.
\<close>

theorem no_remote_deletion:
  assumes "run_state (Client_ListDC K (om_Namespace (obj_meta obj))) s = (Inr items, s1)"
    "\<forall>dc\<in>set items. \<not> ss_SyncDeletion (dc_Strategy dc)"
  shows "run_state (DoReconcile K (C\<lparr>DeleteConfig := del\<rparr>)) (obj, s) = run_state (DoReconcile K C) (obj, s) \<and>
    run_state (Sync_Finalize K (C\<lparr>DeleteConfig := del\<rparr>)) (obj, s) = run_state (Sync_Finalize K C) (obj, s)"
proof -
  let ?g = "obj_group obj"
  have r: "run_state (for_each (for_dc (reconcile_dc K (C\<lparr>DeleteConfig := del\<rparr>) ?g (obj_ref obj) ids)) items) (obj, s1)
      = run_state (for_each (for_dc (reconcile_dc K C ?g (obj_ref obj) ids)) items) (obj, s1)" for ids
    by (rule agreeD [OF agree_for_each [OF agree_for_dc [OF agree_reconcile_dc]]]) (use assms(2) in auto)
  have f: "run_state (for_each (for_dc (finalize_dc K (C\<lparr>DeleteConfig := del\<rparr>) ?g ids)) items) (obj, s1)
      = run_state (for_each (for_dc (finalize_dc K C ?g ids)) items) (obj, s1)" for ids
    by (rule agreeD [OF agree_for_each [OF agree_for_dc [OF agree_finalize_dc]]]) (use assms(2) in auto)
  show ?thesis
    by (cases "GetAllKeys obj")
       (simp_all add: DoReconcile_def Sync_Finalize_def assms(1) run_bindO r f)
qed

section \<open>The decision\<close>

lemma object_content_absent: "object_content x d = (c, False) \<Longrightarrow> c = []"
  by (cases x) (auto simp: GetConfigMapContent_def GetSecretContent_def split: option.splits)

text \<open>The state after \<open>reconcile_content\<close>, by the decision.\<close>

definition content_result ::
  "'s Kube \<Rightarrow> 's NacosConfigClient \<Rightarrow> string \<Rightarrow> string \<Rightarrow> (Object, 's) handler \<Rightarrow> string \<Rightarrow> 's \<Rightarrow>
   bool outcome \<times> (Object, 's) handler" where
  "content_result K C g d h server s1 =
     (let local = fst (object_content (h_obj h) d) in
      case decide (prefers_cluster (h_dc h)) server local of
        TakeServer \<Rightarrow> (Ok True, h\<lparr>h_world := s1, h_obj := fst (object_store (h_obj h) d server),
            h_dc := UpdateSyncStatus (h_dc h) g d [] ''server'' (Now K s1) True []\<rparr>)
      | LeaveBoth \<Rightarrow> (Ok True, h\<lparr>h_world := s1\<rparr>)
      | PushCluster \<Rightarrow>
          (case run_state (PublishConfig C (config_param (h_dc h) g d local None)) s1 of
             ((success, err), s2) \<Rightarrow>
               if success \<and> err = None
               then (Ok True, h\<lparr>h_world := s2,
                      h_dc := UpdateSyncStatus (h_dc h) g d [] ''config'' (Now K s2) True []\<rparr>)
               else (case err of
                  None \<Rightarrow> (Panic, h\<lparr>h_world := s2, h_errs := h_errs h @ [g @ ''#'' @ d]\<rparr>)
                | Some e \<Rightarrow> (Ok False, h\<lparr>h_world := s2, h_errs := h_errs h @ [g @ ''#'' @ d],
                      h_dc := UpdateSyncStatus (h_dc h) g d [] ''server'' (Now K s2) False
                                (''publish Config to nacos server error: '' @ ErrorText e)\<rparr>))))"

lemma reconcile_content_decides:
  assumes "kind_matches (h_obj h)"
    "run_state (GetConfig C (config_param (h_dc h) g d [] None)) (h_world h) = ((server, err), s1)"
  shows "run_state (reconcile_content K C g d) h = content_result K C g d h server s1"
proof -
  obtain c e where c: "object_content (h_obj h) d = (c, e)" by (metis surj_pair)
  have ce: "e \<and> c \<noteq> [] \<longleftrightarrow> c \<noteq> []" using object_content_absent [of "h_obj h" d c] c by (cases e) auto
  show ?thesis
    using assms ce
    by (auto simp: reconcile_content_def content_result_def c Let_def decide_def run_bindO
        split: prod.split option.split)
qed

text \<open>
  C2: the first synchronisation of a data id follows the decision table.  The server's content is
  stored locally exactly when the server has one and the local one is absent or the policy prefers the
  server; the local content is published exactly when there is one and the server's did not win;
  these are the only remote calls besides the read and the final listening, which is left out
  only after a failed publication.
\<close>

theorem first_sync_decision:
  assumes "kind_matches (h_obj h)" "g = obj_group (h_obj h)"
    "run_state (GetConfig C (config_param (h_dc h) g d [] None)) (h_world h) = ((server, err), s1)"
  defines "local \<equiv> fst (object_content (h_obj h) d)"
  defines "act \<equiv> decide (prefers_cluster (h_dc h)) server local"
  defines "pub \<equiv> run_state (PublishConfig C (config_param (h_dc h) g d local None)) s1"
  defines "s2 \<equiv> (if act = PushCluster then snd pub else s1)"
  shows "h_obj (exec (configDataIdSync K C d cb) h) =
      (if act = TakeServer then fst (object_store (h_obj h) d server) else h_obj h) \<and>
    h_world (exec (configDataIdSync K C d cb) h) =
      (if act = PushCluster \<and> fst pub \<noteq> (True, None) then s2
       else exec (ListenConfig C (config_param (h_dc h) g d [] (Some cb))) s2)"
proof -
  obtain ok e t where p: "pub = ((ok, e), t)" by (metis surj_pair)
  obtain le t1 where l1: "run_state (ListenConfig C (config_param (h_dc h) g d [] (Some cb))) s1 = (le, t1)"
    by (metis surj_pair)
  obtain le' t2 where l2: "run_state (ListenConfig C (config_param (h_dc h) g d [] (Some cb))) t = (le', t2)"
    by (metis surj_pair)
  have cp: "config_param (UpdateSyncStatus (h_dc h) g d m f n r x) g d [] (Some cb) =
      config_param (h_dc h) g d [] (Some cb)" for m f n r x
    by (simp add: config_param_def dc_key_def server_param_def)
  have rc: "run_state (reconcile_content K C g d) h = content_result K C g d h server s1"
    by (rule reconcile_content_decides [OF assms(1,3)])
  show ?thesis
    using p [unfolded pub_def local_def]
    by (cases act)
       (auto simp: configDataIdSync_def assms(2) [symmetric] rc run_bindO content_result_def Let_def
          act_def local_def s2_def p listen_data_id_def cp l1 l2 split: option.splits prod.splits)
qed

lemma demo_object [simp]:
  "om_Kind (cm_Meta demo_cm) = ''ConfigMap''" "obj_group (ObjConfigMap demo_cm) = ''configmap.app''"
  "object_content (ObjConfigMap demo_cm) ''k'' = ([], True)" "prefers_cluster (demo_dc b)"
  by (simp_all add: demo_defs obj_group_def GetConfigMapContent_def dc_constants)

theorem first_sync_decision_witness:
  "h_obj (exec (configDataIdSync one_cluster (demo_client ''x'') ''k'' demo_cb) demo_handler) =
     fst (object_store (ObjConfigMap demo_cm) ''k'' ''x'')"
  using first_sync_decision [of demo_handler "''configmap.app''" "demo_client ''x''" "''k''" "''x''" None
      "demo_cluster False" one_cluster demo_cb]
  by (simp add: decide_def del: object_content.simps object_store.simps)

lemma first_sync_cases:
  assumes "kind_matches (h_obj h)" "g = obj_group (h_obj h)"
    "run_state (configDataIdSync K C d cb) h = (Ok (), h')"
  shows "(h_errs h' = h_errs h \<and> listens (h_dc h') g d) \<or>
    (h_errs h' = h_errs h @ [g @ ''#'' @ d] \<and>
     (\<exists>st. GetSyncStatusByDataId (h_dc h') g d = Some st \<and> \<not> st_Ready st))"
proof -
  obtain server err s1 where get:
    "run_state (GetConfig C (config_param (h_dc h) g d [] None)) (h_world h) = ((server, err), s1)"
    by (metis surj_pair)
  have rc: "run_state (reconcile_content K C g d) h = content_result K C g d h server s1"
    by (rule reconcile_content_decides [OF assms(1) get])
  show ?thesis
    using assms(3)
    by (auto simp: configDataIdSync_def assms(2) [symmetric] rc run_bindO content_result_def Let_def
        listen_data_id_def listens_AddListenConfig GetSyncStatus_UpdateSyncStatus mk_status_def
        split: option.splits prod.splits if_splits sync_action.splits)
qed

text \<open>
  A first synchronisation that returns either leaves the data id listened to and the errors
  unchanged, or adds the data id to the errors and leaves it with a status that is not ready.
\<close>

theorem first_sync_outcome:
  assumes "kind_matches (h_obj h)" "g = obj_group (h_obj h)"
    "run_state (configDataIdSync K C d cb) h = (Ok (), h')"
  shows "(h_errs h' = h_errs h \<and> listens (h_dc h') g d) \<or>
    (h_errs h' = h_errs h @ [g @ ''#'' @ d] \<and>
     (\<exists>st. GetSyncStatusByDataId (h_dc h') g d = Some st \<and> \<not> st_Ready st))"
  using assms by (rule first_sync_cases)

theorem first_sync_outcome_witness:
  "\<exists>h'. run_state (configDataIdSync one_cluster (demo_client ''x'') ''k'' demo_cb) demo_handler = (Ok (), h') \<and>
     h_errs h' = [] \<and> listens (h_dc h') ''configmap.app'' ''k''"
proof -
  have rc: "run_state (reconcile_content one_cluster (demo_client ''x'') ''configmap.app'' ''k'') demo_handler =
      content_result one_cluster (demo_client ''x'') ''configmap.app'' ''k'' demo_handler ''x'' (demo_cluster False)"
    by (rule reconcile_content_decides) simp_all
  obtain h' where h': "run_state (configDataIdSync one_cluster (demo_client ''x'') ''k'' demo_cb) demo_handler = (Ok (), h')"
    "h_errs h' = []"
    by (simp add: configDataIdSync_def Let_def run_bindO rc content_result_def decide_def listen_data_id_def
        del: object_content.simps)
  then show ?thesis
    using first_sync_outcome [OF _ _ h'(1), of "''configmap.app''"] by auto
qed

text \<open>A handler whose object has the content \<open>v\<close> under \<open>k\<close>.\<close>

definition demo_local :: "(Object, cluster) handler" where
  "demo_local = demo_handler\<lparr>h_obj := ObjConfigMap (demo_cm\<lparr>cm_Data := [(''k'', ''v'')]\<rparr>)\<rparr>"

lemma demo_local_sel [simp]:
  "h_world demo_local = demo_cluster False" "h_dc demo_local = demo_dc False" "h_errs demo_local = []"
  "kind_matches (h_obj demo_local)" "obj_group (h_obj demo_local) = ''configmap.app''"
  "object_content (h_obj demo_local) ''k'' = (''v'', True)"
  by (simp_all add: demo_local_def obj_group_def GetConfigMapContent_def demo_cm_def demo_meta_def)

lemma GetContent_absent: "GetContent x d = Ok (c, False) \<Longrightarrow> c = []"
  using object_content_absent [of x d c]
  by (cases x) (auto simp: GetContent_def split: if_splits)

text \<open>The md5 recorded for a data id; nothing is done while it is that of the local content.\<close>

definition recorded_md5 :: "DynamicConfiguration \<Rightarrow> string \<Rightarrow> string \<Rightarrow> string" where
  "recorded_md5 dc g d = (case GetSyncStatusByDataId dc g d of Some st \<Rightarrow> st_Md5 st | None \<Rightarrow> CalcMd5 [])"

lemma recorded_md5_set [simp]: "recorded_md5 (UpdateSyncStatus dc g d m f t r x) g d = m"
  by (simp add: recorded_md5_def GetSyncStatus_UpdateSyncStatus mk_status_def)

lemma sync_existing_same:
  assumes "GetContent (h_obj h) d = Ok (c, e)" "recorded_md5 (h_dc h) g d = CalcMd5 c"
  shows "run_state (sync_existing K C g d) h = (Ok (), h)"
  using assms by (simp add: sync_existing_def Let_def recorded_md5_def)

lemma sync_existing_changed:
  assumes "GetContent (h_obj h) d = Ok (c, e)" "recorded_md5 (h_dc h) g d \<noteq> CalcMd5 c"
    "run_state (sync_existing K C g d) h = (Ok (), h')" "h_errs h' = h_errs h"
  shows "h' = h \<or> (h_obj h' = h_obj h \<and> recorded_md5 (h_dc h') g d = CalcMd5 c)"
proof (cases "\<not> e \<or> c = []")
  case True
  then have "c = []" using GetContent_absent assms(1) by (cases e) auto
  then show ?thesis
    using assms
    by (auto simp: sync_existing_def Let_def recorded_md5_def [symmetric] delete_remote_def
        split: prod.splits if_splits)
next
  case False
  then show ?thesis
    using assms
    by (auto simp: sync_existing_def Let_def recorded_md5_def [symmetric] split: prod.splits if_splits)
qed

text \<open>
  A reconciliation of a listed data id that ends without an error is final: repeating it makes no
  remote call and changes nothing.
\<close>

theorem sync_existing_settles:
  assumes "run_state (sync_existing K C g d) h = (Ok (), h')" "h_errs h' = h_errs h"
  shows "run_state (sync_existing K C g d) h' = (Ok (), h')"
proof -
  obtain c e where c: "GetContent (h_obj h) d = Ok (c, e)"
    using assms(1) by (cases "GetContent (h_obj h) d") (auto simp: sync_existing_def)
  show ?thesis
  proof (cases "recorded_md5 (h_dc h) g d = CalcMd5 c")
    case True
    then show ?thesis using sync_existing_same [OF c] assms(1) by simp
  next
    case False
    then have "h' = h \<or> (h_obj h' = h_obj h \<and> recorded_md5 (h_dc h') g d = CalcMd5 c)"
      by (rule sync_existing_changed [OF c _ assms])
    then show ?thesis using assms(1) c by (auto simp: sync_existing_same)
  qed
qed

theorem sync_existing_settles_witness:
  "\<exists>h'. run_state (sync_existing one_cluster (demo_client []) ''configmap.app'' ''k'') demo_local = (Ok (), h') \<and>
     run_state (sync_existing one_cluster (demo_client []) ''configmap.app'' ''k'') h' = (Ok (), h')"
proof -
  have "GetSyncStatusByDataId (demo_dc False) ''configmap.app'' ''k'' = None"
    by (simp add: GetSyncStatusByDataId_def demo_dc_def)
  moreover have "[] \<noteq> CalcMd5 ''v''" by (metis CalcMd5_eq_Nil list.distinct(1))
  ultimately obtain h' where "run_state (sync_existing one_cluster (demo_client []) ''configmap.app'' ''k'') demo_local = (Ok (), h')"
    "h_errs h' = h_errs demo_local"
    by (simp add: sync_existing_def Let_def)
  then show ?thesis using sync_existing_settles by blast
qed

section \<open>A whole group\<close>

lemma keeps_errs_configDataIdSync:
  "keeps (\<lambda>h. e \<in> set (h_errs h)) (configDataIdSync K C d cb)"
  unfolding configDataIdSync_def reconcile_content_def listen_data_id_def Let_def by (intro keeps_rules)

text \<open>
  After the first synchronisation of a group that returns, every key of the object is listened to
  or in the error list.
\<close>

theorem group_sync_covers_keys:
  assumes "kind_matches (h_obj h)" "g = obj_group (h_obj h)"
    "run_state (Sync_configGroupSync K C) h = (Ok (), h')"
  shows "\<forall>d\<in>set (object_keys (h_obj h)). listens (h_dc h') g d \<or> g @ ''#'' @ d \<in> set (h_errs h')"
proof -
  let ?cb = "NewDefaultServer2ClusterCallback (dc_key (h_dc h)) (obj_ref (h_obj h))"
  let ?P = "\<lambda>x. kind_matches x \<and> obj_group x = g"
  have run: "run_state (for_each (\<lambda>d. configDataIdSync K C d ?cb) (object_keys (h_obj h))) h = (Ok (), h')"
    using assms(1,3) by (simp add: Sync_configGroupSync_def Let_def)
  have "\<forall>d\<in>set (object_keys (h_obj h)).
      hinv ?P (\<lambda>dc. listens dc g d) h' \<or> g @ ''#'' @ d \<in> set (h_errs h')"
  proof (rule for_each_establishes [where I = "hinv ?P any", OF _ _ _ run])
    fix d and t t' :: "(Object, 'a) handler"
    assume t: "hinv ?P any t" "run_state (configDataIdSync K C d ?cb) t = (Ok (), t')"
    have "hinv ?P any t'"
      using keepsD [OF keeps_configDataIdSync [OF obj_inv_kind] t(1), of K C d ?cb] t(2)
      by (simp add: group_inv_def)
    then show "hinv ?P (\<lambda>dc. listens dc g d) t' \<or> g @ ''#'' @ d \<in> set (h_errs t')"
      using first_sync_cases [of t g K C d ?cb t'] t by (auto simp: hinv_def)
  next
    show "keeps (\<lambda>h. hinv ?P (\<lambda>dc. listens dc g d) h \<or> g @ ''#'' @ d \<in> set (h_errs h))
        (configDataIdSync K C e ?cb)" for d e
      by (intro keeps_disj keeps_configDataIdSync [OF obj_inv_kind] keeps_errs_configDataIdSync group_inv_listens)
  next
    show "keeps (hinv ?P any) (configDataIdSync K C d ?cb)" for d
      by (intro keeps_configDataIdSync [OF obj_inv_kind]) (simp add: group_inv_def)
  qed (use assms in \<open>simp add: hinv_def\<close>)
  then show ?thesis by (auto simp: hinv_def)
qed

lemma demo_group_sync:
  "\<exists>h'. run_state (Sync_configGroupSync one_cluster (demo_client ''x'')) demo_handler = (Ok (), h') \<and> h_errs h' = []"
proof -
  have rc: "run_state (reconcile_content one_cluster (demo_client ''x'') ''configmap.app'' ''k'') demo_handler =
      content_result one_cluster (demo_client ''x'') ''configmap.app'' ''k'' demo_handler ''x'' (demo_cluster False)"
    by (rule reconcile_content_decides) simp_all
  have "GetAllKeys (ObjConfigMap demo_cm) = Ok [''k'']"
    by (simp add: GetConfigMapAllKeys_def demo_cm_def demo_meta_def)
  then show ?thesis
    by (simp add: Sync_configGroupSync_def configDataIdSync_def Let_def run_bindO rc content_result_def decide_def
        listen_data_id_def del: object_content.simps)
qed

theorem group_sync_covers_keys_witness:
  "\<exists>h'. run_state (Sync_configGroupSync one_cluster (demo_client ''x'')) demo_handler = (Ok (), h') \<and>
     listens (h_dc h') ''configmap.app'' ''k''"
proof -
  obtain h' where h': "run_state (Sync_configGroupSync one_cluster (demo_client ''x'')) demo_handler = (Ok (), h')"
    "h_errs h' = []" using demo_group_sync by blast
  have "''k'' \<in> set (object_keys (h_obj demo_handler))"
    by (simp add: GetConfigMapAllKeys_def demo_cm_def)
  then have "listens (h_dc h') ''configmap.app'' ''k''"
    using group_sync_covers_keys [OF _ _ h'(1), of "''configmap.app''"] h'(2) by simp
  then show ?thesis using h'(1) by blast
qed

section \<open>The overall status\<close>

text \<open>
  C15: reconciling a resource that listens to the object's group, when it returns, ends in phase
  succeed exactly when no data id failed in this pass and every recorded sync status is ready, and
  in phase failed otherwise; the observed generation is the current one.
\<close>

theorem reconcile_phase:
  assumes "wf_status (h_dc h)" "g = obj_group (h_obj h)" "mget (dc_ListenConfigs (h_dc h)) g = Some ls"
    "om_Namespace (obj_meta (h_obj h)) = dc_Namespace (h_dc h)"
    "run_state (reconcile_dc K C g ref ids) h = (Ok (), h')"
  shows "sts_Phase (dc_Status (h_dc h')) =
      (if h_errs h' = [] \<and> (\<forall>x d st. GetSyncStatusByDataId (h_dc h') x d = Some st \<longrightarrow> st_Ready st)
       then PhaseSucceed else PhaseFailed) \<and>
    sts_ObservedGeneration (dc_Status (h_dc h')) = om_Generation (dc_Meta (h_dc h))"
proof -
  let ?cb = "NewDefaultServer2ClusterCallback (dc_key (h_dc h)) ref"
  obtain h1 where run1: "run_state (sync_listened K C g ?cb ls ids) h = (Ok (), h1)"
    and h': "h_dc h' = h_dc (exec finish_status h1)" "h_errs h' = h_errs h1"
    using assms(3-5)
    by (auto simp: reconcile_dc_def DynamicConfigurationMatch_eq Let_def run_bindO store_status_def
        finish_status_def split: prod.splits outcome.splits if_splits)
  note inv = keepsD [OF keeps_sync_listened [OF obj_inv_group], of g _ h K C ?cb ls ids]
  have wf: "wf_status (h_dc h1)" and m: "dc_Meta (h_dc h1) = dc_Meta (h_dc h)"
    using inv [OF group_inv_wf] inv [OF group_inv_same_elsewhere [of g "h_dc h"]] run1 assms(1,2)
    by (auto simp: hinv_def same_elsewhere_def)
  show ?thesis
  proof (cases "h_errs h1 = []")
    case True
    then have dc': "h_dc h' = UpdateStatus (h_dc h1)" using h' by (simp add: finish_status_def)
    then have "GetSyncStatusByDataId (h_dc h') = GetSyncStatusByDataId (h_dc h1)"
      by (simp add: GetSyncStatusByDataId_eq fun_eq_iff)
    then show ?thesis
      using True h'(2) wf m
      by (simp add: dc' UpdateStatus_phase wf_status_all_ready) (simp add: UpdateStatus_def Let_def)
  next
    case False
    then have "h_dc h' = FailedStatus (h_dc h1) (''sync Config error: '' @ Join (h_errs h1) '','')"
      using h' by (simp add: finish_status_def)
    then show ?thesis using False h'(2) m by (simp add: FailedStatus_def)
  qed
qed

text \<open>A handler whose resource listens to the data id \<open>k\<close> of the object.\<close>

definition demo_listening :: "(Object, cluster) handler" where
  "demo_listening = demo_local\<lparr>h_dc := AddListenConfig (demo_dc False) ''configmap.app'' ''k''\<rparr>"

lemma demo_listening_sel [simp]:
  "h_obj demo_listening = h_obj demo_local" "h_errs demo_listening = []"
  "mget (dc_ListenConfigs (h_dc demo_listening)) ''configmap.app'' = Some [''k'']"
  "wf_status (h_dc demo_listening)" "DynamicConfigurationMatch (h_obj demo_local) (h_dc demo_listening)"
  by (simp_all add: demo_listening_def AddListenConfig_def Let_def demo_dc_def mget0_def wf_status_def
      DynamicConfigurationMatch_eq demo_local_def demo_cm_def demo_meta_def)

lemma demo_reconcile:
  "\<exists>h'. run_state (reconcile_dc one_cluster (demo_client []) ''configmap.app'' ref [''k'']) demo_listening = (Ok (), h')"
proof -
  have "CompareDataIds [''k''] [''k''] = ([], [], [''k''])" by code_simp
  moreover have "[] \<noteq> CalcMd5 ''v''" by (metis CalcMd5_eq_Nil list.distinct(1))
  moreover have "GetContent (h_obj demo_local) ''k'' = Ok (''v'', True)" by simp
  ultimately show ?thesis
    by (simp add: reconcile_dc_def sync_listened_def run_bindO relisten_def sync_existing_def Let_def
        finish_status_def store_status_def split: option.split prod.split)
qed

theorem reconcile_phase_witness:
  "\<exists>h'. run_state (reconcile_dc one_cluster (demo_client []) ''configmap.app'' demo_ref [''k'']) demo_listening = (Ok (), h') \<and>
     sts_Phase (dc_Status (h_dc h')) =
      (if h_errs h' = [] \<and> (\<forall>x d st. GetSyncStatusByDataId (h_dc h') x d = Some st \<longrightarrow> st_Ready st)
       then PhaseSucceed else PhaseFailed)"
proof -
  obtain h' where h': "run_state (reconcile_dc one_cluster (demo_client []) ''configmap.app'' demo_ref [''k''])
      demo_listening = (Ok (), h')" using demo_reconcile by blast
  have "om_Namespace (obj_meta (h_obj demo_listening)) = dc_Namespace (h_dc demo_listening)"
    by (simp add: demo_listening_def demo_local_def demo_cm_def demo_dc_def demo_meta_def)
  then show ?thesis
    using reconcile_phase [OF _ _ _ _ h', of "[''k'']"] h' by auto
qed

theorem reconcile_dc_own_group_witness:
  "wf_status (h_dc (exec (reconcile_dc one_cluster (demo_client ''x'') ''configmap.app'' demo_ref [''k'']) demo_listening))"
  using reconcile_dc_own_group [of demo_listening "''configmap.app''" one_cluster "demo_client ''x''" demo_ref "[''k'']"]
  by simp

theorem no_remote_deletion_witness:
  "run_state (DoReconcile one_cluster ((demo_client ''x'')\<lparr>DeleteConfig := (\<lambda>_. ret (False, None))\<rparr>))
     (ObjConfigMap demo_cm, demo_cluster False) =
   run_state (DoReconcile one_cluster (demo_client ''x'')) (ObjConfigMap demo_cm, demo_cluster False)"
proof -
  have l: "run_state (Client_ListDC one_cluster (om_Namespace (obj_meta (ObjConfigMap demo_cm)))) (demo_cluster False)
      = (Inr [demo_dc False], demo_cluster False)"
    by (simp add: one_cluster_def api_server_def on_part_def in_namespace_def demo_cluster_def demo_cm_def demo_meta_def)
  have "\<forall>dc\<in>set [demo_dc False]. \<not> ss_SyncDeletion (dc_Strategy dc)" by (simp add: demo_dc_def)
  then show ?thesis using no_remote_deletion [OF l] by blast
qed

end
