(* ===== verification/DC_Controller.thy ===== *)
theory DC_Controller
  imports Config_Sync
begin

text \<open>
  \<^verbatim>\<open>pkg/nacos/nacos_controller.go\<close>: synchronising a DynamicConfiguration as a whole when its
  specification changes, and the background task that discovers configurations on the server.  The
  handlers run on the state of theory \<open>Sync_Handler\<close>; a wrapper is a local variable of the group
  it serves (\<open>with_wrapper\<close>).  The order in which \<^verbatim>\<open>range\<close> visits the map of references that the
  code builds is the runtime's choice: the parameter \<open>rng\<close>.
\<close>

section \<open>One group\<close>

definition with_wrapper :: "'w \<Rightarrow> (('w, 's) handler, 'a) state \<Rightarrow> ((unit, 's) handler, 'a) state" where
  "with_wrapper w m = State (\<lambda>h.
     case run_state m \<lparr>h_world = h_world h, h_obj = w, h_dc = h_dc h, h_errs = h_errs h\<rparr> of
       (a, h') \<Rightarrow> (a, \<lparr>h_world = h_world h', h_obj = (), h_dc = h_dc h', h_errs = h_errs h'\<rparr>))"

text \<open>Lines 525 to 591: read both sides and act; \<open>Ok False\<close> is a \<^verbatim>\<open>continue\<close>.\<close>

definition reconcile_data_id ::
  "'s Kube \<Rightarrow> 's NacosConfigClient \<Rightarrow> string \<Rightarrow> string \<Rightarrow>
   ((ObjectReferenceWrapper, 's) handler, bool outcome) state" where
  "reconcile_data_id K C grp dataId = do {
     dc \<leftarrow> gets h_dc;
     got \<leftarrow> on_obj (Wrapper_GetContent K dataId);
     (case got of
        Inl err \<Rightarrow> do {
          add_err grp dataId;
          set_status K grp dataId [] ''cluster'' False (''get local content error: '' @ ErrorText err);
          ret (Ok False) }
      | Inr (localContent, localExist0) \<Rightarrow> do {
          let localExist = (localExist0 \<and> length localContent > 0);
          (serverContent, err) \<leftarrow> in_world (GetConfig C (config_param dc grp dataId [] None));
          let serverExist = (length serverContent > 0);
          let isPreferCluster = (ss_ConflictPolicy (dc_Strategy dc) = PreferCluster);
          (if (serverExist \<and> \<not> localExist) \<or> (serverExist \<and> localExist \<and> \<not> isPreferCluster)
           then do {
             e \<leftarrow> on_obj (Wrapper_StoreContent K dataId serverContent);
             (case e of
                Some err \<Rightarrow> do {
                  add_err grp dataId;
                  set_status K grp dataId [] ''server'' False (''store Config to local error: '' @ ErrorText err);
                  ret (Ok False) }
              | None \<Rightarrow> do {
                  set_status K grp dataId (CalcMd5 serverContent) ''server'' True [];
                  ret (Ok True) }) }
           else if (\<not> serverExist \<and> localExist) \<or> (serverExist \<and> localExist \<and> isPreferCluster)
           then do {
             (success, perr) \<leftarrow> in_world (PublishConfig C (config_param dc grp dataId localContent None));
             (if perr \<noteq> None \<or> \<not> success
              then do {
                add_err grp dataId;
                (case perr of
                   None \<Rightarrow> ret Panic
                 | Some e \<Rightarrow> do {
                     set_status K grp dataId [] ''server'' False
                       (''publish Config to nacos server error: '' @ ErrorText e);
                     ret (Ok False) }) }
              else do {
                set_status K grp dataId (CalcMd5 localContent) ''config'' True [];
                ret (Ok True) }) }
           else ret (Ok True)) })
   }"

definition sync_data_id ::
  "'s Kube \<Rightarrow> 's NacosConfigClient \<Rightarrow> string \<Rightarrow> Server2ClusterCallback \<Rightarrow> string \<Rightarrow>
   ((ObjectReferenceWrapper, 's) handler, unit outcome) state" where
  "sync_data_id K C grp cb dataId =
     bindO (reconcile_data_id K C grp dataId) (\<lambda>go.
       if go then listen_data_id K C grp dataId cb else ret (Ok ()))"

definition ref_group :: "ObjectReference \<Rightarrow> string" where
  "ref_group ref = ToLower (or_Kind ref) @ ''.'' @ or_Name ref"

definition sync_wrapper ::
  "'s Kube \<Rightarrow> 's NacosConfigClient \<Rightarrow> ObjectReference \<Rightarrow>
   ((ObjectReferenceWrapper, 's) handler, unit outcome) state" where
  "sync_wrapper K C objectRef = do {
     keys \<leftarrow> on_obj (Wrapper_GetAllKeys K);
     (case keys of
        Inl err \<Rightarrow> ret (Ok ())
      | Inr dataIds \<Rightarrow> do {
          dc \<leftarrow> gets h_dc;
          let cb = NewDefaultServer2ClusterCallback (dc_key dc) objectRef;
          bindO (for_each (sync_data_id K C (ref_group objectRef) cb) dataIds) (\<lambda>_. do {
            err \<leftarrow> on_obj (Wrapper_Flush K);
            ret (Ok ()) }) })
   }"

definition configGroupSync ::
  "'s Kube \<Rightarrow> 's NacosConfigClient \<Rightarrow> ObjectReference \<Rightarrow> ((unit, 's) handler, unit outcome) state" where
  "configGroupSync K C objectRef =
     (case NewObjectReferenceWrapper K objectRef of
        Inl err \<Rightarrow> ret (Ok ())
      | Inr objWrapper \<Rightarrow> with_wrapper objWrapper (sync_wrapper K C objectRef))"

section \<open>Leaving a server\<close>

definition old_server_param :: "DynamicConfiguration \<Rightarrow> NacosServerParam" where
  "old_server_param dc =
     \<lparr>sp_Endpoint = nst_Endpoint (sts_NacosServerStatus (dc_Status dc)),
      sp_ServerAddr = nst_ServerAddr (sts_NacosServerStatus (dc_Status dc)),
      sp_Namespace = nst_Namespace (sts_NacosServerStatus (dc_Status dc))\<rparr>"

definition cancel_param :: "DynamicConfiguration \<Rightarrow> string \<Rightarrow> string \<Rightarrow> NacosConfigParam" where
  "cancel_param dc g d =
     \<lparr>ncp_Key = dc_key dc, ncp_AuthRef = None, ncp_NacosServerParam = old_server_param dc,
      ncp_DataId = d, ncp_Group = g, ncp_Content = [], ncp_OnChange = None\<rparr>"

text \<open>The pairs the nested loops over \<^verbatim>\<open>ListenConfigs\<close> visit.\<close>

definition listened_pairs :: "DynamicConfiguration \<Rightarrow> (string \<times> string) list" where
  "listened_pairs dc = concat (map (\<lambda>(g, ds). map (Pair g) ds) (dc_ListenConfigs dc))"

definition CleanOldNacosConfig ::
  "'s NacosConfigClient \<Rightarrow> DynamicConfiguration \<Rightarrow> ('s, go_error option) state" where
  "CleanOldNacosConfig C dc = do {
     r \<leftarrow> for_until_err (\<lambda>(g, d). CancelListenConfig C (cancel_param dc g d)) (listened_pairs dc);
     (case r of
        Some err \<Rightarrow> ret (Some err)
      | None \<Rightarrow> do {
          _ \<leftarrow> CloseClient C (cancel_param dc [] []);
          ret None })
   }"

section \<open>All groups\<close>

definition cm_ref :: "ConfigMap \<Rightarrow> ObjectReference" where
  "cm_ref cm = \<lparr>or_Kind = om_Kind (cm_Meta cm), or_Namespace = om_Namespace (cm_Meta cm),
     or_Name = om_Name (cm_Meta cm), or_APIVersion = om_APIVersion (cm_Meta cm)\<rparr>"

definition secret_ref :: "Secret \<Rightarrow> ObjectReference" where
  "secret_ref x = \<lparr>or_Kind = om_Kind (sec_Meta x), or_Namespace = om_Namespace (sec_Meta x),
     or_Name = om_Name (sec_Meta x), or_APIVersion = om_APIVersion (sec_Meta x)\<rparr>"

text \<open>The references of all ConfigMaps and Secrets of the namespace.\<close>

definition list_refs :: "'s Kube \<Rightarrow> string \<Rightarrow> ('s, go_error + ObjectReference list) state" where
  "list_refs K ns = do {
     cms \<leftarrow> Client_ListConfigMaps K ns;
     (case cms of
        Inl err \<Rightarrow> ret (Inl err)
      | Inr configMaps \<Rightarrow> do {
          secs \<leftarrow> Client_ListSecrets K ns;
          (case secs of
             Inl err \<Rightarrow> ret (Inl err)
           | Inr secrets \<Rightarrow> ret (Inr (map cm_ref configMaps @ map secret_ref secrets))) })
   }"

text \<open>The references of the specification, in the namespace of the resource.\<close>

definition spec_refs :: "DynamicConfiguration \<Rightarrow> ObjectReference list" where
  "spec_refs dc = map (\<lambda>ref. ref\<lparr>or_Namespace := dc_Namespace dc\<rparr>) (object_refs dc)"

definition sync_result :: "string list \<Rightarrow> go_error option" where
  "sync_result errs =
     (if length errs > 0 then Some (ErrOther (''sync Config error: '' @ Join errs '','')) else None)"

definition finish_sync :: "((unit, 's) handler, go_error option outcome) state" where
  "finish_sync = do {
     on_dc UpdateDynamicConfigurationStatus;
     errs \<leftarrow> gets h_errs;
     ret (Ok (sync_result errs))
   }"

definition syncNew ::
  "'s Kube \<Rightarrow> 's NacosConfigClient \<Rightarrow> ((unit, 's) handler, go_error option outcome) state" where
  "syncNew K C = do {
     dc \<leftarrow> gets h_dc;
     got \<leftarrow> (if ss_SyncScope (dc_Strategy dc) = SyncScopeFull then in_world (list_refs K (dc_Namespace dc))
            else if ss_SyncScope (dc_Strategy dc) = SyncScopePartial then ret (Inr (spec_refs dc))
            else ret (Inr []));
     (case got of
        Inl err \<Rightarrow> ret (Ok (Some err))
      | Inr objectRefs \<Rightarrow> do {
          modify (\<lambda>h. h\<lparr>h_errs := []\<rparr>);
          bindO (for_each (configGroupSync K C) objectRefs) (\<lambda>_. finish_sync) })
   }"

text \<open>Leaving the old server, then starting over (lines 345 to 350 and their copies).\<close>

definition resync ::
  "'s Kube \<Rightarrow> 's NacosConfigClient \<Rightarrow> ((unit, 's) handler, go_error option outcome) state" where
  "resync K C = do {
     dc \<leftarrow> gets h_dc;
     r \<leftarrow> in_world (CleanOldNacosConfig C dc);
     (case r of
        Some err \<Rightarrow> ret (Ok (Some err))
      | None \<Rightarrow> do {
          on_dc CleanDynamicConfigurationStatus;
          syncNew K C })
   }"

definition syncFull2Full ::
  "'s Kube \<Rightarrow> 's NacosConfigClient \<Rightarrow> ((unit, 's) handler, go_error option outcome) state" where
  "syncFull2Full K C = do {
     dc \<leftarrow> gets h_dc;
     (if \<not> checkNacosServerChange dc then ret (Ok None) else resync K C)
   }"

definition ref_map :: "ObjectReference list \<Rightarrow> (string, ObjectReference) gomap" where
  "ref_map refs = fold (\<lambda>ref m. mput (ref_group ref) ref m) refs []"

text \<open>Lines 402 to 421: stop listening to the groups that are no longer wanted.\<close>

definition drop_group :: "string \<Rightarrow> DynamicConfiguration \<Rightarrow> DynamicConfiguration" where
  "drop_group g dc = set_ListenConfigs (mdel g (dc_ListenConfigs dc)) (set_SyncStatuses (mdel g (dc_SyncStatuses dc)) dc)"

definition prune_group ::
  "'s NacosConfigClient \<Rightarrow> (string, ObjectReference) gomap \<Rightarrow> string \<Rightarrow> ((unit, 's) handler, unit outcome) state" where
  "prune_group C refs g =
     (if mget refs g \<noteq> None then ret (Ok ())
      else do {
        dc \<leftarrow> gets h_dc;
        bindO (for_each (\<lambda>d. do { err \<leftarrow> in_world (CancelListenConfig C (cancel_param dc g d)); ret (Ok ()) })
                 (mget0 [] (dc_ListenConfigs dc) g)) (\<lambda>_. do {
          on_dc (drop_group g);
          ret (Ok ()) }) })"

text \<open>Lines 423 to 436: synchronise the wanted groups that are not listened to.\<close>

definition sync_missing ::
  "'s Kube \<Rightarrow> 's NacosConfigClient \<Rightarrow> string \<times> ObjectReference \<Rightarrow> ((unit, 's) handler, unit outcome) state" where
  "sync_missing K C e = do {
     dc \<leftarrow> gets h_dc;
     (if mget (dc_ListenConfigs dc) (fst e) \<noteq> None then ret (Ok ()) else configGroupSync K C (snd e))
   }"

type_synonym range_order = "(string, ObjectReference) gomap \<Rightarrow> (string \<times> ObjectReference) list"

definition sync_changes ::
  "'s Kube \<Rightarrow> 's NacosConfigClient \<Rightarrow> range_order \<Rightarrow> ObjectReference list \<Rightarrow>
   ((unit, 's) handler, go_error option outcome) state" where
  "sync_changes K C rng refs = do {
     dc \<leftarrow> gets h_dc;
     bindO (for_each (prune_group C (ref_map refs)) (mkeys (dc_ListenConfigs dc))) (\<lambda>_. do {
       modify (\<lambda>h. h\<lparr>h_errs := []\<rparr>);
       bindO (for_each (sync_missing K C) (rng (ref_map refs))) (\<lambda>_. finish_sync) })
   }"

definition syncPartial2Full ::
  "'s Kube \<Rightarrow> 's NacosConfigClient \<Rightarrow> range_order \<Rightarrow> ((unit, 's) handler, go_error option outcome) state" where
  "syncPartial2Full K C rng = do {
     dc \<leftarrow> gets h_dc;
     (if checkNacosServerChange dc then resync K C
      else do {
        got \<leftarrow> in_world (list_refs K (dc_Namespace dc));
        (case got of
           Inl err \<Rightarrow> ret (Ok (Some err))
         | Inr refs \<Rightarrow> sync_changes K C rng refs) })
   }"

definition syncPartial2Partial ::
  "'s Kube \<Rightarrow> 's NacosConfigClient \<Rightarrow> range_order \<Rightarrow> ((unit, 's) handler, go_error option outcome) state" where
  "syncPartial2Partial K C rng = do {
     dc \<leftarrow> gets h_dc;
     (if checkNacosServerChange dc then resync K C else sync_changes K C rng (spec_refs dc))
   }"

definition syncFull2Partial ::
  "'s Kube \<Rightarrow> 's NacosConfigClient \<Rightarrow> range_order \<Rightarrow> ((unit, 's) handler, go_error option outcome) state" where
  "syncFull2Partial K C rng = syncPartial2Partial K C rng"

definition syncFull ::
  "'s Kube \<Rightarrow> 's NacosConfigClient \<Rightarrow> range_order \<Rightarrow> ((unit, 's) handler, go_error option outcome) state" where
  "syncFull K C rng = do {
     dc \<leftarrow> gets h_dc;
     let historySyncScope = ss_SyncScope (sts_SyncStrategyStatus (dc_Status dc));
     (if historySyncScope = [] then syncNew K C
      else if historySyncScope = SyncScopeFull then syncFull2Full K C
      else if historySyncScope = SyncScopePartial then syncPartial2Full K C rng
      else ret (Ok None))
   }"

definition syncPartial ::
  "'s Kube \<Rightarrow> 's NacosConfigClient \<Rightarrow> range_order \<Rightarrow> ((unit, 's) handler, go_error option outcome) state" where
  "syncPartial K C rng = do {
     dc \<leftarrow> gets h_dc;
     let historySyncScope = ss_SyncScope (sts_SyncStrategyStatus (dc_Status dc));
     (if historySyncScope = [] then syncNew K C
      else if historySyncScope = SyncScopeFull then syncFull2Partial K C rng
      else if historySyncScope = SyncScopePartial then syncPartial2Partial K C rng
      else ret (Ok None))
   }"

section \<open>Discovering configurations on the server\<close>

record FuzzyPattern =
  fp_Group :: string
  fp_DataId :: string

definition fuzzy_patterns :: "DynamicConfiguration \<Rightarrow> FuzzyPattern list" where
  "fuzzy_patterns dc =
     (if ss_SyncScope (dc_Strategy dc) = SyncScopeFull
      then [\<lparr>fp_Group = ''configmap.*'', fp_DataId = ''*''\<rparr>, \<lparr>fp_Group = ''secret.*'', fp_DataId = ''*''\<rparr>]
      else if ss_SyncScope (dc_Strategy dc) = SyncScopePartial
      then map (\<lambda>ref. \<lparr>fp_Group = ToLower (or_Kind ref) @ ''.'' @ or_Name ref, fp_DataId = ''*''\<rparr>) (object_refs dc)
      else [])"

definition search_param :: "DynamicConfiguration \<Rightarrow> FuzzyPattern \<Rightarrow> int \<Rightarrow> SearchConfigParam" where
  "search_param dc p pageNo =
     \<lparr>scp_Key = dc_key dc, scp_AuthRef = ns_AuthRef (dc_NacosServer dc),
      scp_NacosServerParam = server_param dc, scp_DataId = fp_DataId p, scp_Group = fp_Group p,
      scp_PageNo = pageNo, scp_PageSize = 20\<rparr>"

text \<open>
  The loop over the pages of one pattern.  It goes on while pages are full, so it may not end: \<open>None\<close>
  is running out of the given number of pages.
\<close>

fun search_pages ::
  "nat \<Rightarrow> 's NacosConfigClient \<Rightarrow> DynamicConfiguration \<Rightarrow> FuzzyPattern \<Rightarrow> int \<Rightarrow> ConfigItem list \<Rightarrow>
   ('s, ConfigItem list option) state" where
  "search_pages 0 C dc p pageNo acc = ret None"
| "search_pages (Suc n) C dc p pageNo acc = do {
     (configPage, err) \<leftarrow> SearchConfigs C (search_param dc p pageNo);
     (case (err, configPage) of
        (None, Some page) \<Rightarrow>
          (case cp_PageItems page of
             None \<Rightarrow> ret (Some acc)
           | Some items \<Rightarrow>
               if length items = 20 then search_pages n C dc p (pageNo + 1) (acc @ items)
               else ret (Some (acc @ items)))
      | _ \<Rightarrow> ret (Some acc))
   }"

fun search_patterns ::
  "nat \<Rightarrow> 's NacosConfigClient \<Rightarrow> DynamicConfiguration \<Rightarrow> FuzzyPattern list \<Rightarrow> ConfigItem list \<Rightarrow>
   ('s, ConfigItem list option) state" where
  "search_patterns n C dc [] acc = ret (Some acc)"
| "search_patterns n C dc (p # ps) acc = do {
     r \<leftarrow> search_pages n C dc p 1 acc;
     (case r of None \<Rightarrow> ret None | Some acc' \<Rightarrow> search_patterns n C dc ps acc')
   }"

text \<open>Lines 180 to 191: the object a group names; \<open>None\<close> is the index out of range.\<close>

definition group_ref :: "DynamicConfiguration \<Rightarrow> string \<Rightarrow> ObjectReference option" where
  "group_ref dc g =
     (let parts = Split g ''.'';
          kind = parts ! 0;
          kind' = (if kind = ''configmap'' then ''ConfigMap'' else if kind = ''secret'' then ''Secret'' else kind)
      in if length parts \<le> 1 then None
         else Some \<lparr>or_Kind = kind', or_Namespace = dc_Namespace dc, or_Name = parts ! 1, or_APIVersion = ''v1''\<rparr>)"

definition adopt_item ::
  "'s Kube \<Rightarrow> DynamicConfiguration \<Rightarrow> ConfigItem \<Rightarrow> ('s, unit outcome) state" where
  "adopt_item K dc item =
     (if Contains (mget0 [] (dc_ListenConfigs dc) (ci_Group item)) (ci_DataId item) then ret (Ok ())
      else (case group_ref dc (ci_Group item) of
        None \<Rightarrow> ret Panic
      | Some objectRef \<Rightarrow>
          (case NewObjectReferenceWrapper K objectRef of
             Inl err \<Rightarrow> ret (Ok ())
           | Inr objWrapper \<Rightarrow> local_var objWrapper (do {
               got \<leftarrow> Wrapper_GetContentLatest K (ci_DataId item);
               let content = (case got of Inl _ \<Rightarrow> [] | Inr (c, _) \<Rightarrow> c);
               (if length content > 0 then ret (Ok ())
                else do {
                  err \<leftarrow> Wrapper_StoreContentLatest K (ci_DataId item) (ci_Content item);
                  ret (Ok ()) }) }))))"

text \<open>The result is \<open>None\<close> when the pages run out, else whether it panicked or what it returns.\<close>

definition FuzzyListen ::
  "'s Kube \<Rightarrow> 's NacosConfigClient \<Rightarrow> nat \<Rightarrow> NamespacedName \<Rightarrow> ('s, go_error option outcome option) state" where
  "FuzzyListen K C n dcKey = do {
     got \<leftarrow> Client_GetDC K dcKey;
     (case got of
        Inl err \<Rightarrow> ret (Some (Ok (Some err)))
      | Inr dc \<Rightarrow> do {
          r \<leftarrow> search_patterns n C dc (fuzzy_patterns dc) [];
          (case r of
             None \<Rightarrow> ret None
           | Some checkConfigList \<Rightarrow> do {
               res \<leftarrow> for_each (adopt_item K dc) checkConfigList;
               ret (Some (case res of Panic \<Rightarrow> Panic | Ok _ \<Rightarrow> Ok None)) }) })
   }"

section \<open>The tasks\<close>

text \<open>
  \<open>fz_map\<close> is \<^verbatim>\<open>fuzzyListenMap\<close>; a task is its key and its stop channel.  \<open>fz_running\<close> are the
  tasks whose loop (\<^verbatim>\<open>start\<close>) has not returned, \<open>fz_stops\<close> the channels on which a \<^verbatim>\<open>stop\<close> is waiting
  to send.
\<close>

record FuzzyListenTask =
  ft_dcKey :: NamespacedName
  ft_stopSignal :: nat

record fuzzy =
  fz_map :: "(string, FuzzyListenTask) gomap"
  fz_next :: nat
  fz_running :: "FuzzyListenTask list"
  fz_stops :: "nat list"

definition fuzzy_key :: "DynamicConfiguration \<Rightarrow> string" where
  "fuzzy_key dc = dc_Namespace dc @ ''-'' @ dc_Name dc"

definition FuzzyListenConfig :: "DynamicConfiguration \<Rightarrow> fuzzy \<Rightarrow> fuzzy" where
  "FuzzyListenConfig dc z =
     (case mget (fz_map z) (fuzzy_key dc) of
        Some _ \<Rightarrow> z
      | None \<Rightarrow>
          (let task = \<lparr>ft_dcKey = dc_key dc, ft_stopSignal = fz_next z\<rparr> in
           z\<lparr>fz_map := mput (fuzzy_key dc) task (fz_map z), fz_next := Suc (fz_next z),
             fz_running := task # fz_running z\<rparr>))"

definition task_stop :: "FuzzyListenTask \<Rightarrow> fuzzy \<Rightarrow> fuzzy" where
  "task_stop task z = z\<lparr>fz_stops := ft_stopSignal task # fz_stops z\<rparr>"

text \<open>The end of \<^verbatim>\<open>Finalize\<close> (lines 250 to 259).\<close>

definition stop_fuzzy :: "DynamicConfiguration \<Rightarrow> fuzzy \<Rightarrow> fuzzy" where
  "stop_fuzzy dc z =
     (case mget (fz_map z) (fuzzy_key dc) of
        Some task \<Rightarrow> (task_stop task z)\<lparr>fz_map := mdel (fuzzy_key dc) (fz_map z)\<rparr>
      | None \<Rightarrow> z)"

text \<open>What the loop of a running task does: a turn, its end after an error or with the context, its
  end by the stop signal; beside the reconciler's calls.\<close>

inductive fuzzy_step :: "fuzzy \<Rightarrow> fuzzy \<Rightarrow> bool" where
  fz_start: "fuzzy_step z (FuzzyListenConfig dc z)"
| fz_finalize: "fuzzy_step z (stop_fuzzy dc z)"
| fz_turn: "t \<in> set (fz_running z) \<Longrightarrow> fuzzy_step z z"
| fz_turn_failed: "t \<in> set (fz_running z) \<Longrightarrow> fuzzy_step z (z\<lparr>fz_running := removeAll t (fz_running z)\<rparr>)"
| fz_context_done: "t \<in> set (fz_running z) \<Longrightarrow> fuzzy_step z (z\<lparr>fz_running := removeAll t (fz_running z)\<rparr>)"
| fz_stopped: "t \<in> set (fz_running z) \<Longrightarrow> ft_stopSignal t \<in> set (fz_stops z) \<Longrightarrow>
    fuzzy_step z (z\<lparr>fz_running := removeAll t (fz_running z), fz_stops := remove1 (ft_stopSignal t) (fz_stops z)\<rparr>)"

definition no_tasks :: fuzzy where
  "no_tasks = \<lparr>fz_map = [], fz_next = 0, fz_running = [], fz_stops = []\<rparr>"

section \<open>The entry points\<close>

definition SyncDynamicConfiguration ::
  "'s Kube \<Rightarrow> 's NacosConfigClient \<Rightarrow> range_order \<Rightarrow>
   (fuzzy \<times> (unit, 's) handler, go_error option outcome) state" where
  "SyncDynamicConfiguration K C rng = do {
     dc \<leftarrow> gets (\<lambda>(_, h). h_dc h);
     let scope = ss_SyncScope (dc_Strategy dc);
     (if scope \<noteq> SyncScopeFull \<and> scope \<noteq> SyncScopePartial
      then ret (Ok (Some (ErrOther (''unsupport sync scope: '' @ scope))))
      else bindO (outside (if scope = SyncScopeFull then syncFull K C rng else syncPartial K C rng)) (\<lambda>err.
        (case err of
           Some e \<Rightarrow> ret (Ok (Some e))
         | None \<Rightarrow> do {
             dc' \<leftarrow> gets (\<lambda>(_, h). h_dc h);
             modify (apfst (FuzzyListenConfig dc'));
             ret (Ok None) })))
   }"

definition DC_Finalize ::
  "'s NacosConfigClient \<Rightarrow> DynamicConfiguration \<Rightarrow> (fuzzy \<times> 's, go_error option) state" where
  "DC_Finalize C dc = do {
     r \<leftarrow> outside (CleanOldNacosConfig C dc);
     (case r of
        Some err \<Rightarrow> ret (Some err)
      | None \<Rightarrow> do {
          modify (apfst (stop_fuzzy dc));
          ret None })
   }"

section \<open>Invariants of the resource\<close>

lemma run_with_wrapper:
  "run_state (with_wrapper w m) h =
     (case run_state m \<lparr>h_world = h_world h, h_obj = w, h_dc = h_dc h, h_errs = h_errs h\<rparr> of
        (a, h') \<Rightarrow> (a, \<lparr>h_world = h_world h', h_obj = (), h_dc = h_dc h', h_errs = h_errs h'\<rparr>))"
  by (simp add: with_wrapper_def)

lemma keeps_with_wrapper [keeps_rules]:
  assumes "keeps (hinv any I) m"
  shows "keeps (hinv any I) (with_wrapper w m)"
proof (rule keepsI)
  fix h :: "(unit, 'b) handler" assume "hinv any I h"
  then have "hinv any I (exec m \<lparr>h_world = h_world h, h_obj = w, h_dc = h_dc h, h_errs = h_errs h\<rparr>)"
    by (intro keepsD [OF assms]) (simp add: hinv_def)
  then show "hinv any I (exec (with_wrapper w m) h)"
    by (auto simp: run_with_wrapper hinv_def split: prod.split)
qed

lemma keeps_reset_errs [keeps_rules]: "keeps (hinv P I) (modify (\<lambda>h. h\<lparr>h_errs := []\<rparr>))"
  by (rule keepsI) (simp add: hinv_def)

lemma keeps_on_dc: "(\<And>dc. I dc \<Longrightarrow> I (f dc)) \<Longrightarrow> keeps (hinv P I) (on_dc f)"
  by (rule keepsI) (simp add: hinv_def)

lemma keeps_sync_data_id:
  "group_inv g I \<Longrightarrow> keeps (hinv any I) (sync_data_id K C g cb d)"
  unfolding sync_data_id_def reconcile_data_id_def Let_def by (intro keeps_rules)

lemma keeps_configGroupSync:
  "group_inv (ref_group ref) I \<Longrightarrow> keeps (hinv any I) (configGroupSync K C ref)"
  unfolding configGroupSync_def sync_wrapper_def Let_def
  by (intro keeps_rules keeps_sync_data_id)

text \<open>Properties every write of the controller keeps.\<close>

definition sync_inv :: "(DynamicConfiguration \<Rightarrow> bool) \<Rightarrow> bool" where
  "sync_inv I \<longleftrightarrow> (\<forall>g. group_inv g I) \<and>
     (\<forall>dc. I dc \<longrightarrow> I (UpdateDynamicConfigurationStatus dc) \<and> I (CleanDynamicConfigurationStatus dc) \<and>
        (\<forall>g. I (drop_group g dc)))"

lemma drop_group_frame [simp]:
  "dc_Spec (drop_group g dc) = dc_Spec dc" "dc_Meta (drop_group g dc) = dc_Meta dc"
  "dc_ListenConfigs (drop_group g dc) = mdel g (dc_ListenConfigs dc)"
  "dc_SyncStatuses (drop_group g dc) = mdel g (dc_SyncStatuses dc)"
  by (simp_all add: drop_group_def)

lemma sync_inv_wf: "sync_inv wf_status"
proof -
  have "wf_status (drop_group g dc)" if "wf_status dc" for g dc
    using that by (simp add: wf_status_def gomap distinct_delete)
  then show ?thesis by (simp add: sync_inv_def group_inv_wf)
qed

lemma sync_inv_identity: "sync_inv (\<lambda>dc. dc_Spec dc = sp \<and> dc_Meta dc = m)"
  by (simp add: sync_inv_def group_inv_def UpdateDynamicConfigurationStatus_def CleanDynamicConfigurationStatus_def)

lemma keeps_finish_sync: "sync_inv I \<Longrightarrow> keeps (hinv any I) finish_sync"
  unfolding finish_sync_def by (intro keeps_rules keeps_on_dc) (simp add: sync_inv_def)

lemma keeps_syncNew: "sync_inv I \<Longrightarrow> keeps (hinv any I) (syncNew K C)"
  unfolding syncNew_def by (intro keeps_rules keeps_configGroupSync keeps_finish_sync) (simp_all add: sync_inv_def)

lemma keeps_resync: "sync_inv I \<Longrightarrow> keeps (hinv any I) (resync K C)"
  unfolding resync_def by (intro keeps_rules keeps_on_dc keeps_syncNew) (simp_all add: sync_inv_def)

lemma keeps_prune_group:
  "(\<And>dc. I dc \<Longrightarrow> I (drop_group g dc)) \<Longrightarrow> keeps (hinv any I) (prune_group C refs g)"
  unfolding prune_group_def by (intro keeps_rules keeps_on_dc)

lemma keeps_sync_missing:
  "group_inv (ref_group (snd e)) I \<Longrightarrow> keeps (hinv any I) (sync_missing K C e)"
  unfolding sync_missing_def by (intro keeps_rules keeps_configGroupSync)

lemma keeps_sync_changes: "sync_inv I \<Longrightarrow> keeps (hinv any I) (sync_changes K C rng refs)"
  unfolding sync_changes_def
  by (intro keeps_rules keeps_prune_group keeps_sync_missing keeps_finish_sync) (simp_all add: sync_inv_def)

lemma keeps_sync:
  assumes "sync_inv I"
  shows "keeps (hinv any I) (syncFull K C rng)" "keeps (hinv any I) (syncPartial K C rng)"
proof -
  have parts: "keeps (hinv any I) (syncFull2Full K C)" "keeps (hinv any I) (syncPartial2Full K C rng)"
    "keeps (hinv any I) (syncPartial2Partial K C rng)"
    unfolding syncFull2Full_def syncPartial2Full_def syncPartial2Partial_def
    by (intro keeps_rules keeps_resync keeps_sync_changes assms)+
  then show "keeps (hinv any I) (syncFull K C rng)" "keeps (hinv any I) (syncPartial K C rng)"
    unfolding syncFull_def syncPartial_def syncFull2Partial_def Let_def
    by (intro keeps_rules keeps_syncNew assms parts)+
qed

text \<open>The handler part of the state of \<open>SyncDynamicConfiguration\<close>.\<close>

lemma keeps_outside: "keeps J m \<Longrightarrow> keeps (\<lambda>(z, h). J h) (outside m)"
  by (auto simp: keeps_def split: prod.split)

lemma keeps_SyncDynamicConfiguration:
  assumes "sync_inv I"
  shows "keeps (\<lambda>(z, h). hinv any I h) (SyncDynamicConfiguration K C rng)"
proof -
  have fz: "keeps (\<lambda>(z, h). hinv any I h) (modify (apfst f))" for f
    by (rule keepsI) auto
  show ?thesis
    unfolding SyncDynamicConfiguration_def Let_def
    by (intro keeps_rules fz keeps_outside keeps_sync [OF assms] keeps_if)
qed

text \<open>
  C18: synchronising a DynamicConfiguration keeps its status well-formed on every path, errors and
  panics included, and changes neither its specification nor its metadata.
\<close>

theorem sync_dc_invariant:
  assumes "wf_status (h_dc h)"
  shows "wf_status (h_dc (snd (exec (SyncDynamicConfiguration K C rng) (z, h)))) \<and>
    dc_Spec (h_dc (snd (exec (SyncDynamicConfiguration K C rng) (z, h)))) = dc_Spec (h_dc h) \<and>
    dc_Meta (h_dc (snd (exec (SyncDynamicConfiguration K C rng) (z, h)))) = dc_Meta (h_dc h)"
proof -
  obtain z' h' where run: "exec (SyncDynamicConfiguration K C rng) (z, h) = (z', h')" by (metis surj_pair)
  show ?thesis
    using keepsD [OF keeps_SyncDynamicConfiguration [OF sync_inv_wf], of "(z, h)" K C rng] assms
      keepsD [OF keeps_SyncDynamicConfiguration [OF sync_inv_identity [of "dc_Spec (h_dc h)" "dc_Meta (h_dc h)"]],
        of "(z, h)" K C rng]
    by (simp add: run hinv_def)
qed

section \<open>The groups listened to are the wanted ones\<close>

definition listens_within :: "(string, ObjectReference) gomap \<Rightarrow> DynamicConfiguration \<Rightarrow> bool" where
  "listens_within refs dc \<longleftrightarrow> (\<forall>g. mget (dc_ListenConfigs dc) g \<noteq> None \<longrightarrow> mget refs g \<noteq> None)"

lemma group_inv_within: "mget refs g \<noteq> None \<Longrightarrow> group_inv g (listens_within refs)"
  by (auto simp: group_inv_def listens_within_def AddListenConfig_def Let_def gomap)

lemma ref_map_fold:
  "mget (fold (\<lambda>ref m. mput (ref_group ref) ref m) refs m) g = Some ref \<Longrightarrow>
   (ref \<in> set refs \<and> ref_group ref = g) \<or> mget m g = Some ref"
proof (induction refs arbitrary: m)
  case (Cons a refs)
  then have "(ref \<in> set refs \<and> ref_group ref = g) \<or> mget (mput (ref_group a) a m) g = Some ref" by simp
  then show ?case by (auto simp: gomap split: if_splits)
qed simp

lemma ref_map_Some: "mget (ref_map refs) g = Some ref \<Longrightarrow> ref \<in> set refs \<and> ref_group ref = g"
  using ref_map_fold [of refs "[]" g ref] by (simp add: ref_map_def)

lemma ref_map_distinct: "distinct (mkeys (ref_map refs))"
proof -
  have "distinct (mkeys m) \<Longrightarrow> distinct (mkeys (fold (\<lambda>ref m. mput (ref_group ref) ref m) refs m))" for m
    by (induction refs arbitrary: m) (auto simp: distinct_update)
  then show ?thesis by (simp add: ref_map_def)
qed

text \<open>A group outside the map is gone once visited, and nothing brings one back.\<close>

lemma prune_establishes:
  assumes "run_state (prune_group C refs g) h = (Ok (), h')"
  shows "mget (dc_ListenConfigs (h_dc h')) g = None \<or> mget refs g \<noteq> None"
proof (cases "mget refs g")
  case None
  then obtain h1 where "h' = exec (on_dc (drop_group g)) h1"
    using assms by (auto simp: prune_group_def run_bindO split: prod.splits outcome.splits)
  then show ?thesis by (simp add: gomap)
qed simp

lemma prune_all:
  assumes "run_state (for_each (prune_group C refs) (mkeys (dc_ListenConfigs (h_dc h)))) h = (Ok (), h1)"
  shows "listens_within refs (h_dc h1)"
proof -
  let ?none = "\<lambda>g dc. mget (dc_ListenConfigs dc) g = None"
  have stay: "keeps (hinv any (?none g)) (prune_group C refs x)" for g x
    by (rule keeps_prune_group) (simp add: gomap)
  have visited: "\<forall>g\<in>set (mkeys (dc_ListenConfigs (h_dc h))).
      hinv any (?none g) h1 \<or> mget refs g \<noteq> None"
  proof (rule for_each_establishes [where I = any, OF _ _ _ assms])
    show "hinv any (?none g) t' \<or> mget refs g \<noteq> None"
      if "run_state (prune_group C refs g) t = (Ok (), t')" for g t t'
      using prune_establishes [OF that] by (simp add: hinv_def)
    show "keeps (\<lambda>h. hinv any (?none g) h \<or> mget refs g \<noteq> None) (prune_group C refs x)" for g x
      by (intro keeps_disj stay) (simp add: keeps_def)
  qed (simp_all add: keeps_def)
  have "mget refs g \<noteq> None" if "mget (dc_ListenConfigs (h_dc h1)) g \<noteq> None" for g
  proof (cases "g \<in> set (mkeys (dc_ListenConfigs (h_dc h)))")
    case True
    then show ?thesis using visited that by (auto simp: hinv_def)
  next
    case False
    then have "hinv any (?none g) h" by (simp add: hinv_def map_of_eq_None_iff)
    moreover have "keeps (hinv any (?none g)) (for_each (prune_group C refs) (mkeys (dc_ListenConfigs (h_dc h))))"
      by (intro keeps_rules stay)
    ultimately have "hinv any (?none g) h1"
      using assms keepsD by (metis snd_conv)
    then show ?thesis using that by (simp add: hinv_def)
  qed
  then show ?thesis by (simp add: listens_within_def)
qed

lemma keeps_for_each_mem:
  "(\<And>x. x \<in> set xs \<Longrightarrow> keeps J (f x)) \<Longrightarrow> keeps J (for_each f xs)"
  by (induction xs) (auto intro: keeps_rules)

lemma sync_changes_within:
  assumes "set (rng (ref_map refs)) \<subseteq> set (ref_map refs)"
    "run_state (sync_changes K C rng refs) h = (Ok r, h')"
  shows "listens_within (ref_map refs) (h_dc h')"
proof -
  obtain h1 where h1: "run_state (for_each (prune_group C (ref_map refs)) (mkeys (dc_ListenConfigs (h_dc h)))) h = (Ok (), h1)"
    and rest: "run_state (bindO (for_each (sync_missing K C) (rng (ref_map refs))) (\<lambda>_. finish_sync)) (h1\<lparr>h_errs := []\<rparr>)
      = (Ok r, h')"
    using assms(2) by (auto simp: sync_changes_def run_bindO [of "for_each (prune_group C (ref_map refs)) xs" for xs]
        split: prod.splits outcome.splits)
  have "keeps (hinv any (listens_within (ref_map refs))) (sync_missing K C e)" if "e \<in> set (rng (ref_map refs))" for e
  proof -
    have e: "mget (ref_map refs) (fst e) = Some (snd e)"
      using that assms(1) ref_map_distinct mget_Some_iff by (metis prod.collapse subsetD)
    then show ?thesis
      using ref_map_Some [OF e] by (intro keeps_sync_missing group_inv_within) simp
  qed
  then have "keeps (hinv any (listens_within (ref_map refs)))
      (bindO (for_each (sync_missing K C) (rng (ref_map refs))) (\<lambda>_. finish_sync))"
    unfolding finish_sync_def
    by (intro keeps_rules keeps_for_each_mem keeps_on_dc)
       (simp_all add: listens_within_def UpdateDynamicConfigurationStatus_def)
  from keepsD [OF this, of "h1\<lparr>h_errs := []\<rparr>"] show ?thesis
    using prune_all [OF h1] rest by (simp add: hinv_def)
qed

lemma listened_pairs_iff:
  assumes "wf_status dc"
  shows "(g, d) \<in> set (listened_pairs dc) \<longleftrightarrow> listens dc g d"
proof -
  have "distinct (mkeys (dc_ListenConfigs dc))" using assms by (simp add: wf_status_def)
  then have "(g, ds) \<in> set (dc_ListenConfigs dc) \<longleftrightarrow> mget (dc_ListenConfigs dc) g = Some ds" for ds
    by (simp add: mget_Some_iff)
  then have "(g, d) \<in> set (listened_pairs dc) \<longleftrightarrow> (\<exists>ds. mget (dc_ListenConfigs dc) g = Some ds \<and> d \<in> set ds)"
    by (auto simp: listened_pairs_def)
  then show ?thesis by (auto simp: listens_def mget0_def split: option.split)
qed

text \<open>Which groups are wanted, and what is listened to in the others, in the order the loops visit it.\<close>

definition wanted_groups :: "DynamicConfiguration \<Rightarrow> string set" where
  "wanted_groups dc = ref_group ` set (object_refs dc)"

definition unwanted_pairs :: "DynamicConfiguration \<Rightarrow> (string \<times> string) list" where
  "unwanted_pairs dc = filter (\<lambda>(g, d). g \<notin> wanted_groups dc) (listened_pairs dc)"

lemma ref_map_None: "mget (ref_map refs) g = None \<longleftrightarrow> g \<notin> ref_group ` set refs"
proof -
  have "mget (fold (\<lambda>ref m. mput (ref_group ref) ref m) refs m) g = None \<longleftrightarrow> mget m g = None \<and> g \<notin> ref_group ` set refs" for m
    by (induction refs arbitrary: m) (auto simp: gomap)
  then show ?thesis by (simp add: ref_map_def)
qed

lemma wanted_ref_map: "mget (ref_map (spec_refs dc)) g = None \<longleftrightarrow> g \<notin> wanted_groups dc"
proof -
  have "ref_group (r\<lparr>or_Namespace := n\<rparr>) = ref_group r" for r n by (simp add: ref_group_def)
  then show ?thesis by (auto simp: ref_map_None wanted_groups_def spec_refs_def image_image)
qed

lemma cancel_loop:
  "run_state (for_each (\<lambda>d. do { err \<leftarrow> in_world (CancelListenConfig C (p d)); ret (Ok ()) }) ds) h =
     (Ok (), h\<lparr>h_world := fold (\<lambda>d s. exec (CancelListenConfig C (p d)) s) ds (h_world h)\<rparr>)"
  by (induction ds arbitrary: h) (simp_all add: run_bindO split: prod.split)

lemma drop_group_cancel [simp]: "cancel_param (drop_group g dc) x d = cancel_param dc x d"
  by (simp add: drop_group_def cancel_param_def dc_key_def old_server_param_def)

definition group_cancels :: "(string, ObjectReference) gomap \<Rightarrow> (string, string list) gomap \<Rightarrow> string \<Rightarrow> (string \<times> string) list" where
  "group_cancels refs L g = (if mget refs g = None then map (Pair g) (mget0 [] L g) else [])"

lemma group_cancels_drop: "x \<noteq> g \<Longrightarrow> group_cancels refs (dc_ListenConfigs (drop_group g dc)) x = group_cancels refs (dc_ListenConfigs dc) x"
  by (simp add: group_cancels_def mget0_def gomap)

lemma prune_loop:
  "distinct gs \<Longrightarrow> run_state (for_each (prune_group C refs) gs) h =
     (Ok (), h\<lparr>h_world := fold (\<lambda>(g, d) s. exec (CancelListenConfig C (cancel_param (h_dc h) g d)) s)
         (concat (map (group_cancels refs (dc_ListenConfigs (h_dc h))) gs)) (h_world h),
       h_dc := fold (\<lambda>g dc. if mget refs g = None then drop_group g dc else dc) gs (h_dc h)\<rparr>)"
proof (induction gs arbitrary: h)
  case (Cons g gs)
  show ?case
  proof (cases "mget refs g")
    case None
    let ?h = "h\<lparr>h_world := fold (\<lambda>d s. exec (CancelListenConfig C (cancel_param (h_dc h) g d)) s) (mget0 [] (dc_ListenConfigs (h_dc h)) g) (h_world h),
        h_dc := drop_group g (h_dc h)\<rparr>"
    have one: "run_state (prune_group C refs g) h = (Ok (), ?h)"
      using None cancel_loop [of C "cancel_param (h_dc h) g" "mget0 [] (dc_ListenConfigs (h_dc h)) g" h] by (simp add: prune_group_def run_bindO)
    have "map (group_cancels refs (dc_ListenConfigs (drop_group g (h_dc h)))) gs = map (group_cancels refs (dc_ListenConfigs (h_dc h))) gs"
      using Cons.prems by (intro map_cong refl group_cancels_drop) auto
    moreover have "group_cancels refs (dc_ListenConfigs (h_dc h)) g = map (Pair g) (mget0 [] (dc_ListenConfigs (h_dc h)) g)"
      using None by (simp add: group_cancels_def)
    ultimately show ?thesis
      using Cons.IH [of ?h] Cons.prems None by (simp add: run_bindO one fold_map comp_def cong: map_cong)
  next
    case (Some ref)
    then have "run_state (prune_group C refs g) h = (Ok (), h)" "group_cancels refs (dc_ListenConfigs (h_dc h)) g = []"
      by (simp_all add: prune_group_def group_cancels_def)
    then show ?thesis using Cons Some by (simp add: run_bindO)
  qed
qed simp

lemma dropped_groups:
  "mget (dc_ListenConfigs (fold (\<lambda>g dc. if mget refs g = None then drop_group g dc else dc) gs dc)) x =
     (if x \<in> set gs \<and> mget refs x = None then None else mget (dc_ListenConfigs dc) x)"
  "mget (dc_SyncStatuses (fold (\<lambda>g dc. if mget refs g = None then drop_group g dc else dc) gs dc)) x =
     (if x \<in> set gs \<and> mget refs x = None then None else mget (dc_SyncStatuses dc) x)"
  by (induction gs arbitrary: dc) (auto simp: gomap)

lemma unwanted_pairs_concat:
  assumes "distinct (mkeys (dc_ListenConfigs dc))"
  shows "concat (map (group_cancels (ref_map (spec_refs dc)) (dc_ListenConfigs dc)) (mkeys (dc_ListenConfigs dc))) = unwanted_pairs dc"
proof -
  have one: "filter (\<lambda>(g, d). g \<notin> W) (map (Pair g) ds) = (if g \<notin> W then map (Pair g) ds else [])" for W g and ds :: "string list"
    by (induction ds) auto
  have "concat (map (group_cancels (ref_map (spec_refs dc)) L) (mkeys m)) =
      filter (\<lambda>(g, d). g \<notin> wanted_groups dc) (concat (map (\<lambda>(g, ds). map (Pair g) ds) m))"
    if "\<forall>(g, ds)\<in>set m. mget0 [] L g = ds" for L and m :: "(string, string list) gomap"
    using that by (induction m) (auto simp: one group_cancels_def wanted_ref_map)
  moreover have "\<forall>(g, ds)\<in>set (dc_ListenConfigs dc). mget0 [] (dc_ListenConfigs dc) g = ds"
    using assms by (auto simp: mget0_def)
  ultimately show ?thesis by (simp add: unwanted_pairs_def listened_pairs_def)
qed

text \<open>
  C6: when a partial resource is synchronised again against the same server and the handler returns, the first thing it did was to
  cancel, at the server the status names and in turn, the listening to each data id listened to in a group that is the group of none of its
  object references, and no other; those groups were then dropped from the status, and only then the wanted groups that were not listened to were
  synchronised.  At the end every group it listens to is the group of one of its references.  A cancellation that fails is only logged:
  its group is forgotten all the same.  Any order in which the runtime visits the map of references will do.
\<close>

theorem partial_sync_listens_to_refs:
  assumes "\<And>m. set (rng m) \<subseteq> set m" "\<not> checkNacosServerChange (h_dc h)" "wf_status (h_dc h)"
    "run_state (syncPartial2Partial K C rng) h = (Ok r, h')"
  shows "(\<exists>h1. h_world h1 = fold (\<lambda>(g, d) s. exec (CancelListenConfig C (cancel_param (h_dc h) g d)) s) (unwanted_pairs (h_dc h)) (h_world h) \<and>
      (\<forall>g. mget (dc_ListenConfigs (h_dc h1)) g = (if g \<in> wanted_groups (h_dc h) then mget (dc_ListenConfigs (h_dc h)) g else None)) \<and>
      (\<forall>g. mget (dc_SyncStatuses (h_dc h1)) g =
        (if g \<notin> wanted_groups (h_dc h) \<and> mget (dc_ListenConfigs (h_dc h)) g \<noteq> None then None else mget (dc_SyncStatuses (h_dc h)) g)) \<and>
      run_state (bindO (for_each (sync_missing K C) (rng (ref_map (spec_refs (h_dc h))))) (\<lambda>_. finish_sync)) (h1\<lparr>h_errs := []\<rparr>) = (Ok r, h')) \<and>
    (\<forall>g d. (g, d) \<in> set (unwanted_pairs (h_dc h)) \<longleftrightarrow> listens (h_dc h) g d \<and> g \<notin> wanted_groups (h_dc h)) \<and>
    (\<forall>g. mget (dc_ListenConfigs (h_dc h')) g = None \<or> g \<in> wanted_groups (h_dc h))"
proof -
  let ?refs = "ref_map (spec_refs (h_dc h))" and ?gs = "mkeys (dc_ListenConfigs (h_dc h))"
  have run: "run_state (sync_changes K C rng (spec_refs (h_dc h))) h = (Ok r, h')"
    using assms(2,4) by (simp add: syncPartial2Partial_def)
  have keys: "distinct ?gs" using assms(3) by (simp add: wf_status_def)
  obtain h1 where h1: "run_state (for_each (prune_group C ?refs) ?gs) h = (Ok (), h1)"
    and rest: "run_state (bindO (for_each (sync_missing K C) (rng ?refs)) (\<lambda>_. finish_sync)) (h1\<lparr>h_errs := []\<rparr>) = (Ok r, h')"
    using run by (auto simp: sync_changes_def run_bindO [of "for_each (prune_group C ?refs) xs" for xs] split: prod.splits outcome.splits)
  have dc1: "h_dc h1 = fold (\<lambda>g dc. if mget ?refs g = None then drop_group g dc else dc) ?gs (h_dc h)"
    using h1 prune_loop [OF keys, of C ?refs h] by auto
  have in_keys: "g \<in> set ?gs \<longleftrightarrow> mget (dc_ListenConfigs (h_dc h)) g \<noteq> None" for g
    using map_of_eq_None_iff [of "dc_ListenConfigs (h_dc h)" g] by (simp del: map_of_eq_None_iff)
  have "h_world h1 = fold (\<lambda>(g, d) s. exec (CancelListenConfig C (cancel_param (h_dc h) g d)) s) (unwanted_pairs (h_dc h)) (h_world h)"
    using h1 prune_loop [OF keys, of C ?refs h] unwanted_pairs_concat [OF keys] by auto
  moreover have "mget (dc_ListenConfigs (h_dc h1)) g = (if g \<in> wanted_groups (h_dc h) then mget (dc_ListenConfigs (h_dc h)) g else None)" for g
    unfolding dc1 dropped_groups in_keys by (auto simp: wanted_ref_map)
  moreover have "mget (dc_SyncStatuses (h_dc h1)) g =
      (if g \<notin> wanted_groups (h_dc h) \<and> mget (dc_ListenConfigs (h_dc h)) g \<noteq> None then None else mget (dc_SyncStatuses (h_dc h)) g)" for g
    unfolding dc1 dropped_groups in_keys by (auto simp: wanted_ref_map)
  moreover have "listens_within ?refs (h_dc h')" using sync_changes_within run assms(1) by blast
  then have "mget (dc_ListenConfigs (h_dc h')) g = None \<or> g \<in> wanted_groups (h_dc h)" for g
    using wanted_ref_map [of "h_dc h" g] unfolding listens_within_def by blast
  moreover have "(g, d) \<in> set (unwanted_pairs (h_dc h)) \<longleftrightarrow> listens (h_dc h) g d \<and> g \<notin> wanted_groups (h_dc h)" for g d
    using listened_pairs_iff [OF assms(3)] by (simp add: unwanted_pairs_def)
  ultimately show ?thesis using rest by (intro conjI exI [of _ h1]) simp_all
qed

text \<open>The result of a cancellation is not looked at.\<close>

lemma failed_cancellation_forgotten:
  assumes "mget (ref_map refs) g = None" and "dc_ListenConfigs (h_dc h) = [(g, [d])]"
    and "run_state (CancelListenConfig C (cancel_param (h_dc h) g d)) (h_world h) = (Some err, s')"
  shows "run_state (prune_group C (ref_map refs) g) h = (Ok (), h\<lparr>h_world := s', h_dc := drop_group g (h_dc h)\<rparr>) \<and>
    \<not> listens (drop_group g (h_dc h)) g d"
  using assms by (simp add: prune_group_def run_bindO mget0_def listens_def drop_group_def)

section \<open>Repeating a full synchronisation\<close>

lemma finish_sync_records:
  "run_state finish_sync h = (Ok r, h') \<Longrightarrow>
   sts_SyncStrategyStatus (dc_Status (h_dc h')) = dc_Strategy (h_dc h') \<and> \<not> checkNacosServerChange (h_dc h')"
  by (auto simp: finish_sync_def UpdateDynamicConfigurationStatus_def checkNacosServerChange_iff)

lemma bindO_finish_records:
  "run_state (bindO m (\<lambda>_. finish_sync)) h = (Ok r, h') \<Longrightarrow>
   sts_SyncStrategyStatus (dc_Status (h_dc h')) = dc_Strategy (h_dc h') \<and> \<not> checkNacosServerChange (h_dc h')"
  using finish_sync_records by (auto simp: run_bindO split: prod.splits outcome.splits)

lemma syncNew_records:
  assumes "run_state (syncNew K C) h = (Ok None, h')"
  shows "sts_SyncStrategyStatus (dc_Status (h_dc h')) = dc_Strategy (h_dc h') \<and> \<not> checkNacosServerChange (h_dc h')"
  using assms
  by (auto simp: syncNew_def split: prod.splits sum.splits if_splits
      dest!: bindO_finish_records finish_sync_records)

lemma resync_records:
  assumes "run_state (resync K C) h = (Ok None, h')"
  shows "sts_SyncStrategyStatus (dc_Status (h_dc h')) = dc_Strategy (h_dc h') \<and> \<not> checkNacosServerChange (h_dc h')"
  using assms by (auto simp: resync_def split: prod.splits option.splits dest!: syncNew_records)

lemma sync_changes_records:
  assumes "run_state (sync_changes K C rng refs) h = (Ok None, h')"
  shows "sts_SyncStrategyStatus (dc_Status (h_dc h')) = dc_Strategy (h_dc h') \<and> \<not> checkNacosServerChange (h_dc h')"
  using assms
  by (auto simp: sync_changes_def run_bindO [of "for_each (prune_group C refs) xs" for xs refs]
      split: prod.splits outcome.splits dest!: bindO_finish_records)

text \<open>After a successful full synchronisation nothing is left to do, or the recorded scope is unknown.\<close>

lemma syncFull_settled:
  assumes "run_state (syncFull K C rng) h = (Ok None, h')" "ss_SyncScope (dc_Strategy (h_dc h')) = SyncScopeFull"
  shows "run_state (syncFull K C rng) h' = (Ok None, h')"
proof (cases "sts_SyncStrategyStatus (dc_Status (h_dc h')) = dc_Strategy (h_dc h') \<and> \<not> checkNacosServerChange (h_dc h')")
  case True
  then show ?thesis using assms(2) by (simp add: syncFull_def syncFull2Full_def Let_def dc_constants)
next
  case False
  then have "h' = h"
    using assms(1)
    by (auto simp: syncFull_def syncFull2Full_def syncPartial2Full_def Let_def
        split: if_splits prod.splits sum.splits dest: syncNew_records resync_records sync_changes_records)
  then show ?thesis using assms(1) by simp
qed

text \<open>
  C13: a full synchronisation that succeeded is idempotent: repeating it with nothing changed makes no
  call, changes no state and starts no second discovery task.
\<close>

theorem full_sync_idempotent:
  assumes "ss_SyncScope (dc_Strategy (h_dc h)) = SyncScopeFull"
    "run_state (SyncDynamicConfiguration K C rng) (z, h) = (Ok None, (z', h'))"
  shows "run_state (SyncDynamicConfiguration K C rng) (z', h') = (Ok None, (z', h'))"
proof -
  have full: "run_state (syncFull K C rng) h = (Ok None, h')" and z': "z' = FuzzyListenConfig (h_dc h') z"
    using assms by (auto simp: SyncDynamicConfiguration_def Let_def run_bindO
        split: prod.splits outcome.splits option.splits)
  have "dc_Spec (h_dc h') = dc_Spec (h_dc h)"
    using keepsD [OF keeps_sync(1) [OF sync_inv_identity [of "dc_Spec (h_dc h)" "dc_Meta (h_dc h)"]], of h K C rng] full
    by (simp add: hinv_def)
  then have scope: "ss_SyncScope (dc_Strategy (h_dc h')) = SyncScopeFull" using assms(1) by simp
  have "FuzzyListenConfig (h_dc h') z' = z'"
    unfolding z' by (simp add: FuzzyListenConfig_def Let_def gomap split: option.split)
  then show ?thesis
    using syncFull_settled [OF full scope] scope
    by (simp add: SyncDynamicConfiguration_def Let_def run_bindO)
qed

section \<open>The decision for a wrapped object\<close>

text \<open>The content that both sides have after the decision.\<close>

definition winner :: "sync_action \<Rightarrow> string \<Rightarrow> string \<Rightarrow> string" where
  "winner act server local = (case act of TakeServer \<Rightarrow> server | _ \<Rightarrow> local)"

lemma run_wrapped_StoreContent:
  "cmw_cm w = Some cm \<Longrightarrow> run_state (ConfigMapWrapper_StoreContent K d c) (w, s) =
     (None, (w\<lparr>cmw_cm := Some (fst (StoreConfigMapContent cm d c))\<rparr>, s))"
  by (simp add: cmw.wstore_cached StoreConfigMapContent_def)

lemma GetConfigMapContent_absent: "GetConfigMapContent cm d = (c, False) \<Longrightarrow> c = []"
  using object_content_absent [of "ObjConfigMap cm" d c] by simp

text \<open>
  When one side wins for a data id of a loaded ConfigMap and the handler goes on, the recorded md5
  is that of the winning content, the loaded copy holds that content (where the ConfigMap can take it),
  and if the local content won it was published, exactly, and accepted.
\<close>

theorem wrapped_sync_agrees:
  assumes w: "h_obj h = WConfigMap w" "cmw_cm w = Some cm" "configmap_accepts cm d server"
    and get: "run_state (GetConfig C (config_param (h_dc h) g d [] None)) (h_world h) = ((server, err), s1)"
    and run: "run_state (reconcile_data_id K C g d) h = (Ok True, h')"
  defines "local \<equiv> fst (GetConfigMapContent cm d)"
  defines "act \<equiv> decide (prefers_cluster (h_dc h)) server local"
  assumes act: "act \<noteq> LeaveBoth"
  shows "recorded_md5 (h_dc h') g d = CalcMd5 (winner act server local) \<and>
    (\<exists>w' cm'. h_obj h' = WConfigMap w' \<and> cmw_cm w' = Some cm' \<and>
       fst (GetConfigMapContent cm' d) = winner act server local) \<and>
    (act = PushCluster \<longrightarrow>
       run_state (PublishConfig C (config_param (h_dc h) g d local None)) s1 = ((True, None), h_world h'))"
proof -
  obtain c e where c: "GetConfigMapContent cm d = (c, e)" by (metis surj_pair)
  have ce: "e \<and> c \<noteq> [] \<longleftrightarrow> c \<noteq> []" using GetConfigMapContent_absent [of cm d c] c by (cases e) auto
  have lc: "local = c" by (simp add: local_def c)
  have stored: "GetConfigMapContent (fst (StoreConfigMapContent cm d server)) d = (server, True)"
    using w(3) by (rule cm_store.get_store_same)
  note steps = reconcile_data_id_def cmw.wget_cached [OF w(2)] run_wrapped_StoreContent [OF w(2)] Let_def w(1) c get
  show ?thesis
  proof (cases act)
    case TakeServer
    then have "server \<noteq> []" "c = [] \<or> \<not> prefers_cluster (h_dc h)"
      by (auto simp: act_def lc decide_def split: if_splits)
    then have "h' = h\<lparr>h_world := s1, h_obj := WConfigMap (w\<lparr>cmw_cm := Some (fst (StoreConfigMapContent cm d server))\<rparr>),
        h_dc := UpdateSyncStatus (h_dc h) g d (CalcMd5 server) ''server'' (Now K s1) True []\<rparr>"
      using run ce by (auto simp: steps)
    then show ?thesis using TakeServer stored by (simp add: winner_def)
  next
    case PushCluster
    then have cond: "c \<noteq> []" "e" "server = [] \<or> prefers_cluster (h_dc h)"
      using ce by (auto simp: act_def lc decide_def split: if_splits)
    obtain ok perr s2 where p: "run_state (PublishConfig C (config_param (h_dc h) g d c None)) s1 = ((ok, perr), s2)"
      by (metis surj_pair)
    have "ok \<and> perr = None"
      using run cond p by (cases perr) (auto simp: steps split: if_splits)
    moreover have "h' = h\<lparr>h_world := s2, h_dc := UpdateSyncStatus (h_dc h) g d (CalcMd5 c) ''config'' (Now K s2) True []\<rparr>"
      using run cond p calculation by (auto simp: steps)
    ultimately show ?thesis using PushCluster w(1,2) c p by (simp add: winner_def lc)
  qed (use act in simp)
qed

definition demo_wrapped :: "(ObjectReferenceWrapper, cluster) handler" where
  "demo_wrapped = \<lparr>h_world = demo_cluster False, h_obj = WConfigMap \<lparr>cmw_ObjectRef = demo_ref, cmw_cm = Some demo_cm\<rparr>,
     h_dc = demo_dc False, h_errs = []\<rparr>"

theorem wrapped_sync_agrees_witness:
  "\<exists>h'. run_state (reconcile_data_id one_cluster (demo_client ''x'') ''configmap.app'' ''k'') demo_wrapped = (Ok True, h') \<and>
     recorded_md5 (h_dc h') ''configmap.app'' ''k'' = CalcMd5 ''x''"
proof -
  have cont: "GetConfigMapContent demo_cm ''k'' = ([], True)"
    by (simp add: demo_cm_def GetConfigMapContent_def)
  obtain h' where h': "run_state (reconcile_data_id one_cluster (demo_client ''x'') ''configmap.app'' ''k'') demo_wrapped = (Ok True, h')"
    by (simp add: reconcile_data_id_def demo_wrapped_def cmw.wget_cached cmw.wstore_cached StoreConfigMapContent_def
        cont Let_def looks_like_json_def HasPrefix_def)
  have "recorded_md5 (h_dc h') ''configmap.app'' ''k'' = CalcMd5 ''x''"
    using wrapped_sync_agrees [of demo_wrapped _ demo_cm "''k''" "''x''", OF _ _ _ _ h', of _ None "demo_cluster False"]
    by (simp add: demo_wrapped_def cont decide_def winner_def configmap_accepts_def looks_like_json_def HasPrefix_def)
  then show ?thesis using h' by blast
qed

section \<open>Finalizing\<close>

lemma for_until_err_None:
  "run_state (for_until_err f xs) s = (None, s') \<Longrightarrow>
   s' = fold (\<lambda>x s. exec (f x) s) xs s \<and>
   (\<forall>i<length xs. result (f (xs ! i)) (fold (\<lambda>x s. exec (f x) s) (take i xs) s) = None)"
proof (induction xs arbitrary: s)
  case (Cons x xs)
  obtain s1 where s1: "run_state (f x) s = (None, s1)" "run_state (for_until_err f xs) s1 = (None, s')"
    using Cons.prems by (auto split: prod.splits option.splits)
  have "result (f ((x # xs) ! i)) (fold (\<lambda>x s. exec (f x) s) (take i (x # xs)) s) = None"
    if "i < length (x # xs)" for i
    using that Cons.IH [OF s1(2)] s1(1) by (cases i) auto
  then show ?case using Cons.IH [OF s1(2)] s1(1) by auto
qed simp

lemma for_until_err_Some:
  "run_state (for_until_err f xs) s = (Some e, s') \<Longrightarrow>
   \<exists>i<length xs. (\<forall>j<i. result (f (xs ! j)) (fold (\<lambda>x s. exec (f x) s) (take j xs) s) = None) \<and>
     result (f (xs ! i)) (fold (\<lambda>x s. exec (f x) s) (take i xs) s) = Some e \<and>
     s' = fold (\<lambda>x s. exec (f x) s) (take (Suc i) xs) s"
proof (induction xs arbitrary: s)
  case (Cons x xs)
  obtain r s1 where s1: "run_state (f x) s = (r, s1)" by (metis surj_pair)
  show ?case
  proof (cases r)
    case (Some err)
    then show ?thesis using Cons.prems s1 by (intro exI [of _ 0]) simp
  next
    case None
    then obtain i where i: "i < length xs"
      "\<forall>j<i. result (f (xs ! j)) (fold (\<lambda>x s. exec (f x) s) (take j xs) s1) = None"
      "result (f (xs ! i)) (fold (\<lambda>x s. exec (f x) s) (take i xs) s1) = Some e"
      "s' = fold (\<lambda>x s. exec (f x) s) (take (Suc i) xs) s1"
      using Cons.prems s1 Cons.IH [of s1] by auto
    have "result (f ((x # xs) ! j)) (fold (\<lambda>x s. exec (f x) s) (take j (x # xs)) s) = None" if "j < Suc i" for j
      using that i(2) s1 None by (cases j) auto
    then show ?thesis using i s1 by (intro exI [of _ "Suc i"]) simp
  qed
qed simp

text \<open>
  The state in which the first \<^verbatim>\<open>i\<close> of the recorded listenings were cancelled, and the error
  of the next cancellation.
\<close>

definition after_cancels :: "'s NacosConfigClient \<Rightarrow> DynamicConfiguration \<Rightarrow> nat \<Rightarrow> 's \<Rightarrow> 's" where
  "after_cancels C dc i s =
     fold (\<lambda>(g, d) s. exec (CancelListenConfig C (cancel_param dc g d)) s) (take i (listened_pairs dc)) s"

definition cancel_error :: "'s NacosConfigClient \<Rightarrow> DynamicConfiguration \<Rightarrow> nat \<Rightarrow> 's \<Rightarrow> go_error option" where
  "cancel_error C dc i s = (case listened_pairs dc ! i of (g, d) \<Rightarrow>
     result (CancelListenConfig C (cancel_param dc g d)) (after_cancels C dc i s))"

lemma CleanOldNacosConfig_cases:
  obtains (failed) i err where "i < length (listened_pairs dc)" "\<forall>j<i. cancel_error C dc j s = None"
      "cancel_error C dc i s = Some err"
      "run_state (CleanOldNacosConfig C dc) s = (Some err, after_cancels C dc (Suc i) s)"
  | (cancelled) "\<forall>i<length (listened_pairs dc). cancel_error C dc i s = None"
      "run_state (CleanOldNacosConfig C dc) s =
        (None, exec (CloseClient C (cancel_param dc [] [])) (after_cancels C dc (length (listened_pairs dc)) s))"
proof -
  let ?f = "\<lambda>(g, d). CancelListenConfig C (cancel_param dc g d)" and ?ps = "listened_pairs dc"
  have at: "after_cancels C dc i s = fold (\<lambda>x s. exec (?f x) s) (take i ?ps) s" for i
    by (simp add: after_cancels_def case_prod_unfold)
  have err: "cancel_error C dc i s = result (?f (?ps ! i)) (fold (\<lambda>x s. exec (?f x) s) (take i ?ps) s)" for i
    by (simp add: cancel_error_def at split: prod.split)
  obtain e s1 where e: "run_state (for_until_err ?f ?ps) s = (e, s1)" by (metis surj_pair)
  show thesis
  proof (cases e)
    case None
    show ?thesis
      using for_until_err_None [OF e [unfolded None]] e None
      by (intro cancelled) (simp_all add: err at CleanOldNacosConfig_def split: prod.split)
  next
    case (Some x)
    obtain i where "i < length ?ps" "\<forall>j<i. cancel_error C dc j s = None" "cancel_error C dc i s = Some x"
      "s1 = after_cancels C dc (Suc i) s"
      using for_until_err_Some [OF e [unfolded Some]] unfolding err at by blast
    then show ?thesis using e Some by (intro failed) (simp_all add: CleanOldNacosConfig_def)
  qed
qed

text \<open>
  Finalizing a resource succeeds only after the listening to each of its data ids was cancelled,
  in turn and successfully, at the server recorded in its status, and then its client closed; the
  discovery task is then out of the map with its stop signal pending.  A failed cancellation leaves
  the tasks as they were.
\<close>

theorem finalize_cancels_all:
  assumes "wf_status dc" "run_state (DC_Finalize C dc) (z, s) = (r, (z', s'))"
  shows "(\<forall>g d. (g, d) \<in> set (listened_pairs dc) \<longleftrightarrow> listens dc g d) \<and>
    (r = None \<longrightarrow>
      (\<forall>i<length (listened_pairs dc). cancel_error C dc i s = None) \<and>
      s' = exec (CloseClient C (cancel_param dc [] [])) (after_cancels C dc (length (listened_pairs dc)) s) \<and>
      z' = stop_fuzzy dc z \<and> mget (fz_map z') (fuzzy_key dc) = None \<and>
      (\<forall>t. mget (fz_map z) (fuzzy_key dc) = Some t \<longrightarrow> ft_stopSignal t \<in> set (fz_stops z'))) \<and>
    (r \<noteq> None \<longrightarrow> z' = z)"
proof -
  have pairs: "\<forall>g d. (g, d) \<in> set (listened_pairs dc) \<longleftrightarrow> listens dc g d"
    using listened_pairs_iff [OF assms(1)] by simp
  have stopped: "mget (fz_map (stop_fuzzy dc z)) (fuzzy_key dc) = None"
    "\<forall>t. mget (fz_map z) (fuzzy_key dc) = Some t \<longrightarrow> ft_stopSignal t \<in> set (fz_stops (stop_fuzzy dc z))"
    by (auto simp: stop_fuzzy_def task_stop_def gomap split: option.split)
  show ?thesis
    using assms(2) pairs stopped
    by (cases rule: CleanOldNacosConfig_cases [of dc C s]) (auto simp: DC_Finalize_def)
qed

section \<open>Discovery tasks\<close>

definition task_key :: "FuzzyListenTask \<Rightarrow> string" where
  "task_key t = nn_Namespace (ft_dcKey t) @ ''-'' @ nn_Name (ft_dcKey t)"

text \<open>
  Tasks have channels of their own; the map files a task under its key and holds no task that was told
  to stop; a running task that was not told to stop is in the map.
\<close>

definition filed_tasks :: "fuzzy \<Rightarrow> bool" where
  "filed_tasks z \<longleftrightarrow> (\<forall>k t. mget (fz_map z) k = Some t \<longrightarrow>
     k = task_key t \<and> ft_stopSignal t < fz_next z \<and> ft_stopSignal t \<notin> set (fz_stops z))"

definition filed_apart :: "fuzzy \<Rightarrow> bool" where
  "filed_apart z \<longleftrightarrow> (\<forall>k j t u. mget (fz_map z) k = Some t \<longrightarrow> mget (fz_map z) j = Some u \<longrightarrow>
     ft_stopSignal t = ft_stopSignal u \<longrightarrow> k = j)"

definition running_tasks :: "fuzzy \<Rightarrow> bool" where
  "running_tasks z \<longleftrightarrow> (\<forall>t\<in>set (fz_running z). ft_stopSignal t < fz_next z \<and>
     (ft_stopSignal t \<in> set (fz_stops z) \<or> mget (fz_map z) (task_key t) = Some t))"

definition running_apart :: "fuzzy \<Rightarrow> bool" where
  "running_apart z \<longleftrightarrow>
     (\<forall>t\<in>set (fz_running z). \<forall>u\<in>set (fz_running z). ft_stopSignal t = ft_stopSignal u \<longrightarrow> t = u)"

definition fz_ok :: "fuzzy \<Rightarrow> bool" where
  "fz_ok z \<longleftrightarrow> filed_tasks z \<and> filed_apart z \<and> running_tasks z \<and> running_apart z \<and>
     (\<forall>c\<in>set (fz_stops z). c < fz_next z)"

lemma fz_ok_no_tasks: "fz_ok no_tasks"
  by (simp add: fz_ok_def no_tasks_def filed_tasks_def filed_apart_def running_tasks_def running_apart_def)

lemma fz_ok_start:
  assumes "fz_ok z"
  shows "fz_ok (FuzzyListenConfig dc z)"
proof (cases "mget (fz_map z) (fuzzy_key dc)")
  case (Some t)
  then show ?thesis using assms by (simp add: FuzzyListenConfig_def)
next
  case None
  define t where "t = \<lparr>ft_dcKey = dc_key dc, ft_stopSignal = fz_next z\<rparr>"
  have key: "task_key t = fuzzy_key dc" "ft_stopSignal t = fz_next z"
    by (simp_all add: task_key_def fuzzy_key_def dc_key_def t_def)
  have z': "FuzzyListenConfig dc z = z\<lparr>fz_map := mput (fuzzy_key dc) t (fz_map z), fz_next := Suc (fz_next z),
      fz_running := t # fz_running z\<rparr>"
    using None by (simp add: FuzzyListenConfig_def Let_def t_def)
  have mapped: "k = task_key u \<and> ft_stopSignal u < fz_next z \<and> ft_stopSignal u \<notin> set (fz_stops z)"
    if "mget (fz_map z) k = Some u" for k u
    using assms that by (simp add: fz_ok_def filed_tasks_def)
  have run: "ft_stopSignal u < fz_next z" if "u \<in> set (fz_running z)" for u
    using assms that by (simp add: fz_ok_def running_tasks_def)
  have "fz_next z \<notin> set (fz_stops z)" using assms by (auto simp: fz_ok_def)
  then have "filed_tasks (FuzzyListenConfig dc z)"
    unfolding filed_tasks_def z' using mapped key by (simp add: gomap less_Suc_eq)
  moreover have "filed_apart (FuzzyListenConfig dc z)"
  proof -
    have ne: "ft_stopSignal u \<noteq> fz_next z" if "mget (fz_map z) k = Some u" for k u using mapped [OF that] by simp
    have old: "k = j" if "mget (fz_map z) k = Some u" "mget (fz_map z) j = Some v"
      "ft_stopSignal u = ft_stopSignal v" for k j u v
      using assms that unfolding fz_ok_def filed_apart_def by blast
    have A: "k = j" if "mget (mput (fuzzy_key dc) t (fz_map z)) k = Some u"
      "mget (mput (fuzzy_key dc) t (fz_map z)) j = Some v" "ft_stopSignal u = ft_stopSignal v" for k j u v
    proof (cases "k = fuzzy_key dc")
      case True
      then show ?thesis using that key(2) ne [of j v] by (simp add: gomap split: if_splits)
    next
      case False
      then show ?thesis using that key(2) ne [of k u] old [of k u j v] by (simp add: gomap split: if_splits)
    qed
    have map': "fz_map (FuzzyListenConfig dc z) = mput (fuzzy_key dc) t (fz_map z)" by (simp add: z')
    show ?thesis unfolding filed_apart_def map' by (intro allI impI) (erule (2) A)
  qed
  moreover have "running_tasks (FuzzyListenConfig dc z)"
    using assms None key unfolding fz_ok_def running_tasks_def z' by (auto simp: gomap less_Suc_eq)
  moreover have "running_apart (FuzzyListenConfig dc z)"
  proof -
    have ne: "ft_stopSignal u \<noteq> ft_stopSignal t" if "u \<in> set (fz_running z)" for u
      using run [OF that] key(2) by simp
    have old: "u = v" if "u \<in> set (fz_running z)" "v \<in> set (fz_running z)" "ft_stopSignal u = ft_stopSignal v" for u v
      using assms that unfolding fz_ok_def running_apart_def by fast
    have "u = v" if "u = t \<or> u \<in> set (fz_running z)" "v = t \<or> v \<in> set (fz_running z)"
      "ft_stopSignal u = ft_stopSignal v" for u v
      using that(1)
    proof
      assume "u = t"
      then show ?thesis using that(2,3) ne [of v] by metis
    next
      assume "u \<in> set (fz_running z)"
      then show ?thesis using that(2,3) ne [of u] old [of u v] by metis
    qed
    then show ?thesis unfolding running_apart_def z' by simp
  qed
  moreover have "\<forall>c\<in>set (fz_stops (FuzzyListenConfig dc z)). c < fz_next (FuzzyListenConfig dc z)"
    using assms by (auto simp: fz_ok_def z' less_Suc_eq)
  ultimately show ?thesis by (simp add: fz_ok_def)
qed

lemma fz_ok_stop:
  assumes "fz_ok z"
  shows "fz_ok (stop_fuzzy dc z)"
proof (cases "mget (fz_map z) (fuzzy_key dc)")
  case None
  then show ?thesis using assms by (simp add: stop_fuzzy_def)
next
  case (Some t)
  have z': "stop_fuzzy dc z = z\<lparr>fz_map := mdel (fuzzy_key dc) (fz_map z), fz_stops := ft_stopSignal t # fz_stops z\<rparr>"
    using Some by (simp add: stop_fuzzy_def task_stop_def)
  have apart: "ft_stopSignal u \<noteq> ft_stopSignal t" if "mget (fz_map z) k = Some u" "k \<noteq> fuzzy_key dc" for k u
    using assms that Some unfolding fz_ok_def filed_apart_def by metis
  have "filed_tasks (stop_fuzzy dc z)"
    using assms apart unfolding fz_ok_def filed_tasks_def z' by (auto simp: gomap)
  moreover have "filed_apart (stop_fuzzy dc z)"
    using assms unfolding fz_ok_def filed_apart_def z' by (simp add: gomap)
  moreover have "running_tasks (stop_fuzzy dc z)"
    using assms Some unfolding fz_ok_def running_tasks_def z' by (auto simp: gomap)
  moreover have "running_apart (stop_fuzzy dc z)"
    using assms unfolding fz_ok_def running_apart_def z' by simp
  moreover have "ft_stopSignal t < fz_next z" using assms Some by (simp add: fz_ok_def filed_tasks_def)
  then have "\<forall>c\<in>set (fz_stops (stop_fuzzy dc z)). c < fz_next (stop_fuzzy dc z)"
    using assms by (simp add: fz_ok_def z')
  ultimately show ?thesis by (simp add: fz_ok_def)
qed

lemma fz_ok_ended:
  "fz_ok z \<Longrightarrow> fz_ok (z\<lparr>fz_running := removeAll t (fz_running z)\<rparr>)"
  by (simp add: fz_ok_def filed_tasks_def filed_apart_def running_tasks_def running_apart_def)

lemma fz_ok_stopped:
  assumes "fz_ok z" "t \<in> set (fz_running z)"
  shows "fz_ok (z\<lparr>fz_running := removeAll t (fz_running z), fz_stops := remove1 (ft_stopSignal t) (fz_stops z)\<rparr>)"
    (is "fz_ok ?z")
proof -
  have sub: "c \<in> set (fz_stops z)" if "c \<in> set (fz_stops ?z)" for c
    using that set_remove1_subset by fastforce
  have "ft_stopSignal u \<noteq> ft_stopSignal t" if "u \<in> set (fz_running z)" "u \<noteq> t" for u
    using assms that unfolding fz_ok_def running_apart_def by metis
  then have "running_tasks ?z"
    using assms(1) unfolding fz_ok_def running_tasks_def by auto
  moreover have "filed_tasks ?z"
    using assms(1) sub unfolding fz_ok_def filed_tasks_def by auto
  moreover have "filed_apart ?z" "running_apart ?z"
    using assms(1) unfolding fz_ok_def filed_apart_def running_apart_def by simp_all
  moreover have "\<forall>c\<in>set (fz_stops ?z). c < fz_next ?z" using assms(1) sub by (auto simp: fz_ok_def)
  ultimately show ?thesis by (simp add: fz_ok_def)
qed

lemma fz_ok_step: "fuzzy_step z z' \<Longrightarrow> fz_ok z \<Longrightarrow> fz_ok z'"
  by (induction rule: fuzzy_step.induct) (auto intro: fz_ok_start fz_ok_stop fz_ok_ended fz_ok_stopped)

text \<open>
  C19: however reconciliations, finalizations and the turns of the loops interleave, at most one
  discovery task of a resource is running that was not told to stop.
\<close>

theorem one_discovery_task:
  assumes "fuzzy_step\<^sup>*\<^sup>* no_tasks z" "t \<in> set (fz_running z)" "u \<in> set (fz_running z)"
    "ft_dcKey t = ft_dcKey u" "ft_stopSignal t \<notin> set (fz_stops z)" "ft_stopSignal u \<notin> set (fz_stops z)"
  shows "t = u"
proof -
  have "fz_ok z"
    using assms(1) by (induction rule: rtranclp_induct) (auto intro: fz_ok_no_tasks fz_ok_step)
  then have "mget (fz_map z) (task_key t) = Some t" "mget (fz_map z) (task_key u) = Some u"
    using assms unfolding fz_ok_def running_tasks_def by blast+
  then show ?thesis using assms(4) by (simp add: task_key_def)
qed

theorem one_discovery_task_witness:
  "\<exists>t. t \<in> set (fz_running (FuzzyListenConfig (demo_dc True) (FuzzyListenConfig (demo_dc True) no_tasks))) \<and>
     t = \<lparr>ft_dcKey = demo_key, ft_stopSignal = 0\<rparr>"
proof -
  let ?z = "FuzzyListenConfig (demo_dc True) (FuzzyListenConfig (demo_dc True) no_tasks)"
  let ?t = "\<lparr>ft_dcKey = demo_key, ft_stopSignal = 0\<rparr>"
  have reach: "fuzzy_step\<^sup>*\<^sup>* no_tasks ?z"
    by (meson fz_start rtranclp.rtrancl_refl rtranclp.rtrancl_into_rtrancl)
  have z: "fz_running ?z = [?t]" "fz_stops ?z = []"
    by (simp_all add: FuzzyListenConfig_def no_tasks_def Let_def dc_key_def demo_dc_def demo_key_def demo_meta_def)
  have "hd (fz_running ?z) = ?t"
    by (rule one_discovery_task [OF reach]) (simp_all add: z)
  then show ?thesis using z(1) by simp
qed

text \<open>
  One failed turn ends discovery for good: a state is reachable in which the resource's task has
  returned while the map still holds it, and in every such state a reconciliation starts nothing.
\<close>

theorem discovery_not_restarted:
  "(\<exists>z. fuzzy_step\<^sup>*\<^sup>* no_tasks z \<and> mget (fz_map z) (fuzzy_key dc) \<noteq> None \<and> fz_running z = []) \<and>
   (\<forall>z. mget (fz_map z) (fuzzy_key dc) \<noteq> None \<longrightarrow> FuzzyListenConfig dc z = z)"
proof -
  let ?t = "\<lparr>ft_dcKey = dc_key dc, ft_stopSignal = 0\<rparr>"
  let ?z = "FuzzyListenConfig dc no_tasks"
  have z: "fz_running ?z = [?t]" "mget (fz_map ?z) (fuzzy_key dc) = Some ?t"
    by (simp_all add: FuzzyListenConfig_def no_tasks_def Let_def)
  have "fuzzy_step ?z (?z\<lparr>fz_running := removeAll ?t (fz_running ?z)\<rparr>)"
    by (rule fz_turn_failed) (simp add: z)
  then have "fuzzy_step\<^sup>*\<^sup>* no_tasks (?z\<lparr>fz_running := []\<rparr>)"
    using z(1) fz_start [of no_tasks dc]
    by (simp add: rtranclp.rtrancl_into_rtrancl r_into_rtranclp)
  moreover have "FuzzyListenConfig dc y = y" if "mget (fz_map y) (fuzzy_key dc) \<noteq> None" for y
    using that by (auto simp: FuzzyListenConfig_def)
  ultimately show ?thesis using z(2) by (intro conjI exI [of _ "?z\<lparr>fz_running := []\<rparr>"]) auto
qed

theorem discovery_not_restarted_witness:
  "\<exists>z. fuzzy_step\<^sup>*\<^sup>* no_tasks z \<and> fz_running z = [] \<and> FuzzyListenConfig (demo_dc True) z = z"
  using discovery_not_restarted [of "demo_dc True"] by blast

section \<open>Searching\<close>

text \<open>More pages than needed change nothing.\<close>

lemma search_pages_more:
  "run_state (search_pages n C dc p i acc) s = (Some r, s') \<Longrightarrow> n \<le> m \<Longrightarrow>
   run_state (search_pages m C dc p i acc) s = (Some r, s')"
proof (induction n arbitrary: m i acc s)
  case (Suc n)
  then obtain k where "m = Suc k" "n \<le> k" by (metis Suc_le_D Suc_le_mono)
  then show ?case
    using Suc by (auto split: prod.splits option.splits if_splits)
qed simp

text \<open>
  C20: against a server that answers page \<open>i\<close> with the \<open>i\<close>-th twenty of its matching items, the search
  of a pattern ends after one page more than the full ones and returns every item once, in order;
  any larger number of pages gives the same.
\<close>

theorem search_collects_all:
  assumes "\<And>i. 1 \<le> i \<Longrightarrow> run_state (SearchConfigs C (search_param dc p i)) s =
      ((Some \<lparr>cp_PageItems = Some (take 20 (drop (20 * (nat i - 1)) items))\<rparr>, None), s)"
    "length items div 20 < n"
  shows "run_state (search_pages n C dc p 1 acc) s = (Some (acc @ items), s)"
proof -
  have "run_state (search_pages n C dc p (int k + 1) acc) s = (Some (acc @ drop (20 * k) items), s)"
    if "(length items - 20 * k) div 20 < n" for k
    using that
  proof (induction n arbitrary: k acc)
    case (Suc n)
    let ?rest = "drop (20 * k) items"
    have page: "run_state (SearchConfigs C (search_param dc p (int k + 1))) s =
        ((Some \<lparr>cp_PageItems = Some (take 20 ?rest)\<rparr>, None), s)"
      using assms(1) [of "int k + 1"] by (simp add: nat_add_distrib)
    show ?case
    proof (cases "20 \<le> length ?rest")
      case True
      have "(length items - 20 * Suc k) div 20 < n"
        using Suc.prems True by (simp add: algebra_simps)
      then have "run_state (search_pages n C dc p (int (Suc k) + 1) (acc @ take 20 ?rest)) s =
          (Some ((acc @ take 20 ?rest) @ drop (20 * Suc k) items), s)" by (rule Suc.IH)
      moreover have "take 20 ?rest @ drop (20 * Suc k) items = ?rest"
        using append_take_drop_id [of 20 ?rest] by (simp add: add.commute)
      ultimately show ?thesis
        using True by (simp add: page add.commute [of 2])
    next
      case False
      then show ?thesis by (simp add: page)
    qed
  qed simp
  from this [of 0] assms(2) show ?thesis by simp
qed

definition demo_search :: "cluster NacosConfigClient" where
  "demo_search = (demo_client [])\<lparr>SearchConfigs := (\<lambda>q. ret (Some \<lparr>cp_PageItems =
     Some (take 20 (drop (20 * (nat (scp_PageNo q) - 1))
       (replicate 41 \<lparr>ci_DataId = ''k'', ci_Group = ''configmap.app'', ci_Content = ''v''\<rparr>)))\<rparr>, None))\<rparr>"

theorem search_collects_all_witness:
  "run_state (search_pages 3 demo_search (demo_dc True) \<lparr>fp_Group = ''configmap.*'', fp_DataId = ''*''\<rparr> 1 []) (demo_cluster True)
     = (Some (replicate 41 \<lparr>ci_DataId = ''k'', ci_Group = ''configmap.app'', ci_Content = ''v''\<rparr>), demo_cluster True)"
  using search_collects_all [of demo_search "demo_dc True" "\<lparr>fp_Group = ''configmap.*'', fp_DataId = ''*''\<rparr>" "demo_cluster True"
      "replicate 41 \<lparr>ci_DataId = ''k'', ci_Group = ''configmap.app'', ci_Content = ''v''\<rparr>" 3 "[]"]
  by (simp add: demo_search_def search_param_def)

text \<open>
  In a cluster whose reads and writes of ConfigMaps are those of a store, which fails a read for good or not at all, adopting an item
  never changes a content that is not empty.
\<close>

lemma adoption_keeps_stored_contents:
  assumes st: "configmap_storage K view" "finalizer_laws K" "gvk_laws K"
    and ref: "group_ref dc (ci_Group item) = Some ref" "or_Kind ref = ''ConfigMap''"
    and some: "fst (stored_content view s ns n j) \<noteq> []"
  shows "stored_content view (exec (adopt_item K dc item) s) ns n j = stored_content view s ns n j"
proof (cases "Contains (mget0 [] (dc_ListenConfigs dc) (ci_Group item)) (ci_DataId item)")
  case True
  then show ?thesis by (simp add: adopt_item_def)
next
  case False
  let ?w = "\<lparr>cmw_ObjectRef = ref, cmw_cm = None\<rparr>"
  let ?d = "ci_DataId item"
  have "or_APIVersion ref = ''v1''" using ref(1) by (auto simp: group_ref_def Let_def split: if_splits)
  then have new: "NewObjectReferenceWrapper K ref = Inr (WConfigMap ?w)"
    using ref(2) by (intro NewObjectReferenceWrapper_configmap [OF st(3)])
  obtain got s1 where g: "run_state (ConfigMaps_Get K (or_Namespace ref) (or_Name ref)) s = (got, s1)"
    by (metis surj_pair)
  note get = configmap_storage_get [OF st(1) g]
  define content where "content = (case got of Inl _ \<Rightarrow> [] | Inr cm \<Rightarrow> fst (GetConfigMapContent cm ?d))"
  obtain r w' s' where run: "run_state (ConfigMapWrapper_StoreContentLatest K ?d (ci_Content item))
      ((case got of Inl _ \<Rightarrow> ?w | Inr cm \<Rightarrow> ?w\<lparr>cmw_cm := Some cm\<rparr>), s) = (r, (w', s'))"
    by (metis surj_pair)
  have ex: "exec (adopt_item K dc item) s = (if content \<noteq> [] then s else s')"
    using False run get(1)
    by (cases got)
       (auto simp: adopt_item_def ref(1) new ConfigMapWrapper_GetContentLatest_def g content_def Let_def
         split: prod.split)
  have wref: "cmw_ObjectRef (case got of Inl _ \<Rightarrow> ?w | Inr cm \<Rightarrow> ?w\<lparr>cmw_cm := Some cm\<rparr>) = ref"
    by (cases got) simp_all
  show ?thesis
  proof (cases "content = [] \<and> (ns, n, j) \<noteq> (or_Namespace ref, or_Name ref, ?d)")
    case True
    then show ?thesis
      using ex StoreContentLatest_frame [OF st(1,2) run] by (simp add: wref)
  next
    case same: False
    have "content \<noteq> [] \<or> s' = s"
    proof (cases "content = []")
      case True
      with same have key: "ns = or_Namespace ref" "n = or_Name ref" "j = ?d" by auto
      obtain err where err: "got = Inl err" "\<not> IsNotFound err"
        using True some get(2) by (cases got) (auto simp: content_def stored_content_def key)
      then show ?thesis
        using run g get(1) by (auto simp: ConfigMapWrapper_StoreContentLatest_def Let_def)
    qed simp
    then show ?thesis using ex by auto
  qed
qed

text \<open>
  C21: adopting an item found on the server never writes over a content that could be read: when the read of the referenced ConfigMap or Secret
  succeeds and finds a content that is not empty under the data id, that read is the only call the step makes, and if the data id is listened to
  already it makes none.  A read that fails counts as an empty content.
\<close>

theorem discovery_keeps_contents:
  assumes "gvk_laws K" and "group_ref dc (ci_Group item) = Some ref" and "fst content \<noteq> []"
    and "or_Kind ref = ''ConfigMap'' \<and> content = GetConfigMapContent cm (ci_DataId item) \<and>
           run_state (ConfigMaps_Get K (or_Namespace ref) (or_Name ref)) s = (Inr cm, s1) \<or>
         or_Kind ref = ''Secret'' \<and> content = GetSecretContent x (ci_DataId item) \<and>
           run_state (Secrets_Get K (or_Namespace ref) (or_Name ref)) s = (Inr x, s1)"
  shows "run_state (adopt_item K dc item) s = (Ok (), if listens dc (ci_Group item) (ci_DataId item) then s else s1)"
proof (cases "listens dc (ci_Group item) (ci_DataId item)")
  case True
  then show ?thesis by (simp add: adopt_item_def listens_def)
next
  case False
  have v1: "or_APIVersion ref = ''v1''" using assms(2) by (auto simp: group_ref_def Let_def split: if_splits)
  obtain c e where content: "content = (c, e)" "c \<noteq> []" using assms(3) by (cases content) auto
  show ?thesis
    using assms(4)
  proof
    assume cm: "or_Kind ref = ''ConfigMap'' \<and> content = GetConfigMapContent cm (ci_DataId item) \<and>
           run_state (ConfigMaps_Get K (or_Namespace ref) (or_Name ref)) s = (Inr cm, s1)"
    then have new: "NewObjectReferenceWrapper K ref = Inr (WConfigMap \<lparr>cmw_ObjectRef = ref, cmw_cm = None\<rparr>)"
      using v1 by (intro NewObjectReferenceWrapper_configmap [OF assms(1)]) simp_all
    have "GetConfigMapContent cm (ci_DataId item) = (c, e)" using cm content by simp
    then show ?thesis using False cm content(2)
      by (simp add: adopt_item_def listens_def assms(2) new ConfigMapWrapper_GetContentLatest_def dispatch_def Let_def)
  next
    assume x: "or_Kind ref = ''Secret'' \<and> content = GetSecretContent x (ci_DataId item) \<and>
           run_state (Secrets_Get K (or_Namespace ref) (or_Name ref)) s = (Inr x, s1)"
    then have new: "NewObjectReferenceWrapper K ref = Inr (WSecret \<lparr>sw_ObjectRef = ref, sw_secret = None\<rparr>)"
      using v1 by (intro NewObjectReferenceWrapper_secret [OF assms(1)]) simp_all
    have "GetSecretContent x (ci_DataId item) = (c, e)" using x content by simp
    then show ?thesis using False x content(2)
      by (simp add: adopt_item_def listens_def assms(2) new SecretWrapper_GetContentLatest_def dispatch_def Let_def)
  qed
qed

text \<open>So when the read of a ConfigMap fails, the item is stored over what the ConfigMap has.\<close>

lemma failed_read_adopts:
  assumes "gvk_laws K" and "group_ref dc (ci_Group item) = Some ref" and "or_Kind ref = ''ConfigMap''"
    and "\<not> listens dc (ci_Group item) (ci_DataId item)"
    and "run_state (ConfigMaps_Get K (or_Namespace ref) (or_Name ref)) s = (Inl err, s1)"
  shows "exec (adopt_item K dc item) s =
    snd (exec (ConfigMapWrapper_StoreContentLatest K (ci_DataId item) (ci_Content item)) (\<lparr>cmw_ObjectRef = ref, cmw_cm = None\<rparr>, s1))"
proof -
  have "or_APIVersion ref = ''v1''" using assms(2) by (auto simp: group_ref_def Let_def split: if_splits)
  then have new: "NewObjectReferenceWrapper K ref = Inr (WConfigMap \<lparr>cmw_ObjectRef = ref, cmw_cm = None\<rparr>)"
    by (intro NewObjectReferenceWrapper_configmap [OF assms(1)] assms(3))
  show ?thesis using assms(4,5)
    by (simp add: adopt_item_def listens_def assms(2) new ConfigMapWrapper_GetContentLatest_def dispatch_def Let_def split: prod.split)
qed

section \<open>Examples\<close>

definition demo_synced :: "string \<Rightarrow> (unit, cluster) handler" where
  "demo_synced scope = \<lparr>h_world = demo_cluster False, h_obj = (),
     h_dc = AddListenConfig (AddListenConfig (UpdateDynamicConfigurationStatus
              ((demo_dc False)\<lparr>dc_Spec := (dc_Spec (demo_dc False))\<lparr>spec_Strategy :=
                 \<lparr>ss_SyncScope = scope, ss_SyncDeletion = False, ss_ConflictPolicy = ''preferCluster''\<rparr>\<rparr>\<rparr>))
              ''configmap.app'' ''k'') ''configmap.old'' ''x'',
     h_errs = []\<rparr>"

lemma demo_synced_sel:
  "dc_ListenConfigs (h_dc (demo_synced scope)) = [(''configmap.app'', [''k'']), (''configmap.old'', [''x''])]"
  "wf_status (h_dc (demo_synced scope))" "\<not> checkNacosServerChange (h_dc (demo_synced scope))"
  "ss_SyncScope (dc_Strategy (h_dc (demo_synced scope))) = scope"
  "sts_SyncStrategyStatus (dc_Status (h_dc (demo_synced scope))) = dc_Strategy (h_dc (demo_synced scope))"
  "object_refs (h_dc (demo_synced scope)) = [demo_ref]"
  by (simp_all add: demo_synced_def AddListenConfig_def Let_def UpdateDynamicConfigurationStatus_def demo_dc_def mget0_def
      wf_status_def checkNacosServerChange_iff object_refs_def)

theorem sync_dc_invariant_witness:
  "wf_status (h_dc (snd (exec (SyncDynamicConfiguration one_cluster (demo_client ''x'') (\<lambda>m. m)) (no_tasks, demo_synced ''partial''))))"
  using sync_dc_invariant [OF demo_synced_sel(2), of one_cluster "demo_client ''x''" "\<lambda>m. m" no_tasks "''partial''"] by blast

lemma demo_refs: "ref_map (spec_refs (h_dc (demo_synced scope))) = [(''configmap.app'', demo_ref\<lparr>or_Namespace := dc_Namespace (h_dc (demo_synced scope))\<rparr>)]"
  by (simp add: ref_map_def spec_refs_def demo_synced_sel ref_group_def)

lemma demo_partial_run:
  "\<exists>h'. run_state (syncPartial2Partial one_cluster (demo_client []) (\<lambda>m. m)) (demo_synced ''partial'') = (Ok None, h') \<and>
     dc_ListenConfigs (h_dc h') = [(''configmap.app'', [''k''])]"
  by (simp add: syncPartial2Partial_def demo_synced_sel sync_changes_def demo_refs prune_group_def run_bindO mget0_def
      sync_missing_def finish_sync_def sync_result_def UpdateDynamicConfigurationStatus_def)

lemma demo_unwanted:
  "wanted_groups (h_dc (demo_synced scope)) = {''configmap.app''}" "unwanted_pairs (h_dc (demo_synced scope)) = [(''configmap.old'', ''x'')]"
  by (simp_all add: wanted_groups_def unwanted_pairs_def listened_pairs_def demo_synced_sel ref_group_def)

theorem partial_sync_listens_to_refs_witness:
  "\<exists>h'. run_state (syncPartial2Partial one_cluster (demo_client []) (\<lambda>m. m)) (demo_synced ''partial'') = (Ok None, h') \<and>
     mget (dc_ListenConfigs (h_dc h')) ''configmap.old'' = None"
proof -
  obtain h' where h': "run_state (syncPartial2Partial one_cluster (demo_client []) (\<lambda>m. m)) (demo_synced ''partial'') = (Ok None, h')"
    using demo_partial_run by force
  have "mget (dc_ListenConfigs (h_dc h')) ''configmap.old'' = None \<or> ''configmap.old'' \<in> wanted_groups (h_dc (demo_synced ''partial''))"
    using partial_sync_listens_to_refs [OF _ demo_synced_sel(3,2) h'] by blast
  then show ?thesis using h' by (simp add: demo_unwanted)
qed

theorem full_sync_idempotent_witness:
  "\<exists>z' h'. run_state (SyncDynamicConfiguration one_cluster (demo_client []) (\<lambda>m. m)) (no_tasks, demo_synced ''full'') = (Ok None, (z', h')) \<and>
     run_state (SyncDynamicConfiguration one_cluster (demo_client []) (\<lambda>m. m)) (z', h') = (Ok None, (z', h'))"
proof -
  have "\<exists>z' h'. run_state (SyncDynamicConfiguration one_cluster (demo_client []) (\<lambda>m. m)) (no_tasks, demo_synced ''full'') = (Ok None, (z', h'))"
    by (simp add: SyncDynamicConfiguration_def demo_synced_sel syncFull_def syncFull2Full_def Let_def run_bindO dc_constants)
  moreover have "ss_SyncScope (dc_Strategy (h_dc (demo_synced ''full''))) = SyncScopeFull"
    by (simp add: demo_synced_sel dc_constants)
  ultimately show ?thesis using full_sync_idempotent by blast
qed

theorem finalize_cancels_all_witness:
  "\<exists>z' s'. run_state (DC_Finalize (demo_client []) (h_dc (demo_synced ''full''))) (no_tasks, demo_cluster False) = (None, (z', s')) \<and>
     mget (fz_map z') (fuzzy_key (h_dc (demo_synced ''full''))) = None"
proof -
  obtain z' s' where "run_state (DC_Finalize (demo_client []) (h_dc (demo_synced ''full''))) (no_tasks, demo_cluster False) = (None, (z', s'))"
    by (simp add: DC_Finalize_def CleanOldNacosConfig_def listened_pairs_def demo_synced_sel)
  with finalize_cancels_all [OF demo_synced_sel(2) this] show ?thesis by blast
qed

definition demo_full_cluster :: cluster where
  "demo_full_cluster = (demo_cluster True)\<lparr>cl_ConfigMaps := [((''ns'', ''app''), demo_cm\<lparr>cm_Data := [(''k'', ''v'')]\<rparr>)]\<rparr>"

theorem discovery_keeps_contents_witness:
  "run_state (adopt_item one_cluster (demo_dc True) \<lparr>ci_DataId = ''k'', ci_Group = ''configmap.app'', ci_Content = ''new''\<rparr>) demo_full_cluster =
     (Ok (), demo_full_cluster)"
proof -
  let ?ref = "\<lparr>or_Kind = ''ConfigMap'', or_Namespace = dc_Namespace (demo_dc True), or_Name = ''app'', or_APIVersion = ''v1''\<rparr>"
  let ?cm = "demo_cm\<lparr>cm_Data := [(''k'', ''v'')]\<rparr>"
  have ref: "group_ref (demo_dc True) ''configmap.app'' = Some ?ref"
    by (simp add: group_ref_def Split_def Let_def HasPrefix_def)
  have laws: "gvk_laws one_cluster" by (simp add: one_cluster_def gvk_laws_api_server)
  have get: "run_state (ConfigMaps_Get one_cluster (or_Namespace ?ref) (or_Name ?ref)) demo_full_cluster = (Inr ?cm, demo_full_cluster)"
    by (simp add: one_cluster_configmaps api_get_def filed_in_def demo_full_cluster_def demo_dc_def demo_meta_def demo_cm_def)
  show ?thesis
    using discovery_keeps_contents [OF laws, of "demo_dc True"
        "\<lparr>ci_DataId = ''k'', ci_Group = ''configmap.app'', ci_Content = ''new''\<rparr>" ?ref "(''v'', True)" ?cm demo_full_cluster demo_full_cluster]
      ref get by (simp add: GetConfigMapContent_def)
qed

end
