(* ===== verification/Webhook.thy ===== *)
theory Webhook
  imports Config_Client
begin

text \<open>
  The admission webhook of \<^verbatim>\<open>api/v1/dynamicconfiguration_webhook.go\<close>: defaulting and validation of a
  DynamicConfiguration.  \<open>admissible\<close> states the accepted specifications without the code's order of
  checks; \<open>validateDC\<close> accepts exactly those.
\<close>

section \<open>Definitions\<close>

text \<open>The errors of \<^verbatim>\<open>field\<close>: the path, the offending value where one is given, the detail.\<close>

datatype bad_value = BadString string | BadRef ObjectReference | BadRefs "ObjectReference list"

datatype field_error =
    Required "string list" string
  | NotSupported "string list" bad_value "string list"
  | Invalid "string list" bad_value string

record InvalidError =
  inv_Group :: string
  inv_Kind :: string
  inv_Name :: string
  inv_Errs :: "field_error list"

abbreviation set_strategy :: "SyncStrategy \<Rightarrow> DynamicConfiguration \<Rightarrow> DynamicConfiguration" where
  "set_strategy st dc \<equiv> dc\<lparr>dc_Spec := (dc_Spec dc)\<lparr>spec_Strategy := st\<rparr>\<rparr>"

definition Default :: "DynamicConfiguration \<Rightarrow> DynamicConfiguration" where
  "Default r =
     (let r1 = (if ss_SyncScope (dc_Strategy r) = []
                then set_strategy ((dc_Strategy r)\<lparr>ss_SyncScope :=
                       (if spec_ObjectRefs (dc_Spec r) \<noteq> None then SyncScopePartial else SyncScopeFull)\<rparr>) r
                else r)
      in if ss_ConflictPolicy (dc_Strategy r1) = []
         then set_strategy ((dc_Strategy r1)\<lparr>ss_ConflictPolicy := PreferCluster\<rparr>) r1
         else r1)"

definition validateNacosServerConfiguration :: "'s Kube \<Rightarrow> DynamicConfiguration \<Rightarrow> field_error option" where
  "validateNacosServerConfiguration K r =
     (let serverAddrEmpty = length (ns_ServerAddr (dc_NacosServer r)) = 0;
          endpoint = length (ns_Endpoint (dc_NacosServer r)) = 0
      in if serverAddrEmpty \<and> endpoint
         then Some (Required [''spec'', ''nacosServer''] ''either ServerAddr or Endpoint should be set'')
         else if length (ns_Namespace (dc_NacosServer r)) = 0
         then Some (Required [''spec'', ''nacosServer'', ''namespace''] ''nacos namespace should be set'')
         else (case ns_AuthRef (dc_NacosServer r) of
                 None \<Rightarrow> None
               | Some ref \<Rightarrow>
                   (let supportGVKs = [GVKString K SecretGVK]; gvk = ref_gvk_string K ref in
                    if \<not> stringsContains supportGVKs gvk
                    then Some (NotSupported [''spec'', ''nacosServer'', ''authRef''] (BadRef ref) supportGVKs)
                    else None)))"

fun validate_refs :: "'s Kube \<Rightarrow> string list \<Rightarrow> ObjectReference list \<Rightarrow> field_error option" where
  "validate_refs K supportGVKs [] = None"
| "validate_refs K supportGVKs (objRef # rest) =
     (if \<not> stringsContains supportGVKs (ref_gvk_string K objRef)
      then Some (NotSupported [''spec'', ''objectRefs''] (BadRef objRef) supportGVKs)
      else validate_refs K supportGVKs rest)"

definition validateObjectRefs :: "'s Kube \<Rightarrow> DynamicConfiguration \<Rightarrow> field_error option" where
  "validateObjectRefs K r =
     (if ss_SyncScope (dc_Strategy r) = SyncScopeFull
      then (case spec_ObjectRefs (dc_Spec r) of
              Some refs \<Rightarrow> Some (Invalid [''spec'', ''objectRefs''] (BadRefs refs)
                             ''ObjectRefs should be empty when SyncStrategy is full'')
            | None \<Rightarrow> None)
      else (case spec_ObjectRefs (dc_Spec r) of
              None \<Rightarrow> Some (Required [''spec'', ''objectRefs'']
                             ''ObjectRefs should be set when SyncStrategy is partial'')
            | Some refs \<Rightarrow> validate_refs K [GVKString K ConfigMapGVK, GVKString K SecretGVK] refs))"

definition validateSyncStrategy :: "DynamicConfiguration \<Rightarrow> field_error option" where
  "validateSyncStrategy r =
     (let syncScopeSupportList = [SyncScopePartial, SyncScopeFull];
          conflictPolicySupportList = [PreferCluster, PreferServer]
      in if \<not> stringsContains syncScopeSupportList (ss_SyncScope (dc_Strategy r))
         then Some (NotSupported [''spec'', ''strategy'', ''syncDirection'']
                      (BadString (ss_SyncScope (dc_Strategy r))) syncScopeSupportList)
         else if \<not> stringsContains conflictPolicySupportList (ss_ConflictPolicy (dc_Strategy r))
         then Some (NotSupported [''spec'', ''strategy'', ''conflictPolicy'']
                      (BadString (ss_ConflictPolicy (dc_Strategy r))) conflictPolicySupportList)
         else None)"

definition validateDC :: "'s Kube \<Rightarrow> DynamicConfiguration \<Rightarrow> InvalidError option" where
  "validateDC K r =
     (let errs0 = [];
          errs1 = (case validateNacosServerConfiguration K r of Some e \<Rightarrow> errs0 @ [e] | None \<Rightarrow> errs0);
          errs2 = (case validateSyncStrategy r of Some e \<Rightarrow> errs1 @ [e] | None \<Rightarrow> errs1);
          errs3 = (case validateObjectRefs K r of Some e \<Rightarrow> errs2 @ [e] | None \<Rightarrow> errs2)
      in if length errs3 = 0 then None
         else Some \<lparr>inv_Group = ''nacos.io'', inv_Kind = ''DynamicConfiguration'', inv_Name = dc_Name r,
                    inv_Errs = errs3\<rparr>)"

definition ValidateCreate :: "'s Kube \<Rightarrow> DynamicConfiguration \<Rightarrow> InvalidError option" where
  "ValidateCreate K r = validateDC K r"

definition ValidateUpdate :: "'s Kube \<Rightarrow> DynamicConfiguration \<Rightarrow> DynamicConfiguration \<Rightarrow> InvalidError option" where
  "ValidateUpdate K r old = validateDC K r"

definition ValidateDelete :: "'s Kube \<Rightarrow> DynamicConfiguration \<Rightarrow> InvalidError option" where
  "ValidateDelete K r = None"

section \<open>What validation accepts\<close>

definition supported_ref :: "'s Kube \<Rightarrow> ObjectReference \<Rightarrow> bool" where
  "supported_ref K ref \<longleftrightarrow>
     ref_gvk_string K ref \<in> {GVKString K ConfigMapGVK, GVKString K SecretGVK}"

definition admissible :: "'s Kube \<Rightarrow> DynamicConfiguration \<Rightarrow> bool" where
  "admissible K r \<longleftrightarrow>
     (ns_ServerAddr (dc_NacosServer r) \<noteq> [] \<or> ns_Endpoint (dc_NacosServer r) \<noteq> []) \<and>
     ns_Namespace (dc_NacosServer r) \<noteq> [] \<and>
     (\<forall>ref. ns_AuthRef (dc_NacosServer r) = Some ref \<longrightarrow> ref_gvk_string K ref = GVKString K SecretGVK) \<and>
     ss_ConflictPolicy (dc_Strategy r) \<in> {PreferCluster, PreferServer} \<and>
     (ss_SyncScope (dc_Strategy r) = SyncScopeFull \<and> spec_ObjectRefs (dc_Spec r) = None \<or>
      ss_SyncScope (dc_Strategy r) = SyncScopePartial \<and>
      (\<exists>refs. spec_ObjectRefs (dc_Spec r) = Some refs \<and> (\<forall>ref\<in>set refs. supported_ref K ref)))"

lemma validate_refs_None:
  "validate_refs K supp refs = None \<longleftrightarrow> (\<forall>ref\<in>set refs. ref_gvk_string K ref \<in> set supp)"
  by (induction refs) auto

lemma validateNacosServerConfiguration_None:
  "validateNacosServerConfiguration K r = None \<longleftrightarrow>
     (ns_ServerAddr (dc_NacosServer r) \<noteq> [] \<or> ns_Endpoint (dc_NacosServer r) \<noteq> []) \<and>
     ns_Namespace (dc_NacosServer r) \<noteq> [] \<and>
     (\<forall>ref. ns_AuthRef (dc_NacosServer r) = Some ref \<longrightarrow> ref_gvk_string K ref = GVKString K SecretGVK)"
  by (auto simp: validateNacosServerConfiguration_def Let_def split: option.splits)

lemma validateSyncStrategy_None:
  "validateSyncStrategy r = None \<longleftrightarrow>
     ss_SyncScope (dc_Strategy r) \<in> {SyncScopePartial, SyncScopeFull} \<and>
     ss_ConflictPolicy (dc_Strategy r) \<in> {PreferCluster, PreferServer}"
  by (auto simp: validateSyncStrategy_def Let_def)

lemma validateObjectRefs_None:
  "validateObjectRefs K r = None \<longleftrightarrow>
     (if ss_SyncScope (dc_Strategy r) = SyncScopeFull then spec_ObjectRefs (dc_Spec r) = None
      else \<exists>refs. spec_ObjectRefs (dc_Spec r) = Some refs \<and> (\<forall>ref\<in>set refs. supported_ref K ref))"
  by (auto simp: validateObjectRefs_def supported_ref_def validate_refs_None split: option.splits)

lemma validateDC_None:
  "validateDC K r = None \<longleftrightarrow>
     validateNacosServerConfiguration K r = None \<and> validateSyncStrategy r = None \<and>
     validateObjectRefs K r = None"
  by (auto simp: validateDC_def Let_def split: option.splits)

lemma scopes_differ: "SyncScopePartial \<noteq> SyncScopeFull"
  by (simp add: dc_constants)

lemma validateDC_iff: "validateDC K r = None \<longleftrightarrow> admissible K r"
  unfolding validateDC_None validateNacosServerConfiguration_None validateSyncStrategy_None
    validateObjectRefs_None admissible_def
  using scopes_differ by auto

text \<open>Every failed check is reported, at most one per check and in the order of the checks.\<close>

lemma validateDC_errors:
  "validateDC K r = Some e \<Longrightarrow>
   inv_Errs e = concat (map (\<lambda>x. case x of None \<Rightarrow> [] | Some f \<Rightarrow> [f])
     [validateNacosServerConfiguration K r, validateSyncStrategy r, validateObjectRefs K r])"
  by (auto simp: validateDC_def Let_def split: option.splits if_splits)

section \<open>Defaulting\<close>

lemma Default_strategy:
  "dc_Strategy (Default r) =
     \<lparr>ss_SyncScope = (if ss_SyncScope (dc_Strategy r) = []
        then (if spec_ObjectRefs (dc_Spec r) \<noteq> None then SyncScopePartial else SyncScopeFull)
        else ss_SyncScope (dc_Strategy r)),
      ss_SyncDeletion = ss_SyncDeletion (dc_Strategy r),
      ss_ConflictPolicy = (if ss_ConflictPolicy (dc_Strategy r) = [] then PreferCluster
                           else ss_ConflictPolicy (dc_Strategy r))\<rparr>"
  by (auto simp: Default_def Let_def)

lemma Default_frame:
  "dc_Meta (Default r) = dc_Meta r" "dc_Status (Default r) = dc_Status r"
  "dc_NacosServer (Default r) = dc_NacosServer r"
  "spec_ObjectRefs (dc_Spec (Default r)) = spec_ObjectRefs (dc_Spec r)"
  by (auto simp: Default_def Let_def)

lemma Default_id:
  "ss_SyncScope (dc_Strategy r) \<noteq> [] \<Longrightarrow> ss_ConflictPolicy (dc_Strategy r) \<noteq> [] \<Longrightarrow> Default r = r"
  by (simp add: Default_def)

lemma Default_idem: "Default (Default r) = Default r"
  by (rule Default_id) (auto simp: Default_strategy dc_constants)

text \<open>
  A defaulted specification is admissible exactly when its server part and its references are, its policy was open or valid, and its
  scope was open or fits the references.
\<close>

lemma Default_admissible:
  "admissible K (Default r) \<longleftrightarrow>
     validateNacosServerConfiguration K r = None \<and> (\<forall>ref\<in>set (object_refs r). supported_ref K ref) \<and>
     ss_ConflictPolicy (dc_Strategy r) \<in> {[], PreferCluster, PreferServer} \<and>
     (ss_SyncScope (dc_Strategy r) = [] \<or>
      ss_SyncScope (dc_Strategy r) = (if spec_ObjectRefs (dc_Spec r) = None then SyncScopeFull else SyncScopePartial))"
  by (cases "spec_ObjectRefs (dc_Spec r)")
     (auto simp: admissible_def Default_strategy Default_frame validateNacosServerConfiguration_None object_refs_def dc_constants)

lemma Default_only_strategy: "Default r = set_strategy (dc_Strategy (Default r)) r"
  by (simp add: Default_def Let_def)

section \<open>Admitted objects have a wrapper\<close>

lemma supported_ref_wrapper:
  "supported_ref K ref \<longleftrightarrow> (\<exists>w. NewObjectReferenceWrapper K ref = Inr w)"
  by (auto simp: supported_ref_def NewObjectReferenceWrapper_def mget_objectWrapperMap Let_def
      split: if_splits)

lemma ref_gvk_string_namespace [simp]: "ref_gvk_string K (ref\<lparr>or_Namespace := n\<rparr>) = ref_gvk_string K ref"
  by (simp add: ref_gvk_string_def)

lemma supported_ref_namespace [simp]: "supported_ref K (ref\<lparr>or_Namespace := n\<rparr>) = supported_ref K ref"
  by (simp add: supported_ref_def)

section \<open>The verdict\<close>

text \<open>
  C30: the webhook accepts a creation or an update exactly when the resource is admissible; otherwise the answer
  names the resource and carries one error for each of the three checks that failed, in their order.
  Deletions are always accepted.
\<close>

theorem webhook_verdict:
  "ValidateUpdate K r old = ValidateCreate K r \<and> ValidateDelete K r = None \<and>
   ValidateCreate K r =
     (if admissible K r then None
      else Some \<lparr>inv_Group = ''nacos.io'', inv_Kind = ''DynamicConfiguration'', inv_Name = dc_Name r,
        inv_Errs = List.map_filter id [validateNacosServerConfiguration K r, validateSyncStrategy r, validateObjectRefs K r]\<rparr>)"
proof -
  have "validateDC K r = None \<longleftrightarrow> admissible K r" by (rule validateDC_iff)
  then show ?thesis
    by (auto simp: ValidateCreate_def ValidateUpdate_def ValidateDelete_def validateDC_def Let_def List.map_filter_def
        split: option.splits if_splits)
qed

text \<open>
  C31: defaulting changes nothing but the strategy, there nothing but an empty scope and an empty policy, and does nothing the second time;
  and the webhook accepts the defaulted resource exactly when its server, its credentials and its references are well specified, its policy
  was left open or is a valid one, and its scope was left open or is the one that fits the references.
\<close>

theorem defaulting_admissible:
  "Default (Default r) = Default r \<and> Default r = set_strategy (dc_Strategy (Default r)) r \<and>
   ss_SyncDeletion (dc_Strategy (Default r)) = ss_SyncDeletion (dc_Strategy r) \<and>
   (ss_SyncScope (dc_Strategy r) \<noteq> [] \<longrightarrow> ss_SyncScope (dc_Strategy (Default r)) = ss_SyncScope (dc_Strategy r)) \<and>
   (ss_ConflictPolicy (dc_Strategy r) \<noteq> [] \<longrightarrow> ss_ConflictPolicy (dc_Strategy (Default r)) = ss_ConflictPolicy (dc_Strategy r)) \<and>
   (ValidateCreate K (Default r) = None \<longleftrightarrow>
      validateNacosServerConfiguration K r = None \<and> (\<forall>ref\<in>set (object_refs r). supported_ref K ref) \<and>
      ss_ConflictPolicy (dc_Strategy r) \<in> {[], PreferCluster, PreferServer} \<and>
      (ss_SyncScope (dc_Strategy r) = [] \<or>
       ss_SyncScope (dc_Strategy r) = (if spec_ObjectRefs (dc_Spec r) = None then SyncScopeFull else SyncScopePartial)))"
  unfolding ValidateCreate_def validateDC_iff Default_admissible Default_idem
  using Default_only_strategy [of r] by (simp add: Default_strategy)

theorem defaulting_admissible_witness:
  "ValidateCreate one_cluster (Default ((demo_dc True)\<lparr>dc_Spec := (dc_Spec (demo_dc True))\<lparr>spec_Strategy := zero_strategy\<rparr>\<rparr>)) = None"
proof -
  have "supported_ref one_cluster demo_ref"
    by (simp add: supported_ref_def ref_gvk_string_def one_cluster_def api_server_def demo_ref_def ConfigMapGVK_def)
  then show ?thesis
    using defaulting_admissible [of "(demo_dc True)\<lparr>dc_Spec := (dc_Spec (demo_dc True))\<lparr>spec_Strategy := zero_strategy\<rparr>\<rparr>" one_cluster]
    by (simp add: demo_dc_def zero_strategy_def validateNacosServerConfiguration_None object_refs_def)
qed

end
