(* ===== verification/Reconcilers.thy ===== *)
theory Reconcilers
  imports DC_Controller Webhook
begin

text \<open>
  The reconcilers of \<^verbatim>\<open>pkg/controller\<close> for ConfigMaps, Secrets and DynamicConfigurations: fetching the
  object, the finalizer protocol, the call of the controller and the requeueing decisions.  The
  deferred \<^verbatim>\<open>recover\<close> turns a panic into the zero results.
\<close>

section \<open>Shared by ConfigMaps and Secrets\<close>

record Result =
  res_Requeue :: bool

abbreviation no_requeue :: Result where
  "no_requeue \<equiv> \<lparr>res_Requeue = False\<rparr>"

abbreviation requeue :: Result where
  "requeue \<equiv> \<lparr>res_Requeue = True\<rparr>"

text \<open>The deferred function: a panic is logged and the unnamed results are the zero values.\<close>

definition recovered :: "(Result \<times> go_error option) outcome \<Rightarrow> Result \<times> go_error option" where
  "recovered r = (case r of Panic \<Rightarrow> (no_requeue, None) | Ok x \<Rightarrow> x)"

fun map_meta :: "(ObjectMeta \<Rightarrow> ObjectMeta) \<Rightarrow> Object \<Rightarrow> Object" where
  "map_meta f (ObjConfigMap c) = ObjConfigMap (c\<lparr>cm_Meta := f (cm_Meta c)\<rparr>)"
| "map_meta f (ObjSecret x) = ObjSecret (x\<lparr>sec_Meta := f (sec_Meta x)\<rparr>)"

text \<open>\<^verbatim>\<open>r.Update(ctx, object)\<close> replaces the object by the stored one on success.\<close>

definition update_object :: "'s Kube \<Rightarrow> (Object \<times> 's, go_error option) state" where
  "update_object K = do {
     obj \<leftarrow> gets fst;
     r \<leftarrow> outside (Client_UpdateObject K obj);
     (case r of
        Inl err \<Rightarrow> ret (Some err)
      | Inr x \<Rightarrow> do { modify (apfst (\<lambda>_. x)); ret None })
   }"

definition Object_ensureFinalizer :: "'s Kube \<Rightarrow> (Object \<times> 's, go_error option) state" where
  "Object_ensureFinalizer K = do {
     obj \<leftarrow> gets fst;
     (if ContainsFinalizer K (obj_meta obj) FinalizerName then ret None
      else do {
        modify (apfst (map_meta (\<lambda>m. AddFinalizer K m FinalizerName)));
        update_object K })
   }"

definition Object_doFinalization ::
  "'s Kube \<Rightarrow> 's NacosConfigClient \<Rightarrow> (Object \<times> 's, go_error option outcome) state" where
  "Object_doFinalization K C = do {
     obj \<leftarrow> gets fst;
     (if \<not> Contains (om_Finalizers (obj_meta obj)) FinalizerName then ret (Ok None)
      else bindO (Sync_Finalize K C) (\<lambda>err.
        (case err of
           Some e \<Rightarrow> ret (Ok (Some e))
         | None \<Rightarrow> do {
             obj' \<leftarrow> gets fst;
             bindO (ret (Remove (om_Finalizers (obj_meta obj')) FinalizerName)) (\<lambda>fs. do {
               modify (apfst (map_meta (\<lambda>m. m\<lparr>om_Finalizers := fs\<rparr>)));
               e \<leftarrow> update_object K;
               ret (Ok e) }) })))
   }"

text \<open>After the object is fetched (configmap_controller.go lines 91 to 111).\<close>

definition reconcile_object ::
  "'s Kube \<Rightarrow> 's NacosConfigClient \<Rightarrow> (Object \<times> 's, (Result \<times> go_error option) outcome) state" where
  "reconcile_object K C = do {
     obj \<leftarrow> gets fst;
     (if om_DeletionTimestamp (obj_meta obj) \<noteq> None
      then bindO (Object_doFinalization K C) (\<lambda>e. ret (Ok (no_requeue, e)))
      else do {
        e \<leftarrow> Object_ensureFinalizer K;
        (case e of
           Some err \<Rightarrow> if IsConflict err then ret (Ok (requeue, None)) else ret (Ok (no_requeue, Some err))
         | None \<Rightarrow>
             bindO (DoReconcile K C) (\<lambda>d.
               (case d of
                  Some err \<Rightarrow> ret (Ok (no_requeue, Some err))
                | None \<Rightarrow> do {
                    u \<leftarrow> update_object K;
                    (case u of
                       Some err \<Rightarrow> if IsConflict err then ret (Ok (requeue, None)) else ret (Ok (no_requeue, Some err))
                     | None \<Rightarrow> ret (Ok (no_requeue, None))) }))) })
   }"

section \<open>ConfigMapReconciler and SecretReconciler\<close>

text \<open>The state is the package variable \<^verbatim>\<open>CurrentContext\<close> and the outside.\<close>

definition ConfigMapReconciler_Reconcile ::
  "'s Kube \<Rightarrow> 's NacosConfigClient \<Rightarrow> NamespacedName \<Rightarrow> (string \<times> 's, Result \<times> go_error option) state" where
  "ConfigMapReconciler_Reconcile K C req = do {
     ctx \<leftarrow> gets fst;
     _ \<leftarrow> (if ctx = ''null''
      then do {
        r \<leftarrow> outside (Client_GetConfigMap K \<lparr>nn_Namespace = ''kube-system'', nn_Name = ''ack-cluster-profile''\<rparr>);
        modify (apfst (\<lambda>_. case r of Inl _ \<Rightarrow> [] | Inr cm \<Rightarrow> mget0 [] (cm_Data cm) ''clusterid'')) }
      else ret ());
     got \<leftarrow> outside (Client_GetConfigMap K req);
     (case got of
        Inl err \<Rightarrow> if IsNotFound err then ret (no_requeue, None) else ret (no_requeue, Some err)
      | Inr configMap \<Rightarrow> do {
          r \<leftarrow> outside (local_var (ObjConfigMap configMap) (reconcile_object K C));
          ret (recovered r) })
   }"

definition SecretReconciler_Reconcile ::
  "'s Kube \<Rightarrow> 's NacosConfigClient \<Rightarrow> NamespacedName \<Rightarrow> ('s, Result \<times> go_error option) state" where
  "SecretReconciler_Reconcile K C req = do {
     got \<leftarrow> Client_GetSecret K req;
     (case got of
        Inl err \<Rightarrow> if IsNotFound err then ret (no_requeue, None) else ret (no_requeue, Some err)
      | Inr secret \<Rightarrow> do {
          r \<leftarrow> local_var (ObjSecret secret) (reconcile_object K C);
          ret (recovered r) })
   }"

section \<open>DynamicConfigurationReconciler\<close>

type_synonym 's dc_state = "fuzzy \<times> (unit, 's) handler"

text \<open>An update through the client or its status writer, which replaces the resource on success.\<close>

definition replace_dc ::
  "(DynamicConfiguration \<Rightarrow> ('s, go_error + DynamicConfiguration) state) \<Rightarrow> ('s dc_state, go_error option) state" where
  "replace_dc upd = outside (do {
     dc \<leftarrow> gets h_dc;
     r \<leftarrow> in_world (upd dc);
     (case r of
        Inl err \<Rightarrow> ret (Some err)
      | Inr dc' \<Rightarrow> do { on_dc (\<lambda>_. dc'); ret None }) })"

abbreviation set_dc :: "(DynamicConfiguration \<Rightarrow> DynamicConfiguration) \<Rightarrow> ('s dc_state, unit) state" where
  "set_dc f \<equiv> outside (on_dc f)"

abbreviation set_finalizers :: "string list \<Rightarrow> DynamicConfiguration \<Rightarrow> DynamicConfiguration" where
  "set_finalizers fs dc \<equiv> dc\<lparr>dc_Meta := (dc_Meta dc)\<lparr>om_Finalizers := fs\<rparr>\<rparr>"

definition DC_ensureFinalizer :: "'s Kube \<Rightarrow> ('s dc_state, go_error option) state" where
  "DC_ensureFinalizer K = do {
     dc \<leftarrow> gets (\<lambda>(_, h). h_dc h);
     (if Contains (om_Finalizers (dc_Meta dc)) FinalizerName then ret None
      else do {
        set_dc (set_finalizers (om_Finalizers (dc_Meta dc) @ [FinalizerName]));
        replace_dc (Client_UpdateDC K) })
   }"

definition finalize_state ::
  "'s NacosConfigClient \<Rightarrow> DynamicConfiguration \<Rightarrow> ('s dc_state, go_error option) state" where
  "finalize_state C dc = State (\<lambda>(z, h). case run_state (DC_Finalize C dc) (z, h_world h) of
     (r, (z', s)) \<Rightarrow> (r, (z', h\<lparr>h_world := s\<rparr>)))"

definition DC_doFinalization ::
  "'s Kube \<Rightarrow> 's NacosConfigClient \<Rightarrow> ('s dc_state, go_error option outcome) state" where
  "DC_doFinalization K C = do {
     dc \<leftarrow> gets (\<lambda>(_, h). h_dc h);
     (if \<not> Contains (om_Finalizers (dc_Meta dc)) FinalizerName then ret (Ok None)
      else do {
        r \<leftarrow> finalize_state C dc;
        (case r of
           Some err \<Rightarrow> do {
             set_dc (\<lambda>dc. FailedStatus dc (ErrorText err));
             e \<leftarrow> replace_dc (Client_StatusUpdateDC K);
             ret (Ok (Some err)) }
         | None \<Rightarrow>
             bindO (ret (Remove (om_Finalizers (dc_Meta dc)) FinalizerName)) (\<lambda>fs. do {
               set_dc (set_finalizers fs);
               e \<leftarrow> replace_dc (Client_UpdateDC K);
               ret (Ok e) })) })
   }"

text \<open>Lines 89 to 107, after the finalizer is in place.\<close>

definition sync_and_report ::
  "'s Kube \<Rightarrow> 's NacosConfigClient \<Rightarrow> range_order \<Rightarrow> ('s dc_state, (Result \<times> go_error option) outcome) state" where
  "sync_and_report K C rng =
     bindO (SyncDynamicConfiguration K C rng) (\<lambda>err.
       (case err of
          Some e \<Rightarrow> do {
            set_dc (\<lambda>dc. FailedStatus dc (ErrorText e));
            uerr \<leftarrow> replace_dc (Client_StatusUpdateDC K);
            (case uerr of
               Some e' \<Rightarrow> if IsConflict e' then ret (Ok (requeue, Some e)) else ret (Ok (no_requeue, Some e))
             | None \<Rightarrow> ret (Ok (no_requeue, Some e))) }
        | None \<Rightarrow> do {
            set_dc UpdateStatus;
            u \<leftarrow> replace_dc (Client_StatusUpdateDC K);
            (case u of
               Some e' \<Rightarrow> if IsConflict e' then ret (Ok (requeue, None)) else ret (Ok (no_requeue, Some e'))
             | None \<Rightarrow> ret (Ok (no_requeue, None))) }))"

definition reconcile_fetched ::
  "'s Kube \<Rightarrow> 's NacosConfigClient \<Rightarrow> range_order \<Rightarrow> ('s dc_state, (Result \<times> go_error option) outcome) state" where
  "reconcile_fetched K C rng = do {
     dc \<leftarrow> gets (\<lambda>(_, h). h_dc h);
     (if om_DeletionTimestamp (dc_Meta dc) \<noteq> None
      then bindO (DC_doFinalization K C) (\<lambda>e. ret (Ok (no_requeue, e)))
      else do {
        e \<leftarrow> DC_ensureFinalizer K;
        (case e of
           Some err \<Rightarrow> ret (Ok (no_requeue, Some err))
         | None \<Rightarrow> sync_and_report K C rng) })
   }"

definition DynamicConfigurationReconciler_Reconcile ::
  "'s Kube \<Rightarrow> 's NacosConfigClient \<Rightarrow> range_order \<Rightarrow> NamespacedName \<Rightarrow>
   (fuzzy \<times> 's, Result \<times> go_error option) state" where
  "DynamicConfigurationReconciler_Reconcile K C rng req = do {
     got \<leftarrow> outside (Client_GetDC K req);
     (case got of
        Inl err \<Rightarrow> if IsNotFound err then ret (no_requeue, None) else ret (no_requeue, Some err)
      | Inr dc \<Rightarrow> State (\<lambda>(z, s).
          case run_state (reconcile_fetched K C rng) (z, \<lparr>h_world = s, h_obj = (), h_dc = dc, h_errs = []\<rparr>) of
            (r, (z', h)) \<Rightarrow> (recovered r, (z', h_world h))))
   }"

section \<open>The finalizer comes first\<close>

lemma obj_meta_map_meta [simp]: "obj_meta (map_meta f x) = f (obj_meta x)"
  by (cases x) simp_all

text \<open>
  C22: a ConfigMap or Secret that does not carry the finalizer is only synchronised once the update that adds
  it was accepted.  When that update fails the pass ends there, with a requeue after a conflict and
  with the error otherwise: no call goes to the Nacos server, whatever the client is.
\<close>

theorem finalizer_before_sync:
  assumes "finalizer_laws K" "FinalizerName \<notin> set (om_Finalizers (obj_meta obj))"
    "om_DeletionTimestamp (obj_meta obj) = None"
    "run_state (Client_UpdateObject K
       (map_meta (\<lambda>m. m\<lparr>om_Finalizers := om_Finalizers m @ [FinalizerName]\<rparr>) obj)) s = (Inl err, s')"
  shows "\<exists>obj'. run_state (reconcile_object K C) (obj, s) =
    (Ok (if IsConflict err then (requeue, None) else (no_requeue, Some err)), (obj', s'))"
proof -
  have add: "map_meta (\<lambda>m. AddFinalizer K m FinalizerName) obj =
      map_meta (\<lambda>m. m\<lparr>om_Finalizers := om_Finalizers m @ [FinalizerName]\<rparr>) obj"
    using assms(1,2) by (cases obj) (simp_all add: finalizer_laws_def)
  have "\<not> ContainsFinalizer K (obj_meta obj) FinalizerName"
    using assms(1,2) by (simp add: finalizer_laws_def)
  then show ?thesis
    by (simp add: reconcile_object_def Object_ensureFinalizer_def update_object_def assms(3,4) add)
qed

theorem finalizer_before_sync_witness:
  "\<exists>obj'. run_state (reconcile_object (one_cluster\<lparr>Client_UpdateObject := (\<lambda>_. ret (Inl (ErrConflict ''stale'')))\<rparr>)
     (demo_client ''x'')) (ObjConfigMap demo_cm, demo_cluster False) = (Ok (requeue, None), (obj', demo_cluster False))"
proof -
  have "finalizer_laws (one_cluster\<lparr>Client_UpdateObject := (\<lambda>_. ret (Inl (ErrConflict ''stale'')))\<rparr>)"
    using finalizer_laws_api_server [of "\<lambda>c. c" "\<lambda>p _. p"] by (simp add: finalizer_laws_def one_cluster_def)
  then show ?thesis
    using finalizer_before_sync [of "one_cluster\<lparr>Client_UpdateObject := (\<lambda>_. ret (Inl (ErrConflict ''stale'')))\<rparr>"
        "ObjConfigMap demo_cm" "demo_cluster False" "ErrConflict ''stale''" "demo_cluster False" "demo_client ''x''"]
    by (simp add: demo_cm_def demo_meta_def zero_meta_def)
qed

section \<open>Deleting a DynamicConfiguration\<close>

lemma run_replace_dc:
  "run_state (replace_dc upd) (z, h) =
     (case run_state (upd (h_dc h)) (h_world h) of
        (Inl e, s) \<Rightarrow> (Some e, (z, h\<lparr>h_world := s\<rparr>))
      | (Inr x, s) \<Rightarrow> (None, (z, h\<lparr>h_world := s, h_dc := x\<rparr>)))"
  by (simp add: replace_dc_def split: prod.split sum.split)

lemma run_set_dc: "run_state (set_dc f) (z, h) = ((), (z, h\<lparr>h_dc := f (h_dc h)\<rparr>))"
  by simp

lemma finalizing_run:
  assumes "run_state (Client_GetDC K req) s = (Inr dc, s1)" "om_DeletionTimestamp (dc_Meta dc) \<noteq> None"
    "FinalizerName \<in> set (om_Finalizers (dc_Meta dc))" "distinct (om_Finalizers (dc_Meta dc))"
    "run_state (CleanOldNacosConfig C dc) s1 = (r, s2)"
  shows "run_state (DynamicConfigurationReconciler_Reconcile K C rng req) (z, s) =
    (case r of
       Some err \<Rightarrow> ((no_requeue, Some err),
          (z, exec (Client_StatusUpdateDC K (FailedStatus dc (ErrorText err))) s2))
     | None \<Rightarrow> (case run_state (Client_UpdateDC K (set_finalizers (removeAll FinalizerName (om_Finalizers (dc_Meta dc))) dc)) s2 of
          (u, s3) \<Rightarrow> ((no_requeue, case u of Inl e \<Rightarrow> Some e | Inr _ \<Rightarrow> None), (stop_fuzzy dc z, s3))))"
proof -
  have rm: "Remove (om_Finalizers (dc_Meta dc)) FinalizerName = Ok (removeAll FinalizerName (om_Finalizers (dc_Meta dc)))"
    using assms(4) by (rule Remove_distinct)
  have fin: "run_state (finalize_state C dc) (z, h) =
      (r, (case r of None \<Rightarrow> stop_fuzzy dc z | Some _ \<Rightarrow> z, h\<lparr>h_world := s2\<rparr>))" if "h_world h = s1" for h :: "(unit, 'a) handler"
    using that by (simp add: finalize_state_def DC_Finalize_def assms(5) split: option.split)
  show ?thesis
    by (cases r)
       (simp_all add: DynamicConfigurationReconciler_Reconcile_def reconcile_fetched_def DC_doFinalization_def assms(1-3)
          fin run_bindO run_replace_dc recovered_def rm split: prod.split sum.split)
qed

text \<open>
  C8: a DynamicConfiguration under deletion, with a well-formed status, keeps its finalizer until the listening to all its data ids
  was cancelled.  The reconciler cancels, at the server the status names and in turn, the listening to each data id the status
  records, and no other.  At the first cancellation that fails its error is returned, the only write is that of the
  failed status, and the discovery task goes on; when none fails the client is closed and the resource is written once, with the
  finalizer and nothing else removed, and the discovery task is told to stop.
\<close>

theorem finalizer_kept_until_cancelled:
  assumes "run_state (Client_GetDC K req) s = (Inr dc, s1)" "om_DeletionTimestamp (dc_Meta dc) \<noteq> None"
    "FinalizerName \<in> set (om_Finalizers (dc_Meta dc))" "distinct (om_Finalizers (dc_Meta dc))" "wf_status dc"
  shows "(\<forall>g d. (g, d) \<in> set (listened_pairs dc) \<longleftrightarrow> listens dc g d) \<and>
   ((\<exists>i<length (listened_pairs dc). \<exists>err. (\<forall>j<i. cancel_error C dc j s1 = None) \<and> cancel_error C dc i s1 = Some err \<and>
      run_state (DynamicConfigurationReconciler_Reconcile K C rng req) (z, s) = ((no_requeue, Some err),
        (z, exec (Client_StatusUpdateDC K (FailedStatus dc (ErrorText err))) (after_cancels C dc (Suc i) s1)))) \<or>
    (\<forall>i<length (listened_pairs dc). cancel_error C dc i s1 = None) \<and>
      run_state (DynamicConfigurationReconciler_Reconcile K C rng req) (z, s) =
       (case run_state (Client_UpdateDC K (set_finalizers (removeAll FinalizerName (om_Finalizers (dc_Meta dc))) dc))
            (exec (CloseClient C (cancel_param dc [] [])) (after_cancels C dc (length (listened_pairs dc)) s1)) of
          (u, s3) \<Rightarrow> ((no_requeue, case u of Inl e \<Rightarrow> Some e | Inr _ \<Rightarrow> None), (stop_fuzzy dc z, s3))))"
proof -
  have pairs: "(g, d) \<in> set (listened_pairs dc) \<longleftrightarrow> listens dc g d" for g d using listened_pairs_iff [OF assms(5)] .
  show ?thesis
  proof (cases rule: CleanOldNacosConfig_cases [of dc C s1])
    case (failed i err)
    then show ?thesis using finalizing_run [OF assms(1-4) failed(4)] pairs by auto
  next
    case cancelled
    then show ?thesis using finalizing_run [OF assms(1-4) cancelled(2)] pairs by simp
  qed
qed

definition demo_deleted :: DynamicConfiguration where
  "demo_deleted = AddListenConfig ((demo_dc False)\<lparr>dc_Meta := (dc_Meta (demo_dc False))\<lparr>
     om_DeletionTimestamp := Some 7, om_Finalizers := [''other'', FinalizerName]\<rparr>\<rparr>) ''configmap.app'' ''k''"

definition demo_leaving :: cluster where
  "demo_leaving = (demo_cluster False)\<lparr>cl_DCs := [((''ns'', ''dc''), demo_deleted)]\<rparr>"

lemma demo_deleted_sel [simp]:
  "om_DeletionTimestamp (dc_Meta demo_deleted) = Some 7" "om_Finalizers (dc_Meta demo_deleted) = [''other'', FinalizerName]"
  "dc_ListenConfigs demo_deleted = [(''configmap.app'', [''k''])]"
  by (simp_all add: demo_deleted_def AddListenConfig_def Let_def demo_dc_def mget0_def)

lemma demo_deleted_wf: "wf_status demo_deleted"
  unfolding demo_deleted_def by (rule wf_AddListenConfig) (simp add: wf_status_def demo_dc_def mget0_def)

lemma demo_leaving_get: "run_state (Client_GetDC one_cluster demo_key) demo_leaving = (Inr demo_deleted, demo_leaving)"
  by (simp add: one_cluster_dcs api_get_def filed_in_def demo_leaving_def demo_key_def)
     (simp add: demo_deleted_def demo_dc_def demo_meta_def)

theorem finalizer_kept_until_cancelled_witness:
  "fst (run_state (DynamicConfigurationReconciler_Reconcile one_cluster
      ((demo_client [])\<lparr>CancelListenConfig := (\<lambda>_. ret (Some (ErrOther ''down'')))\<rparr>) (\<lambda>m. m) demo_key) (no_tasks, demo_leaving))
   = (no_requeue, Some (ErrOther ''down''))"
proof -
  let ?C = "(demo_client [])\<lparr>CancelListenConfig := (\<lambda>_. ret (Some (ErrOther ''down'')))\<rparr>"
  have pairs: "listened_pairs demo_deleted = [(''configmap.app'', ''k'')]" by (simp add: listened_pairs_def)
  have zero: "\<not> All ((<) (0::nat))" by blast
  have "distinct (om_Finalizers (dc_Meta demo_deleted))" "FinalizerName \<in> set (om_Finalizers (dc_Meta demo_deleted))"
    "om_DeletionTimestamp (dc_Meta demo_deleted) \<noteq> None" "wf_status demo_deleted"
    by (simp_all add: FinalizerName_def demo_deleted_wf)
  then show ?thesis
    using finalizer_kept_until_cancelled [OF demo_leaving_get, of ?C "\<lambda>m. m" no_tasks] by (simp add: pairs cancel_error_def zero)
qed

section \<open>The stored status\<close>

text \<open>
  C7: a reconciliation of a DynamicConfiguration whose synchronisation returns and whose status is
  accepted leaves in the cluster a well-formed status: phase succeed exactly when the synchronisation
  returned no error and every recorded sync status is ready, phase failed otherwise, for the
  generation that was read; a failed synchronisation is returned as the error.
\<close>

theorem dc_reconcile_stores_status:
  assumes st: "dc_storage K dview"
    and dc: "run_state (Client_GetDC K req) s = (Inr dc, s1)" "om_DeletionTimestamp (dc_Meta dc) = None"
      "FinalizerName \<in> set (om_Finalizers (dc_Meta dc))" "wf_status dc"
    and sync: "run_state (SyncDynamicConfiguration K C rng) (z, \<lparr>h_world = s1, h_obj = (), h_dc = dc, h_errs = []\<rparr>)
      = (Ok err, (z', h'))"
    and upd: "run_state (Client_StatusUpdateDC K
        (case err of None \<Rightarrow> UpdateStatus (h_dc h') | Some e \<Rightarrow> FailedStatus (h_dc h') (ErrorText e))) (h_world h') = (Inr x, s2)"
  shows "run_state (DynamicConfigurationReconciler_Reconcile K C rng req) (z, s) = ((no_requeue, err), (z', s2)) \<and>
    dview s2 req = Some x \<and> wf_status x \<and> sts_ObservedGeneration (dc_Status x) = om_Generation (dc_Meta dc) \<and>
    sts_Phase (dc_Status x) =
      (if err = None \<and> (\<forall>g d v. GetSyncStatusByDataId x g d = Some v \<longrightarrow> st_Ready v) then PhaseSucceed else PhaseFailed)"
proof -
  let ?h = "\<lparr>h_world = s1, h_obj = (), h_dc = dc, h_errs = []\<rparr> :: (unit, 'a) handler"
  define y where "y = (case err of None \<Rightarrow> UpdateStatus (h_dc h') | Some e \<Rightarrow> FailedStatus (h_dc h') (ErrorText e))"
  note inv = keepsD [OF keeps_SyncDynamicConfiguration, of _ "(z, ?h)" K C rng]
  have wf: "wf_status (h_dc h')" and meta: "dc_Meta (h_dc h') = dc_Meta dc"
    using inv [OF sync_inv_wf] inv [OF sync_inv_identity [of "dc_Spec dc" "dc_Meta dc"]] sync dc(4)
    by (simp_all add: hinv_def)
  have run: "run_state (DynamicConfigurationReconciler_Reconcile K C rng req) (z, s) = ((no_requeue, err), (z', s2))"
    using dc upd
    by (cases err) (simp_all add: DynamicConfigurationReconciler_Reconcile_def reconcile_fetched_def DC_ensureFinalizer_def
        sync_and_report_def run_bindO sync run_replace_dc recovered_def)
  have "dview s req = Some dc" using dc_storage_get(2) [OF st dc(1)] by simp
  then have key: "req = \<lparr>nn_Namespace = dc_Namespace dc, nn_Name = dc_Name dc\<rparr>"
    using st unfolding dc_storage_def by blast
  have u: "run_state (Client_StatusUpdateDC K y) (h_world h') = (Inr x, s2)" using upd by (simp add: y_def)
  have "dc_Meta y = dc_Meta dc" using meta by (simp add: y_def split: option.split)
  then have stat: "dc_Status x = dc_Status y" "dview s2 req = Some x"
    using dc_storage_update [OF st u] key by simp_all
  have y: "wf_status y" "sts_ObservedGeneration (dc_Status y) = om_Generation (dc_Meta dc)"
    "sts_Phase (dc_Status y) =
      (if err = None \<and> (\<forall>g d v. GetSyncStatusByDataId y g d = Some v \<longrightarrow> st_Ready v) then PhaseSucceed else PhaseFailed)"
    using wf meta wf_status_all_ready [OF wf]
    by (simp_all add: y_def UpdateStatus_phase GetSyncStatusByDataId_eq split: option.split)
       (auto simp: UpdateStatus_def FailedStatus_def Let_def split: option.split)
  have "GetSyncStatusByDataId x = GetSyncStatusByDataId y" "wf_status x = wf_status y"
    using stat(1) by (simp_all add: GetSyncStatusByDataId_eq fun_eq_iff wf_status_def)
  then show ?thesis using run stat y by simp
qed

definition demo_guarded :: DynamicConfiguration where
  "demo_guarded = (h_dc (demo_synced ''full''))\<lparr>dc_Meta := (dc_Meta (demo_dc False))\<lparr>om_Finalizers := [FinalizerName]\<rparr>\<rparr>"

definition demo_steady :: cluster where
  "demo_steady = (demo_cluster False)\<lparr>cl_DCs := [((''ns'', ''dc''), demo_guarded)]\<rparr>"

lemma demo_guarded_sel [simp]:
  "om_Finalizers (dc_Meta demo_guarded) = [FinalizerName]" "om_DeletionTimestamp (dc_Meta demo_guarded) = None"
  "dc_Status demo_guarded = dc_Status (h_dc (demo_synced ''full''))" "dc_Spec demo_guarded = dc_Spec (h_dc (demo_synced ''full''))"
  "om_Namespace (dc_Meta demo_guarded) = ''ns''" "om_Name (dc_Meta demo_guarded) = ''dc''"
  by (simp_all add: demo_guarded_def demo_dc_def demo_meta_def zero_meta_def)

lemma demo_guarded_wf: "wf_status demo_guarded" "\<not> checkNacosServerChange demo_guarded"
  using demo_synced_sel(2,3) [of "''full''"] by (simp_all add: wf_status_def checkNacosServerChange_iff)

lemma demo_steady_get: "run_state (Client_GetDC one_cluster demo_key) demo_steady = (Inr demo_guarded, demo_steady)"
  by (simp add: one_cluster_dcs api_get_def filed_in_def demo_steady_def demo_key_def)

theorem dc_reconcile_stores_status_witness:
  "\<exists>x z' s2. run_state (DynamicConfigurationReconciler_Reconcile one_cluster (demo_client []) (\<lambda>m. m) demo_key)
      (no_tasks, demo_steady) = ((no_requeue, None), (z', s2)) \<and> filed_dc s2 demo_key = Some x \<and> wf_status x"
proof -
  let ?h = "\<lparr>h_world = demo_steady, h_obj = (), h_dc = demo_guarded, h_errs = []\<rparr> :: (unit, cluster) handler"
  obtain z' where sync: "run_state (SyncDynamicConfiguration one_cluster (demo_client []) (\<lambda>m. m)) (no_tasks, ?h) = (Ok None, (z', ?h))"
    using demo_synced_sel(4,5) [of "''full''"] demo_guarded_wf(2)
    by (simp add: SyncDynamicConfiguration_def syncFull_def syncFull2Full_def Let_def run_bindO dc_constants)
  have "dc_Meta (UpdateStatus demo_guarded) = dc_Meta demo_guarded" by simp
  then obtain x s2 where upd: "run_state (Client_StatusUpdateDC one_cluster (UpdateStatus demo_guarded)) demo_steady = (Inr x, s2)"
    by (simp add: one_cluster_dcs api_put_def Let_def filed_in_def meta_key_def demo_steady_def)
  show ?thesis
    using dc_reconcile_stores_status [OF dc_storage_one_cluster demo_steady_get _ _ demo_guarded_wf(1) sync, of x s2] upd by auto
qed

section \<open>A panic is not retried\<close>

text \<open>
  A publication the server refuses without an error is lost silently.  The handler panics on the
  first such data id, the deferred \<^verbatim>\<open>recover\<close> swallows it, and the reconciler reports success: no
  error, no requeue, no status, and the remaining data ids and resources are not visited.
\<close>

theorem refused_publication_lost:
  assumes "run_state (Client_GetConfigMap K req) s = (Inr cm, s0)" "ctx \<noteq> ''null''"
    and group: "g = ''configmap.'' @ om_Name (cm_Meta cm)"
    and obj: "om_Kind (cm_Meta cm) = ''ConfigMap''" "om_DeletionTimestamp (cm_Meta cm) = None"
      "ContainsFinalizer K (cm_Meta cm) FinalizerName" "GetConfigMapAllKeys cm = d # ds"
    and dcs: "run_state (Client_ListDC K (om_Namespace (cm_Meta cm))) s0 = (Inr (dc # rest), s1)"
      "dc_Namespace dc = om_Namespace (cm_Meta cm)" "mget (dc_ListenConfigs dc) g = None"
    and get: "run_state (GetConfig C (config_param dc g d [] None)) s1 = ((server, err), s2)"
    and push: "decide (prefers_cluster dc) server (fst (GetConfigMapContent cm d)) = PushCluster"
      "run_state (PublishConfig C (config_param dc g d (fst (GetConfigMapContent cm d)) None)) s2
        = ((False, None), s3)"
  shows "run_state (ConfigMapReconciler_Reconcile K C req) (ctx, s) = ((no_requeue, None), (ctx, s3))"
proof -
  let ?h = "\<lparr>h_world = s1, h_obj = ObjConfigMap cm, h_dc = dc, h_errs = []\<rparr>"
  have g: "obj_group (ObjConfigMap cm) = g" by (simp add: obj_group_def obj(1) group)
  have km: "kind_matches (h_obj ?h)" using obj(1) by simp
  have rc: "run_state (reconcile_content K C g d) ?h = content_result K C g d ?h server s2"
    by (rule reconcile_content_decides [OF km]) (use get in simp)
  have one: "run_state (configDataIdSync K C d cb) ?h = (Panic, ?h\<lparr>h_world := s3, h_errs := [g @ ''#'' @ d]\<rparr>)" for cb
    using push by (simp add: configDataIdSync_def Let_def run_bindO rc content_result_def g)
  have grp: "run_state (Sync_configGroupSync K C) ?h = (Panic, ?h\<lparr>h_world := s3, h_errs := [g @ ''#'' @ d]\<rparr>)"
    using obj(1,4) by (simp add: Sync_configGroupSync_def Let_def run_bindO one)
  have rd: "run_state (for_dc (reconcile_dc K C g ref ids) dc) (ObjConfigMap cm, s1) = (Panic, (ObjConfigMap cm, s3))" for ref ids
    using grp dcs(2,3) g
    by (simp add: run_for_dc reconcile_dc_def DynamicConfigurationMatch_eq Let_def run_bindO)
  have "run_state (DoReconcile K C) (ObjConfigMap cm, s0) = (Panic, (ObjConfigMap cm, s3))"
    using obj(1,4) dcs(1) by (simp add: DoReconcile_def run_bindO g rd)
  then show ?thesis
    using assms(1,2) obj(2,3)
    by (simp add: ConfigMapReconciler_Reconcile_def reconcile_object_def Object_ensureFinalizer_def run_bindO recovered_def)
qed

definition demo_stored :: ConfigMap where
  "demo_stored = demo_cm\<lparr>cm_Meta := (cm_Meta demo_cm)\<lparr>om_Finalizers := [FinalizerName]\<rparr>, cm_Data := [(''k'', ''v'')]\<rparr>"

definition demo_ready :: cluster where
  "demo_ready = (demo_cluster False)\<lparr>cl_ConfigMaps := [((''ns'', ''app''), demo_stored)]\<rparr>"

theorem refused_publication_lost_witness:
  "run_state (ConfigMapReconciler_Reconcile one_cluster ((demo_client [])\<lparr>PublishConfig := (\<lambda>_. ret (False, None))\<rparr>)
     \<lparr>nn_Namespace = ''ns'', nn_Name = ''app''\<rparr>) (''c1'', demo_ready) = ((no_requeue, None), (''c1'', demo_ready))"
proof (rule refused_publication_lost [where cm = demo_stored and dc = "demo_dc False" and d = "''k''" and ?s0.0 = demo_ready
      and ds = "[]" and rest = "[]" and ?s1.0 = demo_ready and server = "[]" and err = None and ?s2.0 = demo_ready])
  have sel: "cm_Data demo_stored = [(''k'', ''v'')]" "cm_BinaryData demo_stored = []" "om_Kind (cm_Meta demo_stored) = ''ConfigMap''"
    "om_Namespace (cm_Meta demo_stored) = ''ns''" "om_Name (cm_Meta demo_stored) = ''app''"
    "om_Finalizers (cm_Meta demo_stored) = [FinalizerName]" "om_DeletionTimestamp (cm_Meta demo_stored) = None"
    by (simp_all add: demo_stored_def demo_cm_def demo_meta_def zero_meta_def)
  show "run_state (Client_GetConfigMap one_cluster \<lparr>nn_Namespace = ''ns'', nn_Name = ''app''\<rparr>) demo_ready = (Inr demo_stored, demo_ready)"
    by (simp add: one_cluster_def api_server_def on_part_def api_get_def filed_in_def demo_ready_def sel)
  show "run_state (Client_ListDC one_cluster (om_Namespace (cm_Meta demo_stored))) demo_ready = (Inr [demo_dc False], demo_ready)"
    by (simp add: one_cluster_def api_server_def on_part_def in_namespace_def demo_ready_def demo_cluster_def sel)
  show "ContainsFinalizer one_cluster (cm_Meta demo_stored) FinalizerName"
    by (simp add: one_cluster_def api_server_def sel)
  have c: "fst (GetConfigMapContent demo_stored ''k'') = ''v''" by (simp add: GetConfigMapContent_def sel)
  then show "decide (prefers_cluster (demo_dc False)) [] (fst (GetConfigMapContent demo_stored ''k'')) = PushCluster"
    by (simp add: decide_def)
  show "om_Kind (cm_Meta demo_stored) = ''ConfigMap''" "om_DeletionTimestamp (cm_Meta demo_stored) = None" by (simp_all add: sel)
  show "GetConfigMapAllKeys demo_stored = [''k'']" by (simp add: GetConfigMapAllKeys_def sel)
  show "dc_Namespace (demo_dc False) = om_Namespace (cm_Meta demo_stored)" by (simp add: sel demo_dc_def demo_meta_def)
  show "mget (dc_ListenConfigs (demo_dc False)) (''configmap.app'') = None" by (simp add: demo_dc_def)
  show "''configmap.app'' = ''configmap.'' @ om_Name (cm_Meta demo_stored)" by (simp add: sel)
qed simp_all

end
