(* ===== verification/Config_Agreement.thy ===== *)
theory Config_Agreement
  imports Config_Sync
begin

text \<open>
  An abstract account of \<^verbatim>\<open>config_sync_controller.go\<close>: for each data id the content in the object, the content on the server, the recorded
  md5 and whether it is listened to, and a function that says what one reconciliation makes of them.  Reconciling an object
  refines that function on every data id at once, which gives agreement of the two sides.
\<close>

section \<open>Nacos as a store of contents\<close>

text \<open>
  What a successful call does to the configurations of the server \<open>srv\<close>, which nobody else writes meanwhile: \<open>remote s g d\<close> is the content
  of a data id in a group, the empty string where there is none.  Reading returns it, publishing and deleting replace it, listening
  leaves it.  Of calls that fail only this is said: a failed read writes nothing, but it may return anything; \<open>misread s g d\<close> records that some
  read of the data id has returned something else than its content, and no other call touches that record.
\<close>

definition config_storage ::
  "'s NacosConfigClient \<Rightarrow> NacosServerParam \<Rightarrow> ('s \<Rightarrow> string \<Rightarrow> string \<Rightarrow> string) \<Rightarrow> ('s \<Rightarrow> string \<Rightarrow> string \<Rightarrow> bool) \<Rightarrow> bool" where
  "config_storage C srv remote misread \<longleftrightarrow> (\<forall>p. ncp_NacosServerParam p = srv \<longrightarrow>
     (\<forall>s c e s'. run_state (GetConfig C p) s = ((c, e), s') \<longrightarrow>
        (e = None \<longrightarrow> c = remote s (ncp_Group p) (ncp_DataId p)) \<and> remote s' = remote s \<and>
        misread s' = (misread s)(ncp_Group p := (misread s (ncp_Group p))(ncp_DataId p :=
          misread s (ncp_Group p) (ncp_DataId p) \<or> c \<noteq> remote s (ncp_Group p) (ncp_DataId p)))) \<and>
     (\<forall>s s'. run_state (PublishConfig C p) s = ((True, None), s') \<longrightarrow>
        remote s' = (remote s)(ncp_Group p := (remote s (ncp_Group p))(ncp_DataId p := ncp_Content p))) \<and>
     (\<forall>s s'. run_state (DeleteConfig C p) s = ((True, None), s') \<longrightarrow>
        remote s' = (remote s)(ncp_Group p := (remote s (ncp_Group p))(ncp_DataId p := []))) \<and>
     (\<forall>s s'. run_state (ListenConfig C p) s = (None, s') \<longrightarrow> remote s' = remote s) \<and>
     (\<forall>s. misread (exec (PublishConfig C p) s) = misread s \<and> misread (exec (DeleteConfig C p) s) = misread s \<and>
        misread (exec (ListenConfig C p) s) = misread s))"

lemma config_param_sel [simp]:
  "ncp_NacosServerParam (config_param dc g d c cb) = server_param dc" "ncp_Group (config_param dc g d c cb) = g"
  "ncp_DataId (config_param dc g d c cb) = d" "ncp_Content (config_param dc g d c cb) = c"
  by (simp_all add: config_param_def)

section \<open>One data id\<close>

record item =
  it_present :: bool \<comment> \<open>a key of the object\<close>
  it_local :: string
  it_remote :: string
  it_md5 :: string
  it_listened :: bool
  it_misread :: bool \<comment> \<open>a read from the server has returned something else\<close>

text \<open>
  Seen for the first time: \<open>seen\<close> is what the read from the server returned, which wins or loses against the local content.  Where it wins
  it is stored in the object, from which it reads as \<open>back seen\<close>; where it loses the local content is published.  \<open>md5_of\<close> the winner is
  recorded, which is the empty string in \<^verbatim>\<open>config_sync_controller.go\<close> and the md5 in \<^verbatim>\<open>nacos_controller.go\<close>.
\<close>

definition first_item :: "(string \<Rightarrow> string) \<Rightarrow> bool \<Rightarrow> (string \<Rightarrow> string) \<Rightarrow> string \<Rightarrow> item \<Rightarrow> item" where
  "first_item md5_of preferCluster back seen x =
     (case decide preferCluster seen (it_local x) of
        TakeServer \<Rightarrow> x\<lparr>it_local := back seen, it_md5 := md5_of seen, it_listened := True\<rparr>
      | PushCluster \<Rightarrow> x\<lparr>it_remote := it_local x, it_md5 := md5_of (it_local x), it_listened := True\<rparr>
      | LeaveBoth \<Rightarrow> x\<lparr>it_listened := True\<rparr>)"

text \<open>Listened to, but not a key of the object any more.\<close>

definition drop_item :: "bool \<Rightarrow> item \<Rightarrow> item" where
  "drop_item deletion x = x\<lparr>it_remote := (if deletion then [] else it_remote x), it_md5 := []\<rparr>"

text \<open>Listened to, and a key of the object: the local content goes to the server if its md5 is not the recorded one.\<close>

definition push_item :: "bool \<Rightarrow> item \<Rightarrow> item" where
  "push_item deletion x =
     (if it_md5 x = CalcMd5 (it_local x) then x
      else if it_local x \<noteq> [] then x\<lparr>it_remote := it_local x, it_md5 := CalcMd5 (it_local x)\<rparr>
      else if deletion then x\<lparr>it_remote := [], it_md5 := []\<rparr> else x)"

definition sync_item :: "SyncStrategy \<Rightarrow> (string \<Rightarrow> string) \<Rightarrow> string \<Rightarrow> item \<Rightarrow> item" where
  "sync_item strategy back seen x =
     (if it_listened x
      then if it_present x then push_item (ss_SyncDeletion strategy) x else drop_item (ss_SyncDeletion strategy) x
      else if it_present x then first_item (\<lambda>_. []) (ss_ConflictPolicy strategy = PreferCluster) back seen x else x)"

text \<open>
  A step from \<open>x\<close> to \<open>y\<close> is what \<open>f\<close> makes of \<open>x\<close> for what was seen: the content on the server, unless a read of it is recorded as wrong.
\<close>

definition seeing :: "(string \<Rightarrow> item \<Rightarrow> item) \<Rightarrow> item \<Rightarrow> item \<Rightarrow> bool" where
  "seeing f x y \<longleftrightarrow> (it_misread x \<longrightarrow> it_misread y) \<and>
     (\<exists>seen. (it_misread y \<or> seen = it_remote x) \<and> y = (f seen x)\<lparr>it_misread := it_misread y\<rparr>)"

lemma seeing_blind:
  assumes "\<And>seen. f seen x = y" and "it_misread y = it_misread x"
  shows "seeing f x y"
  unfolding seeing_def using assms(2) by (intro conjI impI exI [of _ "it_remote x"]) (simp_all add: assms(1))

lemma seeing_true: "seeing f x y \<Longrightarrow> \<not> it_misread y \<Longrightarrow> y = (f (it_remote x) x)\<lparr>it_misread := it_misread y\<rparr>"
  unfolding seeing_def by blast

text \<open>What a handler holds of a data id.\<close>

definition item_of ::
  "('s \<Rightarrow> string \<Rightarrow> string \<Rightarrow> string) \<Rightarrow> ('s \<Rightarrow> string \<Rightarrow> string \<Rightarrow> bool) \<Rightarrow> string \<Rightarrow> (Object, 's) handler \<Rightarrow> string \<Rightarrow> item" where
  "item_of remote misread g h d = \<lparr>it_present = snd (object_content (h_obj h) d), it_local = fst (object_content (h_obj h) d),
     it_remote = remote (h_world h) g d, it_md5 = recorded_md5 (h_dc h) g d, it_listened = listens (h_dc h) g d,
     it_misread = misread (h_world h) g d\<rparr>"

lemma item_of_sel [simp]:
  "it_present (item_of remote misread g h d) = snd (object_content (h_obj h) d)"
  "it_local (item_of remote misread g h d) = fst (object_content (h_obj h) d)"
  "it_remote (item_of remote misread g h d) = remote (h_world h) g d"
  "it_md5 (item_of remote misread g h d) = recorded_md5 (h_dc h) g d" "it_listened (item_of remote misread g h d) = listens (h_dc h) g d"
  "it_misread (item_of remote misread g h d) = misread (h_world h) g d"
  by (simp_all add: item_of_def)

section \<open>Updates of a set of data ids\<close>

text \<open>
  From \<open>h\<close> to \<open>h'\<close> each data id of \<open>D\<close> makes a step of \<open>R\<close>; other data ids, other groups and what the object makes of contents stored under
  other keys are as before.
\<close>

definition updates ::
  "('s \<Rightarrow> string \<Rightarrow> string \<Rightarrow> string) \<Rightarrow> ('s \<Rightarrow> string \<Rightarrow> string \<Rightarrow> bool) \<Rightarrow> string \<Rightarrow> string set \<Rightarrow> (string \<Rightarrow> item \<Rightarrow> item \<Rightarrow> bool) \<Rightarrow>
   (Object, 's) handler \<Rightarrow> (Object, 's) handler \<Rightarrow> bool" where
  "updates remote misread g D R h h' \<longleftrightarrow>
     (\<forall>d. if d \<in> D then R d (item_of remote misread g h d) (item_of remote misread g h' d)
          else item_of remote misread g h' d = item_of remote misread g h d) \<and>
     (\<forall>x. x \<noteq> g \<longrightarrow> remote (h_world h') x = remote (h_world h) x) \<and>
     (\<forall>d. d \<notin> D \<longrightarrow> read_back (h_obj h') d = read_back (h_obj h) d)"

lemma updates_none: "item_of remote misread g h' = item_of remote misread g h \<Longrightarrow> remote (h_world h') = remote (h_world h) \<Longrightarrow>
  h_obj h' = h_obj h \<Longrightarrow> updates remote misread g {} R h h'"
  by (simp add: updates_def)

lemma updates_same: "updates remote misread g D R h h' \<Longrightarrow> d \<notin> D \<Longrightarrow> item_of remote misread g h' d = item_of remote misread g h d"
  by (simp add: updates_def)

lemma updates_in: "updates remote misread g D R h h' \<Longrightarrow> d \<in> D \<Longrightarrow> R d (item_of remote misread g h d) (item_of remote misread g h' d)"
  by (simp add: updates_def)

lemma updates_back: "updates remote misread g D R h h' \<Longrightarrow> d \<notin> D \<Longrightarrow> read_back (h_obj h') d = read_back (h_obj h) d"
  by (simp add: updates_def)

lemma updates_then:
  assumes "updates remote misread g D R h h1" "updates remote misread g E R h1 h2" "D \<inter> E = {}"
  shows "updates remote misread g (D \<union> E) R h h2"
  unfolding updates_def
proof (intro conjI allI)
  fix d
  show "if d \<in> D \<union> E then R d (item_of remote misread g h d) (item_of remote misread g h2 d)
      else item_of remote misread g h2 d = item_of remote misread g h d"
  proof (cases "d \<in> D")
    case True
    then have "d \<notin> E" using assms(3) by blast
    then show ?thesis using assms(1,2) True unfolding updates_def by (metis UnCI)
  next
    case False
    then show ?thesis using assms(1,2) unfolding updates_def by (metis Un_iff)
  qed
qed (use assms in \<open>auto simp: updates_def\<close>)

text \<open>What the steps of one reconciliation keep.\<close>

definition handles :: "string \<Rightarrow> NacosServerParam \<Rightarrow> SyncStrategy \<Rightarrow> (Object, 's) handler \<Rightarrow> bool" where
  "handles g srv strategy = hinv (\<lambda>x. kind_matches x \<and> obj_group x = g) (\<lambda>dc. server_param dc = srv \<and> dc_Strategy dc = strategy)"

lemma group_inv_server: "group_inv g (\<lambda>dc. server_param dc = srv \<and> dc_Strategy dc = strategy)"
  by (simp add: group_inv_def server_param_def)

lemma handles_sel:
  assumes "handles g srv strategy h"
  shows "kind_matches (h_obj h)" "obj_group (h_obj h) = g" "server_param (h_dc h) = srv" "dc_Strategy (h_dc h) = strategy"
  using assms by (simp_all add: handles_def hinv_def)

lemma keeps_handles:
  "keeps (handles g srv strategy) (configDataIdSync K C d cb)" "keeps (handles g srv strategy) (delete_or_ignore K C g d)"
  "keeps (handles g srv strategy) (sync_existing K C g d)" "keeps (handles g srv strategy) (relisten K C g cb d)"
  unfolding handles_def
  by (intro keeps_configDataIdSync [OF obj_inv_kind] keeps_delete_or_ignore keeps_sync_existing keeps_relisten group_inv_server)+

lemma keeps_errs_steps:
  "keeps (\<lambda>h. e \<in> set (h_errs h)) (delete_or_ignore K C g d)" "keeps (\<lambda>h. e \<in> set (h_errs h)) (sync_existing K C g d)"
  "keeps (\<lambda>h. e \<in> set (h_errs h)) (relisten K C g cb d)"
  unfolding delete_or_ignore_def delete_remote_def sync_existing_def relisten_def Let_def by (intro keeps_rules)+

lemma keeps_run: "keeps I m \<Longrightarrow> I h \<Longrightarrow> run_state m h = (r, h') \<Longrightarrow> I h'"
  using keepsD [of I m h] by simp

lemma handles_loop:
  "(\<And>d. keeps (handles g srv st) (m d)) \<Longrightarrow> handles g srv st h \<Longrightarrow> run_state (for_each m ids) h = (r, h') \<Longrightarrow> handles g srv st h'"
  using keepsD [OF keeps_for_each, of "handles g srv st" m h ids] by simp

text \<open>A program that ends with an empty error list had one all the way.\<close>

lemma no_errs_before:
  assumes "\<And>e. keeps (\<lambda>h. e \<in> set (h_errs h)) m" and "run_state m h = (r, h')" and "h_errs h' = []"
  shows "h_errs h = []"
proof (cases "h_errs h")
  case (Cons e es)
  then show ?thesis using keepsD [OF assms(1) [of e], of h] assms(2,3) by simp
qed

text \<open>
  The loop over distinct data ids, when each pass updates its own and does not disturb the condition \<open>Q\<close> of the others.  The handler
  may be another one than that of the items: \<open>u\<close> gives the latter.
\<close>

lemma for_each_no_errs:
  assumes errs: "\<And>d e. keeps (\<lambda>h. e \<in> set (h_errs h)) (m d)" and "run_state (for_each m ids) h = (r, h')" and "h_errs h' = []"
  shows "h_errs h = []"
  by (rule no_errs_before [OF keeps_for_each assms(2,3)]) (rule errs)

lemma loop_updates:
  assumes body: "\<And>d h h'. d \<in> set ids \<Longrightarrow> I h \<Longrightarrow> Q d (u h) \<Longrightarrow> run_state (m d) h = (Ok (), h') \<Longrightarrow> h_errs h' = [] \<Longrightarrow>
      updates remote misread g {d} R (u h) (u h') \<and> I h'"
    and errs: "\<And>d e. keeps (\<lambda>h. e \<in> set (h_errs h)) (m d)"
    and Q: "\<And>d e h h'. updates remote misread g {e} R h h' \<Longrightarrow> d \<noteq> e \<Longrightarrow> Q d h \<Longrightarrow> Q d h'"
  shows "distinct ids \<Longrightarrow> I h \<Longrightarrow> \<forall>d\<in>set ids. Q d (u h) \<Longrightarrow>
    run_state (for_each m ids) h = (Ok (), h') \<Longrightarrow> h_errs h' = [] \<Longrightarrow> updates remote misread g (set ids) R (u h) (u h') \<and> I h'"
  using body
proof (induction ids arbitrary: h)
  case (Cons d ids)
  obtain h1 where h1: "run_state (m d) h = (Ok (), h1)" and rest: "run_state (for_each m ids) h1 = (Ok (), h')"
    using Cons.prems(4) by (auto simp: run_bindO split: prod.splits outcome.splits)
  have "h_errs h1 = []" by (rule for_each_no_errs [OF errs rest Cons.prems(5)])
  then have u: "updates remote misread g {d} R (u h) (u h1)" "I h1"
    using Cons.prems(6) [OF _ Cons.prems(2) _ h1] Cons.prems(3) \<open>h_errs h1 = []\<close> by simp_all
  have Q1: "\<forall>e\<in>set ids. Q e (u h1)" using Q [OF u(1)] Cons.prems(1,3) by (metis distinct.simps(2) list.set_intros(2))
  have "updates remote misread g (set ids) R (u h1) (u h') \<and> I h'"
    by (rule Cons.IH [OF _ u(2) Q1 rest Cons.prems(5) Cons.prems(6)]) (use Cons.prems(1) in simp_all)
  then show ?case using updates_then [OF u(1)] Cons.prems(1) by simp
qed (simp add: updates_def)

lemma updates_cong:
  "updates remote misread g D R h h' \<Longrightarrow>
   (\<And>d y. d \<in> D \<Longrightarrow> R d (item_of remote misread g h d) y \<Longrightarrow> R' d (item_of remote misread g h d) y) \<Longrightarrow> updates remote misread g D R' h h'"
  by (simp add: updates_def)

section \<open>The steps\<close>

lemma recorded_md5_other:
  "recorded_md5 (UpdateSyncStatus dc g d m f t r x) g e = (if e = d then m else recorded_md5 dc g e)"
  "recorded_md5 (AddListenConfig dc g d) g e = recorded_md5 dc g e"
  by (simp_all add: recorded_md5_def GetSyncStatus_UpdateSyncStatus mk_status_def)

text \<open>The laws of the store for the calls of a handler.\<close>

lemma storage_calls:
  assumes "config_storage C srv remote misread" and "server_param dc = srv"
  shows "run_state (GetConfig C (config_param dc g d c0 cb)) s = ((c, e), s') \<Longrightarrow> (e = None \<longrightarrow> c = remote s g d) \<and> remote s' = remote s \<and>
      misread s' = (misread s)(g := (misread s g)(d := misread s g d \<or> c \<noteq> remote s g d))"
    and "run_state (PublishConfig C (config_param dc g d c0 cb)) s = ((True, None), s') \<Longrightarrow>
      remote s' = (remote s)(g := (remote s g)(d := c0)) \<and> misread s' = misread s"
    and "run_state (DeleteConfig C (config_param dc g d c0 cb)) s = ((True, None), s') \<Longrightarrow>
      remote s' = (remote s)(g := (remote s g)(d := [])) \<and> misread s' = misread s"
    and "run_state (ListenConfig C (config_param dc g d c0 cb)) s = (None, s') \<Longrightarrow> remote s' = remote s \<and> misread s' = misread s"
proof -
  note laws = assms(1) [unfolded config_storage_def, rule_format, of "config_param dc g d c0 cb", unfolded config_param_sel, OF assms(2)]
  show "run_state (GetConfig C (config_param dc g d c0 cb)) s = ((c, e), s') \<Longrightarrow> (e = None \<longrightarrow> c = remote s g d) \<and> remote s' = remote s \<and>
      misread s' = (misread s)(g := (misread s g)(d := misread s g d \<or> c \<noteq> remote s g d))"
    using laws by blast
  show "run_state (PublishConfig C (config_param dc g d c0 cb)) s = ((True, None), s') \<Longrightarrow>
      remote s' = (remote s)(g := (remote s g)(d := c0)) \<and> misread s' = misread s"
    and "run_state (DeleteConfig C (config_param dc g d c0 cb)) s = ((True, None), s') \<Longrightarrow>
      remote s' = (remote s)(g := (remote s g)(d := [])) \<and> misread s' = misread s"
    and "run_state (ListenConfig C (config_param dc g d c0 cb)) s = (None, s') \<Longrightarrow> remote s' = remote s \<and> misread s' = misread s"
    using laws by (metis snd_conv)+
qed

lemma drop_updates:
  assumes "config_storage C srv remote misread" and h: "handles g srv st h"
    and run: "run_state (delete_or_ignore K C g d) h = (Ok (), h')" and errs: "h_errs h' = []"
  shows "updates remote misread g {d} (\<lambda>_ x y. y = drop_item (ss_SyncDeletion st) x) h h'"
proof -
  note sel = handles_sel [OF h]
  show ?thesis
  proof (cases "ss_SyncDeletion st")
    case True
    obtain ok e s where del: "run_state (DeleteConfig C (config_param (h_dc h) g d [] None)) (h_world h) = ((ok, e), s)" by (metis surj_pair)
    then have "ok" "e = None" using run errs True sel by (auto simp: delete_or_ignore_def delete_remote_def split: if_splits)
    moreover from this have "remote s = (remote (h_world h))(g := (remote (h_world h) g)(d := []))" "misread s = misread (h_world h)"
      using storage_calls(3) [OF assms(1) sel(3)] del by simp_all
    ultimately show ?thesis using run del True sel
      by (auto simp: delete_or_ignore_def delete_remote_def updates_def item_of_def drop_item_def recorded_md5_other)
  next
    case False
    then show ?thesis using run sel
      by (auto simp: delete_or_ignore_def updates_def item_of_def drop_item_def recorded_md5_other)
  qed
qed

lemma push_updates:
  assumes "config_storage C srv remote misread" and h: "handles g srv st h"
    and run: "run_state (sync_existing K C g d) h = (Ok (), h')" and errs: "h_errs h' = []"
  shows "updates remote misread g {d} (\<lambda>_ x y. y = push_item (ss_SyncDeletion st) x) h h'"
proof -
  note sel = handles_sel [OF h]
  obtain c e where c: "object_content (h_obj h) d = (c, e)" by (metis surj_pair)
  then have get: "GetContent (h_obj h) d = Ok (c, e)" using sel by simp
  have ce: "\<not> e \<Longrightarrow> c = []" using object_content_absent c by (cases e) auto
  consider "recorded_md5 (h_dc h) g d = CalcMd5 c" | "recorded_md5 (h_dc h) g d \<noteq> CalcMd5 c" "c = []" "\<not> ss_SyncDeletion st"
    | "recorded_md5 (h_dc h) g d \<noteq> CalcMd5 c" "c = []" "ss_SyncDeletion st" | "recorded_md5 (h_dc h) g d \<noteq> CalcMd5 c" "c \<noteq> []"
    by blast
  then show ?thesis
  proof cases
    case 1
    then have "h' = h" using sync_existing_same [OF get 1, of K C] run by simp
    then show ?thesis using 1 c by (auto simp: updates_def push_item_def)
  next
    case 2
    then have "h' = h" using run get sel by (simp add: sync_existing_def Let_def recorded_md5_def [symmetric])
    then show ?thesis using 2 c by (auto simp: updates_def push_item_def)
  next
    case 3
    obtain ok e s where del: "run_state (DeleteConfig C (config_param (h_dc h) g d [] None)) (h_world h) = ((ok, e), s)" by (metis surj_pair)
    then have "ok" "e = None" using run errs 3 sel get
      by (auto simp: sync_existing_def Let_def recorded_md5_def [symmetric] delete_remote_def split: if_splits)
    moreover from this have "remote s = (remote (h_world h))(g := (remote (h_world h) g)(d := []))" "misread s = misread (h_world h)"
      using storage_calls(3) [OF assms(1) sel(3)] del by simp_all
    ultimately show ?thesis using run del 3 sel get c
      by (auto simp: sync_existing_def Let_def recorded_md5_def [symmetric] delete_remote_def updates_def item_of_def push_item_def recorded_md5_other)
  next
    case 4
    then have e using ce by auto
    obtain ok err s where pub: "run_state (PublishConfig C (config_param (h_dc h) g d c None)) (h_world h) = ((ok, err), s)" by (metis surj_pair)
    then have "ok" "err = None" using run errs 4 sel get \<open>e\<close>
      by (auto simp: sync_existing_def Let_def recorded_md5_def [symmetric] split: if_splits)
    moreover from this have "remote s = (remote (h_world h))(g := (remote (h_world h) g)(d := c))" "misread s = misread (h_world h)"
      using storage_calls(2) [OF assms(1) sel(3)] pub by simp_all
    ultimately show ?thesis using run pub 4 sel get c \<open>e\<close>
      by (auto simp: sync_existing_def Let_def recorded_md5_def [symmetric] updates_def item_of_def push_item_def recorded_md5_other)
  qed
qed

text \<open>What the object makes of a content stored under its key, as long as the key has not had its turn.\<close>

definition untouched :: "(string \<Rightarrow> string \<Rightarrow> string) \<Rightarrow> string \<Rightarrow> (Object, 's) handler \<Rightarrow> bool" where
  "untouched back d h \<longleftrightarrow> snd (object_content (h_obj h) d) \<and> read_back (h_obj h) d = back d"

lemma untouched_other:
  assumes "updates remote misread g {e} R h h'" "d \<noteq> e" "untouched back d h"
  shows "untouched back d h'"
proof -
  have "item_of remote misread g h' d = item_of remote misread g h d" using updates_same [OF assms(1)] assms(2) by simp
  then have "it_present (item_of remote misread g h' d) = it_present (item_of remote misread g h d)" by simp
  then show ?thesis using assms updates_back [OF assms(1), of d] by (simp add: untouched_def)
qed

lemma first_updates:
  assumes st: "config_storage C srv remote misread" and h: "handles g srv st h" and fresh: "untouched back d h"
    and run: "run_state (configDataIdSync K C d cb) h = (Ok (), h')" and errs: "h_errs h' = []"
  shows "updates remote misread g {d} (\<lambda>d. seeing (first_item (\<lambda>_. []) (ss_ConflictPolicy st = PreferCluster) (back d))) h h'"
proof -
  note sel = handles_sel [OF h]
  obtain server err s1 where get: "run_state (GetConfig C (config_param (h_dc h) g d [] None)) (h_world h) = ((server, err), s1)"
    by (metis surj_pair)
  have s1: "remote s1 = remote (h_world h)"
    "misread s1 = (misread (h_world h))(g := (misread (h_world h) g)(d := misread (h_world h) g d \<or> server \<noteq> remote (h_world h) g d))"
    using storage_calls(1) [OF st sel(3) get] by simp_all
  have rc: "run_state (reconcile_content K C g d) h = content_result K C g d h server s1"
    by (rule reconcile_content_decides [OF sel(1) get])
  obtain go h1 where h1: "content_result K C g d h server s1 = (go, h1)" by force
  have "h_errs h1 = h_errs h \<and> go = Ok True" "server_param (h_dc h1) = srv"
    using run errs rc h1 sel
    by (auto simp: configDataIdSync_def run_bindO content_result_def Let_def server_param_def
        split: sync_action.splits prod.splits if_splits option.splits)
  then obtain s2 where listen: "run_state (ListenConfig C (config_param (h_dc h1) g d [] (Some cb))) (h_world h1) = (None, s2)"
    and h': "h' = h1\<lparr>h_world := s2, h_dc := AddListenConfig (h_dc h1) g d\<rparr>"
    using run errs rc h1 sel
    by (auto simp: configDataIdSync_def run_bindO listen_data_id_def split: prod.splits option.splits)
  have s2: "remote s2 = remote (h_world h1)" "misread s2 = misread (h_world h1)"
    using storage_calls(4) [OF st _ listen] \<open>server_param (h_dc h1) = srv\<close> by simp_all
  let ?pc = "ss_ConflictPolicy st = PreferCluster" and ?x = "item_of remote misread g h d" and ?y = "item_of remote misread g h' d"
  have "?y = (first_item (\<lambda>_. []) ?pc (back d) server ?x)\<lparr>it_misread := misread s1 g d\<rparr> \<and>
      misread (h_world h') = misread s1 \<and> (\<forall>e. e \<noteq> d \<longrightarrow> item_of remote misread g h' e = item_of remote misread g h e) \<and>
      (\<forall>x. x \<noteq> g \<longrightarrow> remote (h_world h') x = remote (h_world h) x) \<and> (\<forall>e. e \<noteq> d \<longrightarrow> read_back (h_obj h') e = read_back (h_obj h) e)"
  proof (cases "decide (prefers_cluster (h_dc h)) server (fst (object_content (h_obj h) d))")
    case TakeServer
    have "object_content (fst (object_store (h_obj h) d server)) d = (back d server, True)"
      and "snd (object_content (h_obj h) d)" using fresh by (simp_all add: object_store_read_back untouched_def)
    then show ?thesis using TakeServer h1 h' s1 s2 sel(4)
      by (auto simp: content_result_def Let_def item_of_def first_item_def recorded_md5_other listens_AddListenConfig
          obj_store.get_store_other read_back_store_other)
  next
    case PushCluster
    obtain ok e s where pub: "run_state (PublishConfig C (config_param (h_dc h) g d (fst (object_content (h_obj h) d)) None)) s1 = ((ok, e), s)"
      by (metis surj_pair)
    then have "ok" "e = None" using PushCluster h1 \<open>h_errs h1 = h_errs h \<and> go = Ok True\<close>
      by (auto simp: content_result_def Let_def split: if_splits option.splits)
    moreover from this have "remote s = (remote s1)(g := (remote s1 g)(d := fst (object_content (h_obj h) d)))" "misread s = misread s1"
      using storage_calls(2) [OF st sel(3)] pub by simp_all
    ultimately show ?thesis using PushCluster pub h1 h' s1 s2 sel(4)
      by (auto simp: content_result_def Let_def item_of_def first_item_def recorded_md5_other listens_AddListenConfig)
  next
    case LeaveBoth
    then show ?thesis using h1 h' s1 s2 sel(4)
      by (auto simp: content_result_def Let_def item_of_def first_item_def recorded_md5_other listens_AddListenConfig)
  qed
  moreover from this have "seeing (first_item (\<lambda>_. []) ?pc (back d)) ?x ?y"
    unfolding seeing_def using s1(2) by (intro conjI impI exI [of _ server]) simp_all
  ultimately show ?thesis by (simp add: updates_def)
qed

section \<open>One resource\<close>

text \<open>Listening again changes nothing that is looked at here.\<close>

lemma relisten_updates:
  assumes st: "config_storage C srv remote misread"
  shows "handles g srv strategy h \<Longrightarrow> run_state (for_each (relisten K C g cb) ids) h = (Ok (), h') \<Longrightarrow> h_errs h' = [] \<Longrightarrow>
    updates remote misread g {} R h h' \<and> h_dc h' = h_dc h"
proof (induction ids arbitrary: h)
  case Nil
  then show ?case by (simp add: updates_none)
next
  case (Cons d ids)
  obtain h1 where h1: "run_state (relisten K C g cb d) h = (Ok (), h1)" and rest: "run_state (for_each (relisten K C g cb) ids) h1 = (Ok (), h')"
    using Cons.prems(2) by (auto simp: run_bindO split: prod.splits outcome.splits)
  have "h_errs h1 = []"
    by (rule for_each_no_errs [OF keeps_errs_steps(3) rest Cons.prems(3)])
  then obtain s where "run_state (ListenConfig C (config_param (h_dc h) g d [] (Some cb))) (h_world h) = (None, s)" "h1 = h\<lparr>h_world := s\<rparr>"
    using h1 by (auto simp: relisten_def split: prod.splits option.splits)
  then have "updates remote misread g {} R h h1" "h_dc h1 = h_dc h"
    using storage_calls(4) [OF st handles_sel(3) [OF Cons.prems(1)]] by (auto intro!: updates_none simp: item_of_def)
  moreover have "handles g srv strategy h1"
    by (rule keeps_run [OF keeps_handles(4) Cons.prems(1) h1])
  ultimately show ?case using Cons.IH [OF _ rest Cons.prems(3)] updates_then [of remote misread g "{}" R h h1 "{}" h'] by simp
qed

text \<open>The overall status touches neither the md5s nor the listened data ids.\<close>

lemma finish_item:
  "item_of remote misread g (exec finish_status h) = item_of remote misread g h" "h_world (exec finish_status h) = h_world h"
  "h_obj (exec finish_status h) = h_obj h" "h_errs (exec finish_status h) = h_errs h"
proof -
  have "recorded_md5 (FailedStatus dc x) g d = recorded_md5 dc g d" "recorded_md5 (UpdateStatus dc) g d = recorded_md5 dc g d" for dc x d
    by (simp_all add: recorded_md5_def GetSyncStatusByDataId_eq)
  moreover have "listens (FailedStatus dc x) = listens dc" "listens (UpdateStatus dc) = listens dc" for dc x
    by (rule listens_cong, simp)+
  ultimately show "item_of remote misread g (exec finish_status h) = item_of remote misread g h"
    by (simp add: fun_eq_iff item_of_def finish_status_def)
qed (simp_all add: finish_status_def)

lemma first_loop:
  assumes "config_storage C srv remote misread" and "handles g srv strategy h" and "distinct ids"
    and "\<forall>d\<in>set ids. untouched back d h"
    and "run_state (for_each (\<lambda>d. configDataIdSync K C d cb) ids) h = (Ok (), h')" and "h_errs h' = []"
  shows "updates remote misread g (set ids) (\<lambda>d. seeing (first_item (\<lambda>_. []) (ss_ConflictPolicy strategy = PreferCluster) (back d))) h h'"
  by (rule loop_updates [where u = id and I = "handles g srv strategy" and Q = "untouched back",
        unfolded id_apply, OF _ keeps_errs_configDataIdSync _ assms(3,2,4,5,6), THEN conjunct1])
     (auto intro: first_updates [OF assms(1)] keeps_run [OF keeps_handles(1)] untouched_other)

text \<open>The step of a data id in a whole reconciliation.\<close>

abbreviation synced :: "SyncStrategy \<Rightarrow> (string \<Rightarrow> string \<Rightarrow> string) \<Rightarrow> string \<Rightarrow> item \<Rightarrow> item \<Rightarrow> bool" where
  "synced strategy back d \<equiv> seeing (sync_item strategy (back d))"

lemma synced_listened:
  assumes "it_listened x" and "y = (if it_present x then push_item (ss_SyncDeletion strategy) x else drop_item (ss_SyncDeletion strategy) x)"
  shows "synced strategy back d x y"
proof (rule seeing_blind)
  show "sync_item strategy (back d) seen x = y" for seen using assms by (simp add: sync_item_def)
  show "it_misread y = it_misread x" using assms(2) by (simp add: push_item_def drop_item_def)
qed

lemma synced_first:
  assumes "\<not> it_listened x" "it_present x" and "seeing (first_item (\<lambda>_. []) (ss_ConflictPolicy strategy = PreferCluster) (back d)) x y"
  shows "synced strategy back d x y"
  using assms by (simp add: seeing_def sync_item_def)

lemma synced_none: "\<not> it_listened x \<Longrightarrow> \<not> it_present x \<Longrightarrow> synced strategy back d x x"
  by (rule seeing_blind) (simp_all add: sync_item_def)

lemma listened_updates:
  assumes st: "config_storage C srv remote misread" and h: "handles g srv strategy h" and "distinct ids" and keys: "ids = object_keys (h_obj h)"
    and ls: "\<forall>d. d \<in> set ls \<longleftrightarrow> listens (h_dc h) g d"
    and run: "run_state (sync_listened K C g cb ls ids) h = (Ok (), h')" and errs: "h_errs h' = []"
  shows "updates remote misread g (set ls \<union> set ids) (synced strategy (read_back (h_obj h))) h h'"
proof -
  let ?rb = "read_back (h_obj h)" and ?del = "ss_SyncDeletion strategy" and ?pc = "ss_ConflictPolicy strategy = PreferCluster"
  have present: "snd (object_content (h_obj h) d) \<longleftrightarrow> d \<in> set ids" for d
    using keys obj_store.all_keys_get [of d "h_obj h"] by simp
  have flags: "it_present (item_of remote misread g t d) = (d \<in> set ids) \<and> it_listened (item_of remote misread g t d) = listens (h_dc h) g d"
    if "item_of remote misread g t d = item_of remote misread g h d" for t d using that present by simp
  obtain lo lc both where cmp: "CompareDataIds ls ids = (lo, lc, both)" by (metis prod_cases3)
  note sets = CompareDataIds_sets [OF assms(3) cmp]
  obtain h1 h2 h3 where r1: "run_state (for_each (relisten K C g cb) ls) h = (Ok (), h1)"
    and r2: "run_state (for_each (delete_or_ignore K C g) lo) h1 = (Ok (), h2)"
    and r3: "run_state (for_each (\<lambda>d. configDataIdSync K C d cb) lc) h2 = (Ok (), h3)"
    and r4: "run_state (for_each (sync_existing K C g) both) h3 = (Ok (), h')"
    using run cmp by (auto simp: sync_listened_def run_bindO split: prod.splits outcome.splits)
  have e3: "h_errs h3 = []" by (rule for_each_no_errs [OF keeps_errs_steps(2) r4 errs])
  have e2: "h_errs h2 = []" by (rule for_each_no_errs [OF keeps_errs_configDataIdSync r3 e3])
  have e1: "h_errs h1 = []" by (rule for_each_no_errs [OF keeps_errs_steps(1) r2 e2])
  have k1: "handles g srv strategy h1" by (rule handles_loop [OF keeps_handles(4) h r1])
  have k2: "handles g srv strategy h2" by (rule handles_loop [OF keeps_handles(2) k1 r2])
  have k3: "handles g srv strategy h3" by (rule handles_loop [OF keeps_handles(1) k2 r3])
  have u1: "updates remote misread g {} (synced strategy ?rb) h h1"
    using relisten_updates [OF st h r1 e1] by blast
  have "updates remote misread g (set lo) (\<lambda>_ x y. y = drop_item ?del x) h1 h2"
    by (rule loop_updates [where u = id and I = "handles g srv strategy" and Q = "\<lambda>_ _. True", unfolded id_apply,
          OF _ keeps_errs_steps(1) _ sets(4) k1 _ r2 e2, THEN conjunct1])
       (auto intro: drop_updates [OF st] keeps_run [OF keeps_handles(2)])
  then have u2: "updates remote misread g (set lo) (synced strategy ?rb) h1 h2"
  proof (rule updates_cong)
    fix d y assume "d \<in> set lo" and y: "y = drop_item ?del (item_of remote misread g h1 d)"
    then have "listens (h_dc h) g d" "d \<notin> set ids" using sets(1) ls by auto
    then show "synced strategy ?rb d (item_of remote misread g h1 d) y"
      using flags [OF updates_same [OF u1, of d]] y by (intro synced_listened) simp_all
  qed
  have u12: "updates remote misread g (set lo) (synced strategy ?rb) h h2" using updates_then [OF u1 u2] by simp
  have "untouched ?rb d h2" if "d \<in> set lc" for d
  proof -
    have d: "d \<in> set ids" "d \<notin> set lo" using that sets by auto
    then show ?thesis
      using flags [OF updates_same [OF u12 d(2)]] updates_back [OF u12 d(2)] by (simp add: untouched_def)
  qed
  then have "updates remote misread g (set lc) (\<lambda>d. seeing (first_item (\<lambda>_. []) ?pc (?rb d))) h2 h3"
    by (intro first_loop [OF st k2 sets(5) _ r3 e3]) blast
  then have u3: "updates remote misread g (set lc) (synced strategy ?rb) h2 h3"
  proof (rule updates_cong)
    fix d y assume "d \<in> set lc" and y: "seeing (first_item (\<lambda>_. []) ?pc (?rb d)) (item_of remote misread g h2 d) y"
    then have d: "d \<in> set ids" "d \<notin> set lo" "\<not> listens (h_dc h) g d" using sets ls by auto
    then show "synced strategy ?rb d (item_of remote misread g h2 d) y"
      using flags [OF updates_same [OF u12 d(2)]] y by (intro synced_first) simp_all
  qed
  have u123: "updates remote misread g (set lo \<union> set lc) (synced strategy ?rb) h h3"
    by (rule updates_then [OF u12 u3]) (use sets in auto)
  have "updates remote misread g (set both) (\<lambda>_ x y. y = push_item ?del x) h3 h'"
    by (rule loop_updates [where u = id and I = "handles g srv strategy" and Q = "\<lambda>_ _. True", unfolded id_apply,
          OF _ keeps_errs_steps(2) _ sets(6) k3 _ r4 errs, THEN conjunct1])
       (auto intro: push_updates [OF st] keeps_run [OF keeps_handles(3)])
  then have u4: "updates remote misread g (set both) (synced strategy ?rb) h3 h'"
  proof (rule updates_cong)
    fix d y assume "d \<in> set both" and y: "y = push_item ?del (item_of remote misread g h3 d)"
    then have d: "d \<in> set ids" "d \<notin> set lo \<union> set lc" "listens (h_dc h) g d" using sets ls by auto
    then show "synced strategy ?rb d (item_of remote misread g h3 d) y"
      using flags [OF updates_same [OF u123 d(2)]] y by (intro synced_listened) simp_all
  qed
  have "updates remote misread g ((set lo \<union> set lc) \<union> set both) (synced strategy ?rb) h h'"
    by (rule updates_then [OF u123 u4]) (use sets in auto)
  moreover have "(set lo \<union> set lc) \<union> set both = set ls \<union> set ids" using sets by auto
  ultimately show ?thesis by simp
qed

lemma group_updates:
  assumes st: "config_storage C srv remote misread" and h: "handles g srv strategy h" and "distinct (object_keys (h_obj h))"
    and none: "\<forall>d. \<not> listens (h_dc h) g d"
    and run: "run_state (Sync_configGroupSync K C) h = (Ok (), h')" and errs: "h_errs h' = []"
  shows "updates remote misread g (set (object_keys (h_obj h))) (synced strategy (read_back (h_obj h))) h h'"
proof -
  have "untouched (read_back (h_obj h)) d h" if "d \<in> set (object_keys (h_obj h))" for d
    using that obj_store.all_keys_get [of d "h_obj h"] by (simp add: untouched_def)
  then have "updates remote misread g (set (object_keys (h_obj h)))
      (\<lambda>d. seeing (first_item (\<lambda>_. []) (ss_ConflictPolicy strategy = PreferCluster) (read_back (h_obj h) d))) h h'"
    using run handles_sel(1) [OF h]
    by (intro first_loop [OF st h assms(3) _ _ errs, where K = K and cb = "NewDefaultServer2ClusterCallback (dc_key (h_dc h)) (obj_ref (h_obj h))"])
       (simp_all add: Sync_configGroupSync_def Let_def)
  then show ?thesis
    using none obj_store.all_keys_get [of _ "h_obj h"] by (auto elim!: updates_cong intro!: synced_first)
qed

text \<open>
  What the results below assume of a handler before it reconciles: the server is a store, writing a status does not write
  configurations nor read them, the resource is one of the object's namespace, and no key of the object is in two of its maps.
\<close>

definition reconcilable ::
  "'s Kube \<Rightarrow> 's NacosConfigClient \<Rightarrow> ('s \<Rightarrow> string \<Rightarrow> string \<Rightarrow> string) \<Rightarrow> ('s \<Rightarrow> string \<Rightarrow> string \<Rightarrow> bool) \<Rightarrow> (Object, 's) handler \<Rightarrow> bool" where
  "reconcilable K C remote misread h \<longleftrightarrow>
     config_storage C (server_param (h_dc h)) remote misread \<and>
     (\<forall>x s. remote (exec (Client_StatusUpdateDC K x) s) = remote s \<and> misread (exec (Client_StatusUpdateDC K x) s) = misread s) \<and>
     kind_matches (h_obj h) \<and> om_Namespace (obj_meta (h_obj h)) = dc_Namespace (h_dc h) \<and> distinct (object_keys (h_obj h))"

lemma reconcile_dc_items:
  assumes "reconcilable K C remote misread h"
    and run: "run_state (reconcile_dc K C (obj_group (h_obj h)) ref (object_keys (h_obj h))) h = (Ok (), h')" and errs: "h_errs h' = []"
  shows "synced (dc_Strategy (h_dc h)) (read_back (h_obj h)) d (item_of remote misread (obj_group (h_obj h)) h d)
      (item_of remote misread (obj_group (h_obj h)) h' d) \<and>
    (x \<noteq> obj_group (h_obj h) \<longrightarrow> remote (h_world h') x = remote (h_world h) x)"
proof -
  let ?g = "obj_group (h_obj h)" and ?ids = "object_keys (h_obj h)" and ?R = "synced (dc_Strategy (h_dc h)) (read_back (h_obj h))"
  have st: "config_storage C (server_param (h_dc h)) remote misread"
    and frame: "\<forall>x s. remote (exec (Client_StatusUpdateDC K x) s) = remote s \<and> misread (exec (Client_StatusUpdateDC K x) s) = misread s"
    and obj: "kind_matches (h_obj h)" "om_Namespace (obj_meta (h_obj h)) = dc_Namespace (h_dc h)" "distinct ?ids"
    using assms(1) by (simp_all add: reconcilable_def)
  have h: "handles ?g (server_param (h_dc h)) (dc_Strategy (h_dc h)) h" using obj by (simp add: handles_def hinv_def)
  have match: "DynamicConfigurationMatch (h_obj h) (h_dc h)" using obj by (simp add: DynamicConfigurationMatch_eq)
  have store: "item_of remote misread ?g (exec (store_status K) t) = item_of remote misread ?g t"
    "remote (h_world (exec (store_status K) t)) = remote (h_world t)" "h_errs (exec (store_status K) t) = h_errs t" for t
    using frame by (auto simp: store_status_def item_of_def fun_eq_iff split: prod.split) (metis snd_conv)+
  obtain t D where t: "updates remote misread ?g D ?R h t" "item_of remote misread ?g h' = item_of remote misread ?g t"
      "remote (h_world h') = remote (h_world t)"
    and D: "\<And>d. d \<notin> D \<Longrightarrow> d \<notin> set ?ids \<and> \<not> listens (h_dc h) ?g d"
  proof (cases "mget (dc_ListenConfigs (h_dc h)) ?g")
    case None
    then obtain t where r: "run_state (Sync_configGroupSync K C) h = (Ok (), t)" "h' = exec (store_status K) t"
      using run match by (auto simp: reconcile_dc_def run_bindO Let_def split: prod.splits outcome.splits)
    have none: "\<forall>d. \<not> listens (h_dc h) ?g d" using None by (simp add: listens_def mget0_def)
    have "updates remote misread ?g (set ?ids) ?R h t"
      by (rule group_updates [OF st h obj(3) none r(1)]) (use errs r(2) store(3) in simp)
    then show ?thesis using that [of "set ?ids" t] r(2) store none by simp
  next
    case (Some ls)
    then obtain t where r: "run_state (sync_listened K C ?g (NewDefaultServer2ClusterCallback (dc_key (h_dc h)) ref) ls ?ids) h = (Ok (), t)"
        "h' = exec (store_status K) (exec finish_status t)"
      using run match by (auto simp: reconcile_dc_def run_bindO Let_def split: prod.splits outcome.splits)
    have ls: "\<forall>d. d \<in> set ls \<longleftrightarrow> listens (h_dc h) ?g d" using Some by (simp add: listens_def mget0_def)
    have "updates remote misread ?g (set ls \<union> set ?ids) ?R h t"
      by (rule listened_updates [OF st h obj(3) refl ls r(1)]) (use errs r(2) store(3) in \<open>simp add: finish_item\<close>)
    then show ?thesis using that [of "set ls \<union> set ?ids" t] r(2) store ls by (auto simp: finish_item)
  qed
  have "?R d (item_of remote misread ?g h d) (item_of remote misread ?g h d)" if "d \<notin> D"
    using D [OF that] obj_store.all_keys_get [of d "h_obj h"] by (intro synced_none) simp_all
  then show ?thesis using t by (cases "d \<in> D") (simp_all add: updates_def)
qed

section \<open>Agreement\<close>

text \<open>
  C5: reconciling an object for one DynamicConfiguration, when it ends without a failed data id, refines the abstract function, for any
  contents and whether or not reads fail: for every data id of the object's group, listened to or not, present or not, the content of the object,
  the content on the server, the recorded md5 and the listening afterwards are what \<open>sync_item\<close> makes of them before and of what the read
  returned; that is the content on the server unless a failed read returned something else, which is then recorded.  Other groups on the
  server are untouched.
\<close>

theorem reconcile_dc_refines:
  assumes "reconcilable K C remote misread h"
    and "run_state (reconcile_dc K C (obj_group (h_obj h)) ref (object_keys (h_obj h))) h = (Ok (), h')" and "h_errs h' = []"
  shows "seeing (sync_item (dc_Strategy (h_dc h)) (read_back (h_obj h) d)) (item_of remote misread (obj_group (h_obj h)) h d)
      (item_of remote misread (obj_group (h_obj h)) h' d) \<and>
    (x \<noteq> obj_group (h_obj h) \<longrightarrow> remote (h_world h') x = remote (h_world h) x)"
  using assms by (rule reconcile_dc_items)

text \<open>The recorded md5 is that of the server's content, or empty.\<close>

definition md5_ok :: "item \<Rightarrow> bool" where
  "md5_ok x \<longleftrightarrow> it_md5 x = [] \<or> it_md5 x = CalcMd5 (it_remote x)"

lemma Nil_eq_CalcMd5 [simp]: "[] = CalcMd5 s \<longleftrightarrow> s = []"
  by (metis CalcMd5_eq_Nil)

lemma decide_cases:
  "decide pc server local = TakeServer \<Longrightarrow> server \<noteq> []" "decide pc server local = PushCluster \<Longrightarrow> local \<noteq> []"
  "decide pc server local = LeaveBoth \<Longrightarrow> server = [] \<and> local = []"
  by (auto simp: decide_def split: if_splits)

lemmas item_defs = sync_item_def push_item_def drop_item_def first_item_def

text \<open>A first synchronisation settles where the read was right and the object can represent what it takes over.\<close>

definition settles :: "(string \<Rightarrow> string) \<Rightarrow> item \<Rightarrow> item \<Rightarrow> bool" where
  "settles back x y \<longleftrightarrow> it_listened x \<or> \<not> it_misread y \<and> back (it_remote x) = it_remote x"

lemma seeing_parts:
  assumes "seeing (sync_item strategy back) x y"
  shows "\<exists>seen. (it_misread y \<or> seen = it_remote x) \<and> it_present y = it_present (sync_item strategy back seen x) \<and>
    it_local y = it_local (sync_item strategy back seen x) \<and> it_remote y = it_remote (sync_item strategy back seen x) \<and>
    it_md5 y = it_md5 (sync_item strategy back seen x) \<and> it_listened y = it_listened (sync_item strategy back seen x)"
proof -
  obtain seen where seen: "it_misread y \<or> seen = it_remote x" and y: "y = (sync_item strategy back seen x)\<lparr>it_misread := it_misread y\<rparr>"
    using assms by (auto simp: seeing_def)
  show ?thesis by (rule exI [of _ seen], subst (2 3 4 5 6) y) (simp add: seen)
qed

text \<open>What is recorded is right afterwards too, even where the read was wrong.\<close>

lemma sync_item_md5:
  assumes "md5_ok x" and "seeing (sync_item strategy back) x y"
  shows "md5_ok y"
proof -
  obtain seen where "it_remote y = it_remote (sync_item strategy back seen x)" "it_md5 y = it_md5 (sync_item strategy back seen x)"
    using seeing_parts [OF assms(2)] by blast
  then show ?thesis using assms(1) by (auto simp: md5_ok_def item_defs dest: decide_cases split: sync_action.split)
qed

lemma sync_item_agrees:
  assumes "md5_ok x" "it_present x" "it_listened x \<longrightarrow> it_local x \<noteq> []" and "seeing (sync_item strategy back) x y" "settles back x y"
  shows "CalcMd5 (it_local y) = CalcMd5 (it_remote y)"
proof -
  obtain seen where "it_misread y \<or> seen = it_remote x" "it_local y = it_local (sync_item strategy back seen x)"
    "it_remote y = it_remote (sync_item strategy back seen x)" using seeing_parts [OF assms(4)] by blast
  then show ?thesis
    using assms(1-3,5) by (auto simp: md5_ok_def settles_def item_defs dest: decide_cases split: sync_action.split)
qed

lemma sync_item_deletes:
  assumes "it_listened x" "\<not> it_present x" "ss_SyncDeletion strategy" "seeing (sync_item strategy back) x y"
  shows "it_remote y = []"
  using seeing_parts [OF assms(4)] assms(1-3) by (auto simp: item_defs)

text \<open>A second pass may publish again or record another md5, but it changes no content that the first one settled.\<close>

lemma sync_item_twice:
  assumes "seeing (sync_item st back) x y" "seeing (sync_item st back') y z" and "settles back x y \<or> \<not> it_present x"
  shows "it_local z = it_local y \<and> it_remote z = it_remote y"
proof -
  obtain a where a: "it_misread y \<or> a = it_remote x" "it_present y = it_present (sync_item st back a x)"
    "it_local y = it_local (sync_item st back a x)" "it_remote y = it_remote (sync_item st back a x)"
    "it_md5 y = it_md5 (sync_item st back a x)" "it_listened y = it_listened (sync_item st back a x)"
    using seeing_parts [OF assms(1)] by blast
  obtain b where b: "it_local z = it_local (sync_item st back' b y)" "it_remote z = it_remote (sync_item st back' b y)"
    using seeing_parts [OF assms(2)] by blast
  show ?thesis
    unfolding b using a assms(3)
    by (auto simp: settles_def item_defs dest: decide_cases split: sync_action.splits if_splits)
qed

text \<open>
  C16: after a reconciliation without a failed data id both sides have the same content, by md5, for every key of the object that was listened
  to and is not empty, and for every key not listened to before whose read returned the server's content, if that content reads back from the
  object as it is; and the server has none for a listened key that is gone, if deletions are synchronised.  The recorded md5s stay
  those of the server's contents or empty in any case, so this holds again after the next change of the object.
\<close>

theorem reconcile_dc_agrees:
  assumes "reconcilable K C remote misread h" and "g = obj_group (h_obj h)" and "md5_ok (item_of remote misread g h d)"
    and "run_state (reconcile_dc K C g ref (object_keys (h_obj h))) h = (Ok (), h')" and "h_errs h' = []"
  shows "md5_ok (item_of remote misread g h' d) \<and>
    (d \<in> set (object_keys (h_obj h)) \<and>
     (if listens (h_dc h) g d then fst (object_content (h_obj h) d) \<noteq> []
      else \<not> misread (h_world h') g d \<and> read_back (h_obj h) d (remote (h_world h) g d) = remote (h_world h) g d) \<longrightarrow>
       CalcMd5 (fst (object_content (h_obj h') d)) = CalcMd5 (remote (h_world h') g d)) \<and>
    (d \<notin> set (object_keys (h_obj h)) \<and> listens (h_dc h) g d \<and> ss_SyncDeletion (dc_Strategy (h_dc h)) \<longrightarrow> remote (h_world h') g d = [])"
proof -
  let ?x = "item_of remote misread g h d" and ?y = "item_of remote misread g h' d" and ?rb = "read_back (h_obj h) d"
  have step: "seeing (sync_item (dc_Strategy (h_dc h)) ?rb) ?x ?y"
    using reconcile_dc_items [OF assms(1), of ref h' d g] assms by simp
  have present: "d \<in> set (object_keys (h_obj h)) \<longleftrightarrow> it_present ?x" using obj_store.all_keys_get [of d "h_obj h"] by simp
  have "md5_ok ?y" by (rule sync_item_md5 [OF assms(3) step])
  moreover have "CalcMd5 (it_local ?y) = CalcMd5 (it_remote ?y)"
    if "it_present ?x" "if listens (h_dc h) g d then fst (object_content (h_obj h) d) \<noteq> []
      else \<not> misread (h_world h') g d \<and> ?rb (remote (h_world h) g d) = remote (h_world h) g d"
    by (rule sync_item_agrees [OF assms(3) that(1) _ step]) (use that(2) in \<open>auto simp: settles_def split: if_splits\<close>)
  moreover have "it_remote ?y = []" if "it_listened ?x" "\<not> it_present ?x" "ss_SyncDeletion (dc_Strategy (h_dc h))"
    by (rule sync_item_deletes [OF that step])
  ultimately show ?thesis unfolding present by simp
qed

text \<open>
  C28: when a reconciliation ended without a failed data id, and the next one does too, the second changes no content, neither in the object
  nor on the server, of any data id that was listened to before the first, is no key of the object, or was taken over from a right read and reads
  back as it is on the server; nor anything in another group.
\<close>

theorem reconciling_again_changes_nothing:
  assumes "reconcilable K C remote misread h" and "g = obj_group (h_obj h)"
    and "run_state (reconcile_dc K C g ref (object_keys (h_obj h))) h = (Ok (), h')" and "h_errs h' = []"
    and "reconcilable K C remote misread h'"
    and "run_state (reconcile_dc K C g ref (object_keys (h_obj h'))) h' = (Ok (), h'')" and "h_errs h'' = []"
  shows "(x \<noteq> g \<longrightarrow> remote (h_world h'') x = remote (h_world h') x) \<and>
    (listens (h_dc h) g d \<or> d \<notin> set (object_keys (h_obj h)) \<or>
     \<not> misread (h_world h') g d \<and> read_back (h_obj h) d (remote (h_world h) g d) = remote (h_world h) g d \<longrightarrow>
       remote (h_world h'') g d = remote (h_world h') g d \<and> fst (object_content (h_obj h'') d) = fst (object_content (h_obj h') d))"
proof -
  have "group_inv g (\<lambda>dc. dc_Spec dc = dc_Spec (h_dc h))" "phase_inv (\<lambda>dc. dc_Spec dc = dc_Spec (h_dc h))"
    by (rule group_inv_strategy phase_inv_spec)+
  then have "hinv (in_group g) (\<lambda>dc. dc_Spec dc = dc_Spec (h_dc h)) h'"
    by (rule keeps_run [OF keeps_reconcile_dc _ assms(3)]) (simp add: hinv_def assms(2))
  then have g: "obj_group (h_obj h') = g" "dc_Strategy (h_dc h') = dc_Strategy (h_dc h)" by (simp_all add: hinv_def)
  let ?x = "item_of remote misread g h d" and ?y = "item_of remote misread g h' d" and ?z = "item_of remote misread g h'' d"
  have one: "seeing (sync_item (dc_Strategy (h_dc h)) (read_back (h_obj h) d)) ?x ?y"
    using reconcile_dc_items [OF assms(1), of ref h' d g] assms by simp
  have two: "seeing (sync_item (dc_Strategy (h_dc h)) (read_back (h_obj h') d)) ?y ?z \<and>
      (x \<noteq> g \<longrightarrow> remote (h_world h'') x = remote (h_world h') x)"
    using reconcile_dc_items [OF assms(5), of ref h'' d x] assms(6,7) g by simp
  have "it_local ?z = it_local ?y \<and> it_remote ?z = it_remote ?y"
    if "settles (read_back (h_obj h) d) ?x ?y \<or> \<not> it_present ?x"
    by (rule sync_item_twice [OF one conjunct1 [OF two] that])
  then show ?thesis using two obj_store.all_keys_get [of d "h_obj h"] by (auto simp: settles_def)
qed

section \<open>Changes from the server\<close>

text \<open>A client whose writes of one data id are any others.\<close>

definition with_writes ::
  "'s NacosConfigClient \<Rightarrow> string \<Rightarrow> string \<Rightarrow> (NacosConfigParam \<Rightarrow> ('s, bool \<times> go_error option) state) \<Rightarrow>
   (NacosConfigParam \<Rightarrow> ('s, bool \<times> go_error option) state) \<Rightarrow> 's NacosConfigClient" where
  "with_writes C g d pub del = C\<lparr>
     PublishConfig := (\<lambda>p. if ncp_Group p = g \<and> ncp_DataId p = d then pub p else PublishConfig C p),
     DeleteConfig := (\<lambda>p. if ncp_Group p = g \<and> ncp_DataId p = d then del p else DeleteConfig C p)\<rparr>"

lemma with_writes_sel [simp]:
  "GetConfig (with_writes C g d pub del) = GetConfig C" "ListenConfig (with_writes C g d pub del) = ListenConfig C"
  "e \<noteq> d \<Longrightarrow> PublishConfig (with_writes C g d pub del) (config_param dc x e c cb) = PublishConfig C (config_param dc x e c cb)"
  "e \<noteq> d \<Longrightarrow> DeleteConfig (with_writes C g d pub del) (config_param dc x e c cb) = DeleteConfig C (config_param dc x e c cb)"
  by (simp_all add: with_writes_def)

text \<open>The steps of other data ids, and listening, do not write it.\<close>

lemma with_writes_steps:
  "relisten K (with_writes C g d pub del) x cb = relisten K C x cb"
  "e \<noteq> d \<Longrightarrow> delete_or_ignore K (with_writes C g d pub del) x e = delete_or_ignore K C x e"
  "e \<noteq> d \<Longrightarrow> configDataIdSync K (with_writes C g d pub del) e cb = configDataIdSync K C e cb"
  "e \<noteq> d \<Longrightarrow> sync_existing K (with_writes C g d pub del) x e = sync_existing K C x e"
proof -
  show "relisten K (with_writes C g d pub del) x cb = relisten K C x cb" by (simp add: relisten_def fun_eq_iff)
  assume e: "e \<noteq> d"
  note sel = with_writes_sel(1,2) with_writes_sel(3,4) [OF e]
  show "delete_or_ignore K (with_writes C g d pub del) x e = delete_or_ignore K C x e"
    and "configDataIdSync K (with_writes C g d pub del) e cb = configDataIdSync K C e cb"
    and "sync_existing K (with_writes C g d pub del) x e = sync_existing K C x e"
    unfolding delete_or_ignore_def delete_remote_def configDataIdSync_def reconcile_content_def listen_data_id_def sync_existing_def sel
    by (rule refl)+
qed

text \<open>The content of a data id is the recorded one, and the steps of others keep it so.\<close>

definition in_step :: "string \<Rightarrow> string \<Rightarrow> string \<times> bool \<Rightarrow> (Object, 's) handler \<Rightarrow> bool" where
  "in_step g d c = hinv (\<lambda>x. kind_matches x \<and> obj_group x = g \<and> object_content x d = c) (\<lambda>dc. recorded_md5 dc g d = CalcMd5 (fst c))"

lemma keeps_in_step_basic [keeps_rules]:
  "e \<noteq> d \<Longrightarrow> keeps (in_step g d c) (set_status K g e md5 src ready msg)" "keeps (in_step g d c) (on_dc (\<lambda>dc. AddListenConfig dc g e))"
  "keeps (in_step g d c) (in_world m)" "keeps (in_step g d c) (add_err g e)"
  by (auto intro!: keepsI simp: in_step_def hinv_def recorded_md5_other split: prod.split)

lemma keeps_in_step_content:
  assumes "e \<noteq> d"
  shows "keeps (in_step g d c) (reconcile_content K C g e)"
  unfolding reconcile_content_def
proof (intro keeps_bind_gets, goal_cases)
  case (1 h h')
  then have h: "kind_matches (h_obj h)" "obj_group (h_obj h) = g" "object_content (h_obj h) d = c" by (simp_all add: in_step_def hinv_def)
  have put: "keeps (in_step g d c) (modify (h_obj_update (\<lambda>_. fst (object_store (h_obj h) e v))))" for v
    using h assms obj_store.get_store_other [of d e "h_obj h" v] by (intro keepsI) (simp add: in_step_def hinv_def obj_group_def)
  have store: "keeps (in_step g d c) (bindO (ret (StoreContent (h_obj h) e v)) (\<lambda>(obj', _). do {
          modify (h_obj_update (\<lambda>_. obj'));
          set_status K g e [] ''server'' True [];
          ret (Ok True) }))" for v
  proof -
    obtain x r where st: "object_store (h_obj h) e v = (x, r)" by (metis surj_pair)
    have "keeps (in_step g d c) (modify (h_obj_update (\<lambda>_. x)))" using put [of v] st by simp
    then show ?thesis using h(1) st assms by (auto intro!: keeps_rules)
  qed
  show ?case unfolding Let_def by (intro keeps_rules store assms)
qed

lemma keeps_in_step:
  assumes "e \<noteq> d"
  shows "keeps (in_step g d c) (delete_or_ignore K C g e)" "keeps (in_step g d c) (sync_existing K C g e)"
    and "keeps (in_step g d c) (configDataIdSync K C e cb)"
proof -
  show "keeps (in_step g d c) (delete_or_ignore K C g e)" "keeps (in_step g d c) (sync_existing K C g e)"
    unfolding delete_or_ignore_def delete_remote_def sync_existing_def Let_def by (intro keeps_rules assms)+
  show "keeps (in_step g d c) (configDataIdSync K C e cb)"
    unfolding configDataIdSync_def Let_def
  proof (rule keeps_bind_gets)
    fix h :: "(Object, 'a) handler" assume "in_step g d c h"
    then have h: "obj_group (h_obj h) = g" by (simp add: in_step_def hinv_def)
    show "keeps (in_step g d c) (bindO (reconcile_content K C (obj_group (h_obj h)) e)
        (\<lambda>go. if go then listen_data_id K C (obj_group (h_obj h)) e cb else ret (Ok ())))"
      unfolding h listen_data_id_def by (intro keeps_rules keeps_in_step_content assms)
  qed
qed

text \<open>The step of the data id itself does nothing, and listening to it again does not either if it succeeds.\<close>

lemma in_step_existing: "in_step g d c h \<Longrightarrow> run_state (sync_existing K C g d) h = (Ok (), h)"
  using sync_existing_same [of h d "fst c" "snd c" g K C] by (simp add: in_step_def hinv_def)

lemma keeps_in_step_relisten:
  assumes "\<And>p s. ncp_Group p = g \<Longrightarrow> ncp_DataId p = d \<Longrightarrow> result (ListenConfig C p) s = None"
  shows "keeps (in_step g d c) (relisten K C g cb e)"
proof (cases "e = d")
  case True
  show ?thesis
  proof (rule keepsI)
    fix h :: "(Object, 'a) handler" assume h: "in_step g d c h"
    obtain err s where listen: "run_state (ListenConfig C (config_param (h_dc h) g d [] (Some cb))) (h_world h) = (err, s)" by (metis surj_pair)
    then have "err = None" using assms [of "config_param (h_dc h) g d [] (Some cb)" "h_world h"] by simp
    then show "in_step g d c (exec (relisten K C g cb e) h)" using h listen True by (simp add: relisten_def in_step_def hinv_def)
  qed
qed (unfold relisten_def, intro keeps_rules, simp)

lemma sync_listened_quiet:
  assumes "in_step g d c h" and "d \<in> set ls" "d \<in> set ids" "distinct ids"
    and "\<And>p s. ncp_Group p = g \<Longrightarrow> ncp_DataId p = d \<Longrightarrow> result (ListenConfig C p) s = None"
  shows "run_state (sync_listened K (with_writes C g d pub del) g cb ls ids) h = run_state (sync_listened K C g cb ls ids) h"
    and "in_step g d c (exec (sync_listened K C g cb ls ids) h)"
proof -
  obtain lo lc both where cmp: "CompareDataIds ls ids = (lo, lc, both)" by (metis prod_cases3)
  note sets = CompareDataIds_sets [OF assms(4) cmp]
  have del: "agree (in_step g d c) (delete_or_ignore K (with_writes C g d pub del) g e) (delete_or_ignore K C g e)" if "e \<in> set lo" for e
  proof -
    have "e \<noteq> d" using that sets(1) assms(3) by auto
    then show ?thesis by (simp add: with_writes_steps agree_refl keeps_in_step)
  qed
  have new: "agree (in_step g d c) (configDataIdSync K (with_writes C g d pub del) e cb) (configDataIdSync K C e cb)" if "e \<in> set lc" for e
  proof -
    have "e \<noteq> d" using that sets(2) assms(2) by auto
    then show ?thesis by (simp add: with_writes_steps agree_refl keeps_in_step)
  qed
  have old: "agree (in_step g d c) (sync_existing K (with_writes C g d pub del) g e) (sync_existing K C g e)" for e
  proof (cases "e = d")
    case True
    then show ?thesis by (simp add: agree_def in_step_existing)
  qed (simp add: with_writes_steps agree_refl keeps_in_step)
  have "agree (in_step g d c) (sync_listened K (with_writes C g d pub del) g cb ls ids) (sync_listened K C g cb ls ids)"
    unfolding sync_listened_def cmp prod.case with_writes_steps(1)
    by (intro agree_bindO agree_for_each del new old agree_refl keeps_in_step_relisten keeps_for_each assms(5))
  then show "run_state (sync_listened K (with_writes C g d pub del) g cb ls ids) h = run_state (sync_listened K C g cb ls ids) h"
    and "in_step g d c (exec (sync_listened K C g cb ls ids) h)" using assms(1) by (simp_all add: agree_def)
qed

lemma in_step_finish: "in_step g d c (exec finish_status h) = in_step g d c h" "in_step g d c (exec (store_status K) h) = in_step g d c h"
proof -
  have "recorded_md5 (FailedStatus dc x) g d = recorded_md5 dc g d" "recorded_md5 (UpdateStatus dc) g d = recorded_md5 dc g d" for dc x
    by (simp_all add: recorded_md5_def GetSyncStatusByDataId_eq)
  then show "in_step g d c (exec finish_status h) = in_step g d c h" "in_step g d c (exec (store_status K) h) = in_step g d c h"
    by (simp_all add: in_step_def hinv_def finish_status_def store_status_def split: prod.split)
qed

lemma reconcile_dc_quiet:
  assumes "in_step g d c h" and "listens (h_dc h) g d" "d \<in> set ids" "distinct ids"
    and "\<And>p s. ncp_Group p = g \<Longrightarrow> ncp_DataId p = d \<Longrightarrow> result (ListenConfig C p) s = None"
  shows "run_state (reconcile_dc K (with_writes C g d pub del) g ref ids) h = run_state (reconcile_dc K C g ref ids) h \<and>
    in_step g d c (exec (reconcile_dc K C g ref ids) h)"
proof (cases "DynamicConfigurationMatch (h_obj h) (h_dc h)")
  case True
  obtain ls where ls: "mget (dc_ListenConfigs (h_dc h)) g = Some ls" "d \<in> set ls"
    using assms(2) by (cases "mget (dc_ListenConfigs (h_dc h)) g") (auto simp: listens_def mget0_def)
  let ?cb = "NewDefaultServer2ClusterCallback (dc_key (h_dc h)) ref"
  obtain r h1 where r: "run_state (sync_listened K C g ?cb ls ids) h = (r, h1)" by (metis surj_pair)
  note quiet = sync_listened_quiet [OF assms(1) ls(2) assms(3,4,5), where K = K and cb = ?cb, simplified r]
  have "in_step g d c (exec (store_status K) (exec finish_status h1))" using quiet(2) by (simp add: in_step_finish)
  then show ?thesis using True ls(1) quiet(1) [of pub del] r quiet(2)
    by (cases r) (auto simp: reconcile_dc_def Let_def run_bindO split: prod.split)
qed (use assms(1) in \<open>simp add: reconcile_dc_def\<close>)

text \<open>
  C36: a change of the server that was brought into the cluster is not sent back.  After an attempt of the callback that wrote a content the
  ConfigMap accepts, so that it reads back as it is, the next whole reconciliation of the ConfigMap and the resource that are stored then neither publishes nor
  deletes the data id: with any other operations in their place its run is the same, whatever becomes of other data ids.  It only listens
  to the data id again, which must succeed: a failure clears the recorded md5.  The content and the recorded md5 stay.
\<close>

theorem delivered_change_not_echoed:
  assumes "cluster_store K view dview" and "or_APIVersion ref = ''v1''" "or_Kind ref = ''ConfigMap''"
    and "cb_objectRef cb = ref" "dview s (cb_dcKey cb) = Some dc"
    and "stored_accepts view s (or_Namespace ref) (or_Name ref) d c" and "c \<noteq> [] \<or> ss_SyncDeletion (dc_Strategy dc)"
    and "CalcMd5 (fst (stored_content view s (or_Namespace ref) (or_Name ref) d)) \<noteq> CalcMd5 c"
    and "run_state (syncConfigToLocal K cb ns g d c) s = (None, s')"
    and "view s' (or_Namespace ref) (or_Name ref) = Some cm" and "om_Kind (cm_Meta cm) = ''ConfigMap''"
    and "h_obj h = ObjConfigMap cm" and "dview s' (cb_dcKey cb) = Some (h_dc h)"
    and "g = obj_group (h_obj h)" and "listens (h_dc h) g d" and "distinct (object_keys (h_obj h))"
    and "\<And>p t. ncp_Group p = g \<Longrightarrow> ncp_DataId p = d \<Longrightarrow> result (ListenConfig C p) t = None"
  shows "run_state (reconcile_dc K' (with_writes C g d pub del) g ref' (object_keys (h_obj h))) h =
      run_state (reconcile_dc K' C g ref' (object_keys (h_obj h))) h \<and>
    object_content (h_obj (exec (reconcile_dc K' C g ref' (object_keys (h_obj h))) h)) d = object_content (h_obj h) d \<and>
    recorded_md5 (h_dc (exec (reconcile_dc K' C g ref' (object_keys (h_obj h))) h)) g d = CalcMd5 c"
proof -
  note del = attempt_delivers [OF assms(1-6) _ assms(9)] and written = attempt_cases [OF assms(1-5,9)]
  have guard: "\<not> ignored dc c" using assms(7) by (simp add: ignored_def)
  obtain x e where x: "GetConfigMapContent cm d = (x, e)" by (metis surj_pair)
  have "stored_content view s' (or_Namespace ref) (or_Name ref) d = (x, e)" using assms(10) x by (simp add: stored_content_def)
  then have md5: "CalcMd5 x = CalcMd5 c" and e: "e"
    using del(1) [OF guard] written guard assms(4,8) by (auto simp: attempted_def Let_def)
  have "recorded_md5 (h_dc h) g d = CalcMd5 c"
    using del(2) [OF guard] assms(8,13) by (auto simp: recorded_md5_def mk_status_def)
  then have "in_step g d (x, e) h" using assms(11,12,14) md5 x by (simp add: in_step_def hinv_def)
  moreover have "d \<in> set (object_keys (h_obj h))" using assms(12) x e cm_store.all_keys_get [of d cm] by simp
  ultimately have "run_state (reconcile_dc K' (with_writes C g d pub del) g ref' (object_keys (h_obj h))) h =
      run_state (reconcile_dc K' C g ref' (object_keys (h_obj h))) h \<and>
      in_step g d (x, e) (exec (reconcile_dc K' C g ref' (object_keys (h_obj h))) h)"
    by (rule reconcile_dc_quiet [OF _ assms(15) _ assms(16,17)])
  then show ?thesis using x md5 assms(12) by (simp add: in_step_def hinv_def)
qed

section \<open>Where the sides do not agree\<close>

text \<open>The error of the read is not looked at: when it fails, the local content replaces what the server has, whatever the policy.\<close>

lemma failed_read_overwrites_server:
  assumes "kind_matches (h_obj h)" and "fst (object_content (h_obj h) d) \<noteq> []"
    and "run_state (GetConfig C (config_param (h_dc h) g d [] None)) (h_world h) = (([], Some err), s1)"
    and "run_state (PublishConfig C (config_param (h_dc h) g d (fst (object_content (h_obj h) d)) None)) s1 = ((True, None), s2)"
  shows "\<exists>h'. run_state (reconcile_content K C g d) h = (Ok True, h') \<and> h_world h' = s2 \<and> h_errs h' = h_errs h"
  using assms(2,4) by (simp add: reconcile_content_decides [OF assms(1,3)] content_result_def decide_def)

text \<open>Neither is the error of storing: a content that is no base64 is not stored in a Secret, and the status says it was synchronised.\<close>

lemma adoption_by_secret_lost:
  assumes "om_Kind (sec_Meta x) = ''Secret''" and "h_obj h = ObjSecret x" and "snd (StoreSecretContent x d server) = Some e" and "server \<noteq> []"
    and "fst (GetSecretContent x d) = []"
    and "run_state (GetConfig C (config_param (h_dc h) g d [] None)) (h_world h) = ((server, err), s1)"
  shows "\<exists>h'. run_state (reconcile_content K C g d) h = (Ok True, h') \<and> h_obj h' = h_obj h \<and> h_errs h' = h_errs h \<and>
    (\<exists>st. GetSyncStatusByDataId (h_dc h') g d = Some st \<and> st_Ready st)"
proof -
  have "kind_matches (h_obj h)" using assms(1,2) by simp
  note decides = reconcile_content_decides [OF this assms(6)]
  show ?thesis using assms(2-5)
    by (simp add: decides content_result_def Let_def decide_def StoreSecretContent_error_unchanged GetSyncStatus_UpdateSyncStatus mk_status_def)
qed

text \<open>After a first synchronisation no md5 is recorded, so emptying the content is taken for no change, even if deletions are synchronised.\<close>

lemma emptied_content_not_deleted:
  assumes "kind_matches (h_obj h)" and "fst (object_content (h_obj h) d) = []" and "recorded_md5 (h_dc h) g d = []"
  shows "run_state (sync_existing K C g d) h = (Ok (), h)"
proof -
  obtain c e where "object_content (h_obj h) d = (c, e)" by (metis surj_pair)
  then show ?thesis using assms sync_existing_same [of h d c e g K C] by simp
qed

text \<open>Where the recorded md5 is not that of the content, the content is published.\<close>

lemma sync_existing_publishes:
  assumes "kind_matches (h_obj h)" and "fst (object_content (h_obj h) d) \<noteq> []"
    and "recorded_md5 (h_dc h) g d \<noteq> CalcMd5 (fst (object_content (h_obj h) d))"
  shows "h_world (exec (sync_existing K C g d) h) =
    exec (PublishConfig C (config_param (h_dc h) g d (fst (object_content (h_obj h) d)) None)) (h_world h)"
proof -
  obtain c e where c: "object_content (h_obj h) d = (c, e)" by (metis surj_pair)
  then have e using assms(2) object_content_absent by (cases e) auto
  then show ?thesis using assms c by (simp add: sync_existing_def Let_def recorded_md5_def [symmetric] split: prod.split)
qed

text \<open>So an unchanged content is published over what the server has when listening to it again fails, for that clears the recorded md5.\<close>

lemma failed_relisten_publishes:
  assumes "kind_matches (h_obj h)" and "fst (object_content (h_obj h) d) \<noteq> []"
    and "run_state (ListenConfig C (config_param (h_dc h) g d [] (Some cb))) (h_world h) = (Some err, s1)"
  shows "\<exists>h1. run_state (relisten K C g cb d) h = (Ok (), h1) \<and> h_world h1 = s1 \<and>
    h_world (exec (sync_existing K C g d) h1) =
      exec (PublishConfig C (config_param (h_dc h1) g d (fst (object_content (h_obj h) d)) None)) s1"
proof -
  obtain h1 where h1: "run_state (relisten K C g cb d) h = (Ok (), h1)" "h_world h1 = s1" "h_obj h1 = h_obj h" "recorded_md5 (h_dc h1) g d = []"
    using assms(3) by (auto simp: relisten_def recorded_md5_other split: prod.split)
  moreover have "[] \<noteq> CalcMd5 (fst (object_content (h_obj h1) d))" using assms(2) h1(3) by simp
  ultimately show ?thesis using sync_existing_publishes [of h1 d g K C] assms(1,2) by simp
qed

text \<open>
  And a JSON-like content delivered over a plain one is undone: the ConfigMap still reads as the old content, the status records the md5 of the
  new one, and the next reconciliation publishes the old content.
\<close>

lemma json_over_plain_published_back:
  assumes "cluster_store K view dview" and "or_APIVersion ref = ''v1''" "or_Kind ref = ''ConfigMap''"
    and "cb_objectRef cb = ref" "dview s (cb_dcKey cb) = Some dc"
    and "run_state (syncConfigToLocal K cb ns g d c) s = (None, s')"
    and "view s (or_Namespace ref) (or_Name ref) = Some cm0" "mget (cm_Data cm0) d = Some old" "looks_like_json c" "c \<noteq> []" "old \<noteq> []"
    and "CalcMd5 old \<noteq> CalcMd5 c"
    and "view s' (or_Namespace ref) (or_Name ref) = Some cm" and "om_Kind (cm_Meta cm) = ''ConfigMap''"
    and "h_obj h = ObjConfigMap cm" and "dview s' (cb_dcKey cb) = Some (h_dc h)"
  shows "h_world (exec (sync_existing K' C g d) h) = exec (PublishConfig C (config_param (h_dc h) g d old None)) (h_world h)"
proof -
  have "stored_content view s (or_Namespace ref) (or_Name ref) d = (old, True)" "stored_back view s (or_Namespace ref) (or_Name ref) d c = old"
    using assms(7-9) by (simp_all add: stored_content_def stored_back_def GetConfigMapContent_def)
  then have "stored_content view s' (or_Namespace ref) (or_Name ref) d = (old, True)" "recorded_md5 (h_dc h) g d = CalcMd5 c"
    using attempt_cases [OF assms(1-6)] assms(4,10,12,16)
    by (auto simp: attempted_def ignored_def Let_def recorded_md5_def mk_status_def)
  then show ?thesis
    using sync_existing_publishes [of h d g K' C] assms(11,12,13,14,15) by (simp add: stored_content_def)
qed

section \<open>A server for examples\<close>

text \<open>A table of contents beside the API server; every call succeeds.\<close>

type_synonym kv_world = "cluster \<times> (string \<times> string, string) gomap"

definition kv_client :: "kv_world NacosConfigClient" where
  "kv_client = \<lparr>
     GetConfig = (\<lambda>p. gets (\<lambda>(k, t). (mget0 [] t (ncp_Group p, ncp_DataId p), None))),
     PublishConfig = (\<lambda>p. do { modify (apsnd (mput (ncp_Group p, ncp_DataId p) (ncp_Content p))); ret (True, None) }),
     DeleteConfig = (\<lambda>p. do { modify (apsnd (mdel (ncp_Group p, ncp_DataId p))); ret (True, None) }),
     ListenConfig = (\<lambda>_. ret None), CancelListenConfig = (\<lambda>_. ret None), CloseClient = (\<lambda>_. ret ()),
     SearchConfigs = (\<lambda>_. ret (None, None))\<rparr>"

definition kv_remote :: "kv_world \<Rightarrow> string \<Rightarrow> string \<Rightarrow> string" where
  "kv_remote s g d = mget0 [] (snd s) (g, d)"

definition kv_cluster :: "kv_world Kube" where
  "kv_cluster = api_server fst (\<lambda>p s. (p, snd s))"

abbreviation never_misread :: "'s \<Rightarrow> string \<Rightarrow> string \<Rightarrow> bool" where
  "never_misread \<equiv> \<lambda>_ _ _. False"

lemma kv_storage: "config_storage kv_client srv kv_remote never_misread"
  by (auto simp: config_storage_def kv_client_def kv_remote_def fun_eq_iff gomap)

text \<open>The same server behind a connection on which every read fails; what was misread is remembered.\<close>

definition failing_client :: "(kv_world \<times> (string \<times> string) set) NacosConfigClient" where
  "failing_client = \<lparr>
     GetConfig = (\<lambda>p. State (\<lambda>(s, M). (([], Some (ErrOther ''timeout'')),
        (s, if kv_remote s (ncp_Group p) (ncp_DataId p) = [] then M else insert (ncp_Group p, ncp_DataId p) M)))),
     PublishConfig = (\<lambda>p. do { modify (apfst (apsnd (mput (ncp_Group p, ncp_DataId p) (ncp_Content p)))); ret (True, None) }),
     DeleteConfig = (\<lambda>p. do { modify (apfst (apsnd (mdel (ncp_Group p, ncp_DataId p)))); ret (True, None) }),
     ListenConfig = (\<lambda>_. ret None), CancelListenConfig = (\<lambda>_. ret None), CloseClient = (\<lambda>_. ret ()),
     SearchConfigs = (\<lambda>_. ret (None, None))\<rparr>"

lemma failing_storage: "config_storage failing_client srv (\<lambda>s. kv_remote (fst s)) (\<lambda>s g d. (g, d) \<in> snd s)"
  by (auto simp: config_storage_def failing_client_def kv_remote_def fun_eq_iff gomap mget0_def split: if_splits)

lemma kv_frame: "kv_remote (exec (Client_StatusUpdateDC kv_cluster x) s) = kv_remote s"
  by (simp add: kv_cluster_def api_server_def on_part_def kv_remote_def fun_eq_iff split: prod.split)

text \<open>The object has \<open>v\<close> under \<open>k\<close>, the server \<open>x\<close>, and the policy prefers the cluster.\<close>

definition kv_handler :: "(Object, kv_world) handler" where
  "kv_handler = \<lparr>h_world = (demo_cluster False, [((''configmap.app'', ''k''), ''x'')]),
     h_obj = ObjConfigMap (demo_cm\<lparr>cm_Data := [(''k'', ''v'')]\<rparr>), h_dc = demo_dc False, h_errs = []\<rparr>"

lemma kv_sel [simp]:
  "h_obj kv_handler = h_obj demo_local" "h_dc kv_handler = demo_dc False" "h_errs kv_handler = []"
  "kv_remote (h_world kv_handler) ''configmap.app'' ''k'' = ''x''" "object_keys (h_obj demo_local) = [''k'']"
  "om_Namespace (obj_meta (h_obj demo_local)) = dc_Namespace (demo_dc False)" "\<not> listens (demo_dc False) g d"
  by (simp_all add: kv_handler_def demo_local_def kv_remote_def mget0_def GetConfigMapAllKeys_def demo_cm_def demo_meta_def demo_dc_def
      listens_def)

lemma kv_reconcilable: "reconcilable kv_cluster kv_client kv_remote never_misread kv_handler"
  by (simp add: reconcilable_def kv_storage kv_frame)

definition kv_dc :: "nat \<Rightarrow> DynamicConfiguration" where
  "kv_dc now = AddListenConfig (UpdateSyncStatus (demo_dc False) ''configmap.app'' ''k'' [] ''config'' now True []) ''configmap.app'' ''k''"

lemma kv_first:
  "\<exists>h' now. run_state (reconcile_dc kv_cluster kv_client ''configmap.app'' ref [''k'']) kv_handler = (Ok (), h') \<and> h_errs h' = [] \<and>
     h_obj h' = h_obj demo_local \<and> h_dc h' = kv_dc now"
proof -
  have get: "run_state (GetConfig kv_client (config_param (h_dc kv_handler) ''configmap.app'' ''k'' [] None)) (h_world kv_handler) =
      ((''x'', None), h_world kv_handler)"
    by (simp add: kv_client_def kv_handler_def mget0_def)
  have "run_state (reconcile_content kv_cluster kv_client ''configmap.app'' ''k'') kv_handler =
      content_result kv_cluster kv_client ''configmap.app'' ''k'' kv_handler ''x'' (h_world kv_handler)"
    by (rule reconcile_content_decides [OF _ get]) simp
  moreover have "DynamicConfigurationMatch (h_obj demo_local) (demo_dc False)" by (simp add: DynamicConfigurationMatch_eq)
  moreover have "mget (dc_ListenConfigs (demo_dc False)) g = None" for g by (simp add: demo_dc_def)
  ultimately show ?thesis
    by (simp add: reconcile_dc_def Sync_configGroupSync_def configDataIdSync_def Let_def run_bindO content_result_def decide_def
        kv_client_def listen_data_id_def store_status_def kv_dc_def split: prod.split) blast
qed

lemma kv_second:
  assumes "h_obj h = h_obj demo_local" "h_dc h = kv_dc now" "h_errs h = []"
  shows "\<exists>h'. run_state (reconcile_dc kv_cluster kv_client ''configmap.app'' ref [''k'']) h = (Ok (), h') \<and> h_errs h' = []"
proof -
  have "CompareDataIds [''k''] [''k''] = ([], [], [''k''])" by code_simp
  moreover have "mget (dc_ListenConfigs (kv_dc now)) ''configmap.app'' = Some [''k'']"
    by (simp add: kv_dc_def AddListenConfig_def Let_def demo_dc_def mget0_def)
  moreover have "DynamicConfigurationMatch (h_obj demo_local) (kv_dc now)"
    by (simp add: DynamicConfigurationMatch_eq kv_dc_def)
  moreover have "GetContent (h_obj demo_local) ''k'' = Ok (''v'', True)" by simp
  moreover have "[] \<noteq> CalcMd5 ''v''" by simp
  ultimately show ?thesis
    by (simp add: reconcile_dc_def sync_listened_def run_bindO relisten_def sync_existing_def Let_def kv_client_def assms
        finish_status_def store_status_def split: option.split prod.split)
qed

theorem reconcile_dc_refines_witness:
  "\<exists>h'. run_state (reconcile_dc kv_cluster kv_client ''configmap.app'' demo_ref [''k'']) kv_handler = (Ok (), h') \<and>
     kv_remote (h_world h') ''configmap.app'' ''k'' = ''v'' \<and> listens (h_dc h') ''configmap.app'' ''k''"
proof -
  obtain h' where h': "run_state (reconcile_dc kv_cluster kv_client ''configmap.app'' demo_ref [''k'']) kv_handler = (Ok (), h')" "h_errs h' = []"
    using kv_first by blast
  let ?x = "item_of kv_remote never_misread ''configmap.app'' kv_handler ''k''" and ?y = "item_of kv_remote never_misread ''configmap.app'' h' ''k''"
  have "seeing (sync_item (dc_Strategy (demo_dc False)) (read_back (h_obj kv_handler) ''k'')) ?x ?y"
    using reconcile_dc_refines [OF kv_reconcilable, of demo_ref h' "''k''"] h' by simp
  from seeing_true [OF this] have "it_remote ?y = ''v''" "it_listened ?y"
    by (simp_all add: item_defs decide_def)
  then show ?thesis using h' by simp
qed

theorem reconcile_dc_agrees_witness:
  "\<exists>h'. run_state (reconcile_dc kv_cluster kv_client ''configmap.app'' demo_ref [''k'']) kv_handler = (Ok (), h') \<and>
     CalcMd5 (fst (object_content (h_obj h') ''k'')) = CalcMd5 (kv_remote (h_world h') ''configmap.app'' ''k'')"
proof -
  obtain h' where h': "run_state (reconcile_dc kv_cluster kv_client ''configmap.app'' demo_ref [''k'']) kv_handler = (Ok (), h')" "h_errs h' = []"
    using kv_first by blast
  have "md5_ok (item_of kv_remote never_misread ''configmap.app'' kv_handler ''k'')"
    by (simp add: md5_ok_def recorded_md5_def GetSyncStatusByDataId_def demo_dc_def)
  moreover have "read_back (h_obj kv_handler) ''k'' ''x'' = ''x''"
    by (simp add: demo_local_def looks_like_json_def HasPrefix_def)
  ultimately show ?thesis
    using reconcile_dc_agrees [OF kv_reconcilable, of "''configmap.app''" "''k''" demo_ref h'] h' by simp
qed

theorem reconciling_again_changes_nothing_witness:
  "\<exists>h' h''. run_state (reconcile_dc kv_cluster kv_client ''configmap.app'' demo_ref [''k'']) kv_handler = (Ok (), h') \<and>
     run_state (reconcile_dc kv_cluster kv_client ''configmap.app'' demo_ref [''k'']) h' = (Ok (), h'') \<and>
     kv_remote (h_world h'') ''configmap.app'' ''k'' = kv_remote (h_world h') ''configmap.app'' ''k''"
proof -
  obtain h' now where h': "run_state (reconcile_dc kv_cluster kv_client ''configmap.app'' demo_ref [''k'']) kv_handler = (Ok (), h')" "h_errs h' = []"
    "h_obj h' = h_obj demo_local" "h_dc h' = kv_dc now"
    using kv_first by blast
  obtain h'' where h'': "run_state (reconcile_dc kv_cluster kv_client ''configmap.app'' demo_ref [''k'']) h' = (Ok (), h'')" "h_errs h'' = []"
    using kv_second [OF h'(3,4,2)] by blast
  have "reconcilable kv_cluster kv_client kv_remote never_misread h'"
    using h' by (simp add: reconcilable_def kv_storage kv_frame kv_dc_def)
  moreover have "read_back (h_obj kv_handler) ''k'' ''x'' = ''x''"
    by (simp add: demo_local_def looks_like_json_def HasPrefix_def)
  ultimately have "kv_remote (h_world h'') ''configmap.app'' ''k'' = kv_remote (h_world h') ''configmap.app'' ''k''"
    using reconciling_again_changes_nothing [OF kv_reconcilable, of "''configmap.app''" demo_ref h' h'' _ "''k''"] h' h'' by simp
  then show ?thesis using h' h'' by blast
qed

text \<open>The example cluster where the resource listens to the data id.\<close>

definition listening_dc :: DynamicConfiguration where
  "listening_dc = (demo_dc True)\<lparr>dc_Status := (dc_Status (demo_dc True))\<lparr>sts_ListenConfigs := [(''configmap.app'', [''k''])]\<rparr>\<rparr>"

definition listening_cluster :: cluster where
  "listening_cluster = (demo_cluster True)\<lparr>cl_DCs := [((''ns'', ''dc''), listening_dc)]\<rparr>"

lemma listening_attempt:
  "\<exists>s cm dc. run_state (syncConfigToLocal one_cluster demo_cb ''public'' ''configmap.app'' ''k'' ''a'') listening_cluster = (None, s) \<and>
     filed_configmap s ''ns'' ''app'' = Some cm \<and> om_Kind (cm_Meta cm) = ''ConfigMap'' \<and> om_Name (cm_Meta cm) = ''app'' \<and>
     GetConfigMapAllKeys cm = [''k''] \<and> filed_dc s demo_key = Some dc \<and> listens dc ''configmap.app'' ''k''"
proof -
  have new: "NewObjectReferenceWrapper one_cluster demo_ref =
      Inr (WConfigMap \<lparr>cmw_ObjectRef = demo_ref, cmw_cm = None\<rparr>)"
    by (rule NewObjectReferenceWrapper_configmap) (simp_all add: one_cluster_def gvk_laws_api_server)
  have dc: "run_state (Client_GetDC one_cluster (cb_dcKey demo_cb)) listening_cluster = (Inr listening_dc, listening_cluster)"
    by (simp add: one_cluster_dcs api_get_def filed_in_def listening_cluster_def demo_defs listening_dc_def)
  obtain cm s1 where l: "run_state (reload_configmap one_cluster demo_ref) listening_cluster = (Inr cm, s1)"
    and cm: "cm = demo_cm\<lparr>cm_Meta := (cm_Meta demo_cm)\<lparr>om_Finalizers := [FinalizerName], om_ResourceVersion := ''v''\<rparr>\<rparr>"
    and s1: "s1 = listening_cluster\<lparr>cl_ConfigMaps := [((''ns'', ''app''), cm)], cl_Version := 1\<rparr>"
    by (simp add: reload_configmap_def one_cluster_configmaps api_get_def api_put_def filed_in_def demo_defs listening_cluster_def
        one_cluster_def api_server_def on_part_def Let_def version_string_def meta_key_def)
  have "CalcMd5 ''a'' \<noteq> []" by simp
  then have "\<exists>s x dc. attempt_loaded one_cluster listening_dc demo_ref cm ''configmap.app'' ''k'' ''a'' s1 = (None, s) \<and>
      filed_configmap s ''ns'' ''app'' = Some x \<and> om_Kind (cm_Meta x) = ''ConfigMap'' \<and> om_Name (cm_Meta x) = ''app'' \<and>
      GetConfigMapAllKeys x = [''k''] \<and> filed_dc s demo_key = Some dc \<and> listens dc ''configmap.app'' ''k''"
    by (simp add: filed_configmap_def filed_dc_def attempt_loaded_def cm s1 GetConfigMapContent_def demo_defs listening_dc_def listening_cluster_def
        one_cluster_dcs api_put_def filed_in_def Let_def ConfigMapWrapper_Flush_def one_cluster_configmaps StoreConfigMapContent_def
        looks_like_json_def UpdateSyncStatus_def meta_key_def HasPrefix_def GetConfigMapAllKeys_def listens_def mget0_def)
  then show ?thesis unfolding syncConfigToLocal_loaded [OF dc new demo_cb_sel(2) l] by blast
qed

theorem delivered_change_not_echoed_witness:
  "\<exists>s h. run_state (syncConfigToLocal one_cluster demo_cb ''public'' ''configmap.app'' ''k'' ''a'') listening_cluster = (None, s) \<and>
     map_option ObjConfigMap (filed_configmap s ''ns'' ''app'') = Some (h_obj h) \<and> filed_dc s demo_key = Some (h_dc h) \<and>
     run_state (reconcile_dc one_cluster (with_writes (demo_client ''b'') ''configmap.app'' ''k'' (\<lambda>_. ret (False, None)) (\<lambda>_. ret (False, None)))
        ''configmap.app'' demo_ref [''k'']) h =
     run_state (reconcile_dc one_cluster (demo_client ''b'') ''configmap.app'' demo_ref [''k'']) h"
proof -
  obtain s cm dc' where run: "run_state (syncConfigToLocal one_cluster demo_cb ''public'' ''configmap.app'' ''k'' ''a'') listening_cluster = (None, s)"
    and cm: "filed_configmap s ''ns'' ''app'' = Some cm" "om_Kind (cm_Meta cm) = ''ConfigMap''" "om_Name (cm_Meta cm) = ''app''"
      "GetConfigMapAllKeys cm = [''k'']"
    and dc': "filed_dc s demo_key = Some dc'" "listens dc' ''configmap.app'' ''k''"
    using listening_attempt by blast
  have dc: "filed_dc listening_cluster (cb_dcKey demo_cb) = Some listening_dc"
    by (simp add: filed_dc_def filed_in_def listening_cluster_def demo_defs listening_dc_def)
  have stored: "filed_configmap listening_cluster ''ns'' ''app'' = Some demo_cm"
    by (simp add: filed_configmap_def filed_in_def listening_cluster_def demo_defs listening_dc_def)
  then have acc: "stored_accepts filed_configmap listening_cluster (or_Namespace demo_ref) (or_Name demo_ref) ''k'' ''a''"
    and md5: "CalcMd5 (fst (stored_content filed_configmap listening_cluster (or_Namespace demo_ref) (or_Name demo_ref) ''k'')) \<noteq> CalcMd5 ''a''"
    by (simp_all add: stored_accepts_def stored_content_def configmap_accepts_def looks_like_json_def HasPrefix_def demo_cm_def GetConfigMapContent_def)
  let ?h = "\<lparr>h_world = s, h_obj = ObjConfigMap cm, h_dc = dc', h_errs = []\<rparr>"
  have g: "obj_group (ObjConfigMap cm) = ''configmap.app''" using cm(2,3) by (simp add: obj_group_def)
  have "run_state (reconcile_dc one_cluster (with_writes (demo_client ''b'') ''configmap.app'' ''k'' (\<lambda>_. ret (False, None)) (\<lambda>_. ret (False, None)))
        ''configmap.app'' demo_ref (object_keys (h_obj ?h))) ?h =
     run_state (reconcile_dc one_cluster (demo_client ''b'') ''configmap.app'' demo_ref (object_keys (h_obj ?h))) ?h"
    using delivered_change_not_echoed [where h = ?h and C = "demo_client ''b''" and K' = one_cluster and pub = "\<lambda>_. ret (False, None)"
        and del = "\<lambda>_. ret (False, None)" and ref' = demo_ref,
        OF cluster_store_one_cluster demo_ref_sel(1,2) demo_cb_sel(2) dc acc _ md5 run _ cm(2)] cm(1,4) dc' g by simp
  then show ?thesis using run cm(1,4) dc'(1) by (intro exI [of _ s] exI [of _ ?h]) simp
qed

end
