(* ===== verification/Group_Agreement.thy ===== *)
theory Group_Agreement
  imports DC_Controller Config_Agreement
begin

text \<open>
  The abstract account of theory \<open>Config_Agreement\<close> for \<^verbatim>\<open>nacos_controller.go\<close>, where an object is reached through a wrapper: its copy is
  loaded, changed data id by data id and written back at the end.
\<close>

section \<open>A handler with a loaded wrapper\<close>

fun wrapped_copy :: "ObjectReferenceWrapper \<Rightarrow> Object option" where
  "wrapped_copy (WConfigMap w) = map_option ObjConfigMap (cmw_cm w)"
| "wrapped_copy (WSecret w) = map_option ObjSecret (sw_secret w)"





text \<open>The handler as one whose object is the copy.\<close>

definition unwrap :: "(ObjectReferenceWrapper, 's) handler \<Rightarrow> (Object, 's) handler" where
  "unwrap h = \<lparr>h_world = h_world h, h_obj = the (wrapped_copy (h_obj h)), h_dc = h_dc h, h_errs = h_errs h\<rparr>"

lemma unwrap_sel [simp]:
  "h_world (unwrap h) = h_world h" "h_obj (unwrap h) = the (wrapped_copy (h_obj h))" "h_dc (unwrap h) = h_dc h" "h_errs (unwrap h) = h_errs h"
  by (simp_all add: unwrap_def)





section \<open>One data id\<close>


section \<open>One ConfigMap\<close>







text \<open>What the synchronisation of a group makes of a data id.\<close>

definition group_item :: "bool \<Rightarrow> (string \<Rightarrow> string) \<Rightarrow> string \<Rightarrow> item \<Rightarrow> item" where
  "group_item preferCluster back seen x = (if it_present x then first_item CalcMd5 preferCluster back seen x else x)"

lemma group_item_present [simp]: "it_present (group_item pc back seen x) = it_present x"
  by (simp add: group_item_def first_item_def split: sync_action.split)












section \<open>An example\<close>

abbreviation kv_part :: "(cluster, 'a) state \<Rightarrow> (kv_world, 'a) state" where
  "kv_part \<equiv> on_part fst (\<lambda>p s. (p, snd s))"

definition kv_view :: "kv_world \<Rightarrow> string \<Rightarrow> string \<Rightarrow> ConfigMap option" where
  "kv_view s = filed_configmap (fst s)"

lemma run_kv_part [simp]: "run_state (kv_part m) s = (case run_state m (fst s) of (a, c) \<Rightarrow> (a, (c, snd s)))"
  by (simp add: on_part_def)

lemma kv_configmaps:
  "ConfigMaps_Get kv_cluster ns n = kv_part (ConfigMaps_Get one_cluster ns n)"
  "ConfigMaps_Create kv_cluster ns x = kv_part (ConfigMaps_Create one_cluster ns x)"
  "ConfigMaps_Update kv_cluster ns x = kv_part (ConfigMaps_Update one_cluster ns x)"
  by (simp_all add: kv_cluster_def one_cluster_def api_server_def on_part_def)




text \<open>The ConfigMap has an empty content under \<open>k\<close>, the server \<open>x\<close>.\<close>

definition kv_group :: "(unit, kv_world) handler" where
  "kv_group = \<lparr>h_world = (demo_cluster False, [((''configmap.app'', ''k''), ''x'')]), h_obj = (), h_dc = demo_dc False, h_errs = []\<rparr>"

definition kv_loaded :: ConfigMap where
  "kv_loaded = demo_cm\<lparr>cm_Meta := (cm_Meta demo_cm)\<lparr>om_Finalizers := [FinalizerName], om_ResourceVersion := ''v''\<rparr>\<rparr>"



lemma kv_loaded_sel [simp]:
  "GetConfigMapContent kv_loaded ''k'' = ([], True)" "GetConfigMapAllKeys kv_loaded = [''k'']"
  by (simp_all add: kv_loaded_def demo_cm_def GetConfigMapContent_def GetConfigMapAllKeys_def)

text \<open>A run on any cluster that returns this ConfigMap, whatever the write at the end does.\<close>

lemma kv_run:
  assumes "NewObjectReferenceWrapper K demo_ref = Inr (WConfigMap \<lparr>cmw_ObjectRef = demo_ref, cmw_cm = None\<rparr>)"
    and "run_state (reload_configmap K demo_ref) s = (Inr kv_loaded, (c, snd (h_world kv_group)))"
  shows "\<exists>h'. run_state (configGroupSync K kv_client demo_ref) (kv_group\<lparr>h_world := s\<rparr>) = (Ok (), h') \<and> h_errs h' = [] \<and>
     (\<exists>st. GetSyncStatusByDataId (h_dc h') ''configmap.app'' ''k'' = Some st \<and> st_Ready st \<and> st_Md5 st = CalcMd5 ''x'') \<and>
     h_world h' = exec (ConfigMaps_Update K ''ns'' (kv_loaded\<lparr>cm_Data := [(''k'', ''x'')]\<rparr>)) (c, snd (h_world kv_group))"
proof -
  have g: "ref_group demo_ref = ''configmap.app''" by (simp add: ref_group_def demo_ref_def)
  have data: "cm_Data kv_loaded = [(''k'', [])]" "om_Namespace (cm_Meta kv_loaded) = ''ns''" by (simp_all add: kv_loaded_def demo_cm_def demo_meta_def)
  show ?thesis
    using assms(2)
    by (simp add: configGroupSync_def assms(1) with_wrapper_def sync_wrapper_def g dispatch_def ConfigMapWrapper_GetAllKeys_def cmw_load_def cmw_reload_def
        run_bindO sync_data_id_def reconcile_data_id_def cmw.wget_cached cmw.wstore_cached kv_client_def kv_group_def mget0_def Let_def
        StoreConfigMapContent_def looks_like_json_def HasPrefix_def listen_data_id_def GetSyncStatus_UpdateSyncStatus mk_status_def
        ConfigMapWrapper_Flush_def data split: prod.split sum.split)
qed


section \<open>What the caller is not told\<close>

text \<open>
  The write at the end is refused with a conflict: the synchronisation reports no error, the status says that \<open>x\<close> was synchronised, and the
  ConfigMap still has the empty content.  The next change of the object then meets a recorded md5 that is not that of its content.
\<close>

definition kv_stale :: "kv_world Kube" where
  "kv_stale = kv_cluster\<lparr>ConfigMaps_Update := (\<lambda>_ _. ret (Inl (ErrConflict ''stale'')))\<rparr>"

lemma refused_flush_reported_as_synchronised:
  defines "s \<equiv> ((demo_cluster False)\<lparr>cl_ConfigMaps := [((''ns'', ''app''), kv_loaded)], cl_Version := 1\<rparr>, snd (h_world kv_group))"
  shows "\<exists>h'. run_state (configGroupSync kv_stale kv_client demo_ref) (kv_group\<lparr>h_world := s\<rparr>) = (Ok (), h') \<and> h_errs h' = [] \<and>
     (\<exists>st. GetSyncStatusByDataId (h_dc h') ''configmap.app'' ''k'' = Some st \<and> st_Ready st \<and> st_Md5 st = CalcMd5 ''x'') \<and>
     stored_content kv_view (h_world h') ''ns'' ''app'' ''k'' = ([], True)"
proof -
  have new: "NewObjectReferenceWrapper kv_stale demo_ref = Inr (WConfigMap \<lparr>cmw_ObjectRef = demo_ref, cmw_cm = None\<rparr>)"
    by (rule NewObjectReferenceWrapper_configmap) (simp_all add: kv_stale_def kv_cluster_def gvk_laws_def api_server_def ConfigMapGVK_def SecretGVK_def)
  have s: "(fst s, snd (h_world kv_group)) = s" by (simp add: s_def)
  have "run_state (reload_configmap kv_stale demo_ref) s = (Inr kv_loaded, s)"
    by (simp add: reload_configmap_def kv_stale_def kv_configmaps one_cluster_configmaps api_get_def filed_in_def demo_defs s_def
        kv_cluster_def api_server_def meta_key_def kv_loaded_def)
  then have reload: "run_state (reload_configmap kv_stale demo_ref) s = (Inr kv_loaded, (fst s, snd (h_world kv_group)))" using s by simp
  have "stored_content kv_view s ''ns'' ''app'' ''k'' = ([], True)"
    by (simp add: stored_content_def kv_view_def filed_configmap_def filed_in_def s_def meta_key_def) (simp add: kv_loaded_def demo_cm_def demo_meta_def)
  moreover have "exec (ConfigMaps_Update kv_stale ''ns'' x) s = s" for x by (simp add: kv_stale_def)
  ultimately show ?thesis using kv_run [OF new reload] unfolding s by auto
qed

text \<open>When the ConfigMap cannot be loaded, the group is skipped without an error, and the resource counts as synchronised.\<close>

lemma unreadable_group_skipped:
  assumes "NewObjectReferenceWrapper K ref = Inr (WConfigMap \<lparr>cmw_ObjectRef = ref, cmw_cm = None\<rparr>)"
    and "run_state (reload_configmap K ref) (h_world h) = (Inl err, s1)"
  shows "run_state (configGroupSync K C ref) h = (Ok (), h\<lparr>h_world := s1\<rparr>)"
  using assms by (cases h)
    (simp add: configGroupSync_def with_wrapper_def sync_wrapper_def dispatch_def ConfigMapWrapper_GetAllKeys_def cmw_load_def cmw_reload_def)

end
