(* ===== verification/Go_Strconv.thy ===== *)
theory Go_Strconv
  imports Config_Client
begin

text \<open>
  The functions of \<^verbatim>\<open>strconv\<close> that the naming code calls, as Go 1.19 has them: \<^verbatim>\<open>ParseBool\<close>,
  \<^verbatim>\<open>ParseUint(s, 0, 0)\<close> on a 64-bit machine with its base prefixes and underscores, and the decimal
  integers of \<^verbatim>\<open>ParseInt(s, 10, 64)\<close> for JSON numbers.  \<open>None\<close> is an error; the callers do not look at
  the value that comes with one.
\<close>

definition ParseBool :: "string \<Rightarrow> bool option" where
  "ParseBool s =
     (if s \<in> {''1'', ''t'', ''T'', ''true'', ''TRUE'', ''True''} then Some True
      else if s \<in> {''0'', ''f'', ''F'', ''false'', ''FALSE'', ''False''} then Some False
      else None)"

section \<open>Unsigned integers with a prefix\<close>

text \<open>A digit or letter as a digit value.\<close>

definition alnum_value :: "char \<Rightarrow> nat option" where
  "alnum_value c =
     (let n = (of_char c :: nat) in
      if 48 \<le> n \<and> n \<le> 57 then Some (n - 48)
      else if 97 \<le> n \<and> n \<le> 122 then Some (n - 87)
      else if 65 \<le> n \<and> n \<le> 90 then Some (n - 55)
      else None)"

definition split_base :: "string \<Rightarrow> nat \<times> string" where
  "split_base s =
     (case s of
        [] \<Rightarrow> (10, s)
      | z # rest \<Rightarrow>
          if z \<noteq> CHR ''0'' then (10, s)
          else if length s \<ge> 3 \<and> hd rest \<in> {CHR ''b'', CHR ''B''} then (2, tl rest)
          else if length s \<ge> 3 \<and> hd rest \<in> {CHR ''o'', CHR ''O''} then (8, tl rest)
          else if length s \<ge> 3 \<and> hd rest \<in> {CHR ''x'', CHR ''X''} then (16, tl rest)
          else (8, rest))"

fun parse_base :: "nat \<Rightarrow> nat \<Rightarrow> string \<Rightarrow> nat option" where
  "parse_base base n [] = Some n"
| "parse_base base n (c # cs) =
     (if c = CHR ''_'' then parse_base base n cs
      else (case alnum_value c of
              None \<Rightarrow> None
            | Some d \<Rightarrow> if d \<ge> base \<or> n * base + d \<ge> 2 ^ 64 then None
                        else parse_base base (n * base + d) cs))"

text \<open>
  \<^verbatim>\<open>underscoreOK\<close>: an underscore follows a digit or the prefix and precedes a digit.  \<open>prev\<close> is the previous
  character's class: \<open>^\<close> at the start, \<open>0\<close> for a digit, \<open>_\<close> and \<open>!\<close> for others.
\<close>

fun underscores_from :: "bool \<Rightarrow> char \<Rightarrow> string \<Rightarrow> bool" where
  "underscores_from hex prev [] \<longleftrightarrow> prev \<noteq> CHR ''_''"
| "underscores_from hex prev (c # cs) \<longleftrightarrow>
     (let v = alnum_value c in
      if v \<noteq> None \<and> (the v < 10 \<or> hex \<and> the v < 16) then underscores_from hex (CHR ''0'') cs
      else if c = CHR ''_'' then (prev = CHR ''0'' \<and> underscores_from hex (CHR ''_'') cs)
      else (prev \<noteq> CHR ''_'' \<and> underscores_from hex (CHR ''!'') cs))"

definition underscoreOK :: "string \<Rightarrow> bool" where
  "underscoreOK s =
     (let s1 = (case s of c # cs \<Rightarrow> if c = CHR ''-'' \<or> c = CHR ''+'' then cs else s | [] \<Rightarrow> s) in
      if length s1 \<ge> 2 \<and> s1 ! 0 = CHR ''0'' \<and>
         s1 ! 1 \<in> {CHR ''b'', CHR ''B'', CHR ''o'', CHR ''O'', CHR ''x'', CHR ''X''}
      then underscores_from (s1 ! 1 \<in> {CHR ''x'', CHR ''X''}) (CHR ''0'') (drop 2 s1)
      else underscores_from False (CHR ''^'') s1)"

definition ParseUint :: "string \<Rightarrow> nat option" where
  "ParseUint s =
     (if s = [] then None
      else (let (base, digits) = split_base s in
            case parse_base base 0 digits of
              None \<Rightarrow> None
            | Some n \<Rightarrow> if CHR ''_'' \<in> set s \<and> \<not> underscoreOK s then None else Some n))"

lemma parse_base_bound: "parse_base b n s = Some m \<Longrightarrow> n < 2 ^ 64 \<Longrightarrow> m < 2 ^ 64"
  by (induction b n s rule: parse_base.induct) (auto split: if_splits option.splits)

lemma ParseUint_bound: "ParseUint s = Some n \<Longrightarrow> n < 2 ^ 64"
  by (auto simp: ParseUint_def Let_def split: if_splits option.splits prod.splits dest: parse_base_bound)

text \<open>Decimal numbers without a leading zero are read back.\<close>

lemma alnum_value_digit: "d < 10 \<Longrightarrow> alnum_value (char_of (48 + d)) = Some d"
  by (simp add: alnum_value_def Let_def)

lemma parse_base_append:
  "parse_base b n (s @ t) = (case parse_base b n s of None \<Rightarrow> None | Some m \<Rightarrow> parse_base b m t)"
  by (induction b n s rule: parse_base.induct) (auto split: option.split)

lemma digit_not_underscore:
  fixes d :: nat
  assumes d: "d < 10"
  shows "char_of (48 + d) \<noteq> CHR ''_''"
proof
  assume "char_of (48 + d) = CHR ''_''"
  then have "alnum_value (CHR ''_'') = Some d" using alnum_value_digit [OF d] by simp
  moreover have "alnum_value (CHR ''_'') = None" by (simp add: alnum_value_def)
  ultimately show False by simp
qed

lemma parse_base_Itoa: "n < 2 ^ 64 \<Longrightarrow> parse_base 10 0 (Itoa n) = Some n"
proof (induction n rule: Itoa.induct)
  case (1 n)
  show ?case
  proof (cases "n < 10")
    case True
    then show ?thesis
      by (simp add: Itoa.simps [of n] digit_string_def alnum_value_digit digit_not_underscore)
  next
    case False
    have m: "n mod 10 < 10" by simp
    have "n div 10 * 10 + n mod 10 = n" by simp
    then show ?thesis
      using False 1 m
      by (simp add: Itoa.simps [of n] digit_string_def parse_base_append alnum_value_digit [OF m] digit_not_underscore [OF m])
  qed
qed

section \<open>Signed decimals\<close>

text \<open>\<^verbatim>\<open>strconv.ParseInt(s, 10, 64)\<close> agrees with \<^verbatim>\<open>Atoi\<close>.\<close>

abbreviation ParseInt64 :: "string \<Rightarrow> int option" where
  "ParseInt64 \<equiv> Atoi"

end
