(* ===== verification/Go_Json.thy ===== *)
theory Go_Json
  imports Go_Strconv
begin

text \<open>
  What the naming code uses of \<^verbatim>\<open>encoding/json\<close>: the grammar that \<^verbatim>\<open>Unmarshal\<close> checks before it decodes,
  as a lexer and a stack machine over tokens (the scanner of the package keeps the same stack), the
  unquoting of strings, the decoding of the values that fields of basic types take, and the string
  literals \<^verbatim>\<open>Marshal\<close> writes.  The text of the package's own errors is not modelled.
\<close>

section \<open>Values and tokens\<close>

datatype json =
    JNull
  | JBool bool
  | JNum string \<comment> \<open>the literal\<close>
  | JStr string
  | JArr "json list"
  | JObj "(string \<times> json) list" \<comment> \<open>the members in order, duplicates kept\<close>

datatype token =
    TLit json \<comment> \<open>null, true, false, a number or a string\<close>
  | TLBrace | TRBrace | TLBrack | TRBrack | TColon | TComma

section \<open>Strings\<close>

text \<open>The number of continuation bytes of the rune that starts with \<open>a\<close> before \<open>s\<close>; \<open>None\<close> if invalid.\<close>

abbreviation byte :: "char \<Rightarrow> nat" where
  "byte c \<equiv> of_char c"

definition cont_in :: "nat \<Rightarrow> nat \<Rightarrow> string \<Rightarrow> nat \<Rightarrow> bool" where
  "cont_in lo hi s i \<longleftrightarrow> i < length s \<and> lo \<le> byte (s ! i) \<and> byte (s ! i) \<le> hi"

definition rune_tail :: "char \<Rightarrow> string \<Rightarrow> nat option" where
  "rune_tail a s =
     (let b = byte a; c = cont_in 128 191 s in
      if b < 128 then Some 0
      else if 194 \<le> b \<and> b \<le> 223 then (if c 0 then Some 1 else None)
      else if b = 224 then (if cont_in 160 191 s 0 \<and> c 1 then Some 2 else None)
      else if b = 237 then (if cont_in 128 159 s 0 \<and> c 1 then Some 2 else None)
      else if 225 \<le> b \<and> b \<le> 239 then (if c 0 \<and> c 1 then Some 2 else None)
      else if b = 240 then (if cont_in 144 191 s 0 \<and> c 1 \<and> c 2 then Some 3 else None)
      else if 241 \<le> b \<and> b \<le> 243 then (if c 0 \<and> c 1 \<and> c 2 then Some 3 else None)
      else if b = 244 then (if cont_in 128 143 s 0 \<and> c 1 \<and> c 2 then Some 3 else None)
      else None)"

text \<open>Bytes that are not UTF-8 are read as U+FFFD.\<close>

abbreviation replacement_char :: string where
  "replacement_char \<equiv> [char_of (239::nat), char_of (191::nat), char_of (189::nat)]"

function fix_utf8 :: "string \<Rightarrow> string" where
  "fix_utf8 [] = []"
| "fix_utf8 (a # s) =
     (case rune_tail a s of
        None \<Rightarrow> replacement_char @ fix_utf8 s
      | Some n \<Rightarrow> a # take n s @ fix_utf8 (drop n s))"
  by pat_completeness auto
termination by (relation "measure length") auto

text \<open>The UTF-8 encoding of a code point.\<close>

definition utf8 :: "nat \<Rightarrow> string" where
  "utf8 n = map char_of
     (if n < 128 then [n]
      else if n < 2048 then [192 + n div 64, 128 + n mod 64]
      else if n < 65536 then [224 + n div 4096, 128 + n div 64 mod 64, 128 + n mod 64]
      else [240 + n div 262144, 128 + n div 4096 mod 64, 128 + n div 64 mod 64, 128 + n mod 64])"

definition hex_value :: "char \<Rightarrow> nat option" where
  "hex_value c = (case alnum_value c of Some d \<Rightarrow> if d < 16 then Some d else None | None \<Rightarrow> None)"

text \<open>Four hexadecimal digits.\<close>

fun hex4 :: "string \<Rightarrow> (nat \<times> string) option" where
  "hex4 (a # b # c # d # s) =
     (case (hex_value a, hex_value b, hex_value c, hex_value d) of
        (Some w, Some x, Some y, Some z) \<Rightarrow> Some (w * 4096 + x * 256 + y * 16 + z, s)
      | _ \<Rightarrow> None)"
| "hex4 _ = None"

text \<open>After \<^verbatim>\<open>\u\<close>: a surrogate pair is one code point, a lone surrogate is U+FFFD.\<close>

definition unicode_escape :: "string \<Rightarrow> (string \<times> string) option" where
  "unicode_escape s =
     (case hex4 s of
        None \<Rightarrow> None
      | Some (hi, rest) \<Rightarrow>
          if 55296 \<le> hi \<and> hi < 57344 then
            (case rest of
               x # y # rest' \<Rightarrow>
                 (if x = CHR 0x5C \<and> y = CHR ''u'' then
                    (case hex4 rest' of
                       Some (lo, rest2) \<Rightarrow>
                         if hi < 56320 \<and> 56320 \<le> lo \<and> lo < 57344
                         then Some (utf8 (65536 + (hi - 55296) * 1024 + (lo - 56320)), rest2)
                         else Some (replacement_char, rest)
                     | None \<Rightarrow> Some (replacement_char, rest))
                  else Some (replacement_char, rest))
             | _ \<Rightarrow> Some (replacement_char, rest))
          else Some (utf8 hi, rest))"

definition simple_escape :: "char \<Rightarrow> char option" where
  "simple_escape c =
     (if c = CHR 0x22 \<or> c = CHR 0x5C \<or> c = CHR ''/'' then Some c
      else if c = CHR ''b'' then Some (CHR 0x08) else if c = CHR ''f'' then Some (CHR 0x0C)
      else if c = CHR ''n'' then Some (CHR 0x0A) else if c = CHR ''r'' then Some (CHR 0x0D)
      else if c = CHR ''t'' then Some (CHR 0x09) else None)"

lemma hex4_length: "hex4 s = Some (n, r) \<Longrightarrow> length r < length s"
  by (induction s rule: hex4.induct) (auto split: option.splits)

lemma unicode_escape_length: "unicode_escape s = Some (u, r) \<Longrightarrow> length r < length s"
  by (auto simp: unicode_escape_def split: option.splits if_splits list.splits dest!: hex4_length)

text \<open>The rest of a string literal after its opening quote: the bytes it stands for, and what follows.\<close>

function lex_string :: "string \<Rightarrow> string \<Rightarrow> (string \<times> string) option" where
  "lex_string acc [] = None"
| "lex_string acc (c # s) =
     (if c = CHR 0x22 then Some (acc, s)
      else if byte c < 32 then None
      else if c \<noteq> CHR 0x5C then lex_string (acc @ [c]) s
      else (case s of
              [] \<Rightarrow> None
            | e # s' \<Rightarrow>
                if e = CHR ''u'' then
                  (case unicode_escape s' of
                     None \<Rightarrow> None
                   | Some (u, rest) \<Rightarrow> lex_string (acc @ u) rest)
                else (case simple_escape e of
                        None \<Rightarrow> None
                      | Some x \<Rightarrow> lex_string (acc @ [x]) s')))"
  by pat_completeness auto
termination
  by (relation "measure (\<lambda>(acc, s). length s)") (auto dest: unicode_escape_length)

lemma lex_string_length: "lex_string acc s = Some (v, r) \<Longrightarrow> length r < length s"
proof (induction acc s rule: lex_string.induct)
  case (2 acc c s)
  then show ?case
    by (auto split: if_splits list.splits option.splits prod.splits dest!: unicode_escape_length) force+
qed simp

section \<open>Numbers\<close>

definition is_digit :: "char \<Rightarrow> bool" where
  "is_digit c \<longleftrightarrow> digit_value c \<noteq> None"

text \<open>At least one digit.\<close>

definition some_digits :: "string \<Rightarrow> (string \<times> string) option" where
  "some_digits s = (case takeWhile is_digit s of [] \<Rightarrow> None | ds \<Rightarrow> Some (ds, dropWhile is_digit s))"

definition lex_int :: "string \<Rightarrow> (string \<times> string) option" where
  "lex_int s = (case s of c # r \<Rightarrow> if c = CHR ''0'' then Some (''0'', r) else some_digits s | [] \<Rightarrow> None)"

definition lex_frac :: "string \<Rightarrow> (string \<times> string) option" where
  "lex_frac s =
     (case s of
        c # r \<Rightarrow> if c = CHR ''.'' then map_option (\<lambda>(ds, r'). (c # ds, r')) (some_digits r) else Some ([], s)
      | [] \<Rightarrow> Some ([], s))"

definition lex_exp :: "string \<Rightarrow> (string \<times> string) option" where
  "lex_exp s =
     (case s of
        e # r \<Rightarrow>
          if e = CHR ''e'' \<or> e = CHR ''E'' then
            (case r of
               sg # r' \<Rightarrow>
                 if sg = CHR ''+'' \<or> sg = CHR ''-''
                 then map_option (\<lambda>(ds, r2). (e # sg # ds, r2)) (some_digits r')
                 else map_option (\<lambda>(ds, r2). (e # ds, r2)) (some_digits r)
             | [] \<Rightarrow> None)
          else Some ([], s)
      | [] \<Rightarrow> Some ([], s))"

definition lex_number :: "string \<Rightarrow> (string \<times> string) option" where
  "lex_number s0 =
     (let (sign, s) = (case s0 of c # r \<Rightarrow> if c = CHR ''-'' then (''-'', r) else ([], s0) | [] \<Rightarrow> ([], s0)) in
      case lex_int s of
        None \<Rightarrow> None
      | Some (i, s1) \<Rightarrow>
          (case lex_frac s1 of
             None \<Rightarrow> None
           | Some (f, s2) \<Rightarrow>
               (case lex_exp s2 of
                  None \<Rightarrow> None
                | Some (e, s3) \<Rightarrow> Some (sign @ i @ f @ e, s3))))"

lemma some_digits_length: "some_digits s = Some (ds, r) \<Longrightarrow> length r < length s"
proof -
  assume a: "some_digits s = Some (ds, r)"
  have "s = takeWhile is_digit s @ dropWhile is_digit s" by simp
  then have "length s = length (takeWhile is_digit s) + length (dropWhile is_digit s)" by (metis length_append)
  then show ?thesis using a by (auto simp: some_digits_def split: list.splits)
qed

lemma lex_int_length: "lex_int s = Some (ds, r) \<Longrightarrow> length r < length s"
  by (auto simp: lex_int_def split: list.splits if_splits dest: some_digits_length)

lemma lex_frac_length: "lex_frac s = Some (ds, r) \<Longrightarrow> length r \<le> length s"
  by (auto simp: lex_frac_def split: list.splits if_splits dest!: some_digits_length)

lemma lex_exp_length: "lex_exp s = Some (ds, r) \<Longrightarrow> length r \<le> length s"
  by (auto simp: lex_exp_def split: list.splits if_splits dest!: some_digits_length)

lemma lex_number_length: "lex_number s = Some (ds, r) \<Longrightarrow> length r < length s"
  by (auto simp: lex_number_def Let_def split: list.splits if_splits option.splits prod.splits
      dest!: lex_int_length lex_frac_length lex_exp_length)

section \<open>The lexer\<close>

abbreviation is_space :: "char \<Rightarrow> bool" where
  "is_space c \<equiv> c = CHR '' '' \<or> c = CHR 0x09 \<or> c = CHR 0x0D \<or> c = CHR 0x0A"

definition punctuation :: "char \<Rightarrow> token option" where
  "punctuation c =
     (if c = CHR ''{'' then Some TLBrace else if c = CHR ''}'' then Some TRBrace
      else if c = CHR ''['' then Some TLBrack else if c = CHR '']'' then Some TRBrack
      else if c = CHR '':'' then Some TColon else if c = CHR '','' then Some TComma else None)"

definition keyword :: "string \<Rightarrow> (json \<times> string) option" where
  "keyword s =
     (if HasPrefix s ''null'' then Some (JNull, drop 4 s)
      else if HasPrefix s ''true'' then Some (JBool True, drop 4 s)
      else if HasPrefix s ''false'' then Some (JBool False, drop 5 s)
      else None)"

text \<open>The next token of a text that does not start with white space.\<close>

definition next_token :: "char \<Rightarrow> string \<Rightarrow> (token \<times> string) option" where
  "next_token c s =
     (case punctuation c of
        Some t \<Rightarrow> Some (t, s)
      | None \<Rightarrow>
          if c = CHR 0x22 then map_option (\<lambda>(v, r). (TLit (JStr (fix_utf8 v)), r)) (lex_string [] s)
          else if c = CHR ''-'' \<or> is_digit c then map_option (\<lambda>(n, r). (TLit (JNum n), r)) (lex_number (c # s))
          else map_option (\<lambda>(v, r). (TLit v, r)) (keyword (c # s)))"

lemma next_token_length: "next_token c s = Some (t, r) \<Longrightarrow> length r \<le> length s"
  by (auto simp: next_token_def keyword_def split: option.splits if_splits
      dest!: lex_string_length lex_number_length)

function lex :: "string \<Rightarrow> token list option" where
  "lex [] = Some []"
| "lex (c # s) =
     (if is_space c then lex s
      else (case next_token c s of
              None \<Rightarrow> None
            | Some (t, r) \<Rightarrow> map_option (Cons t) (lex r)))"
  by pat_completeness auto
termination by (relation "measure length") (auto dest: next_token_length)

section \<open>The stack machine\<close>

text \<open>
  The open arrays and objects, innermost first, with the elements and members read so far; the last
  one is the member whose value comes next.
\<close>

datatype frame = InArray "json list" | InObject "(string \<times> json) list" | InMember "(string \<times> json) list" string

datatype mode = Begin | BeginOrEnd | KeyOrEnd | Key | Colon string | After json

definition max_depth :: nat where
  "max_depth = 10000"

definition begin_value :: "frame list \<Rightarrow> token \<Rightarrow> (mode \<times> frame list) option" where
  "begin_value st t =
     (case t of
        TLit v \<Rightarrow> Some (After v, st)
      | TLBrack \<Rightarrow> if length st < max_depth then Some (BeginOrEnd, InArray [] # st) else None
      | TLBrace \<Rightarrow> if length st < max_depth then Some (KeyOrEnd, InObject [] # st) else None
      | _ \<Rightarrow> None)"

definition read_key :: "frame list \<Rightarrow> token \<Rightarrow> (mode \<times> frame list) option" where
  "read_key st t = (case t of TLit (JStr k) \<Rightarrow> Some (Colon k, st) | _ \<Rightarrow> None)"

fun step_json :: "mode \<Rightarrow> frame list \<Rightarrow> token \<Rightarrow> (mode \<times> frame list) option" where
  "step_json Begin st t = begin_value st t"
| "step_json BeginOrEnd (InArray xs # st) t =
     (if t = TRBrack then Some (After (JArr xs), st) else begin_value (InArray xs # st) t)"
| "step_json KeyOrEnd (InObject ms # st) t =
     (if t = TRBrace then Some (After (JObj ms), st) else read_key (InObject ms # st) t)"
| "step_json Key st t = read_key st t"
| "step_json (Colon k) (InObject ms # st) t = (if t = TColon then Some (Begin, InMember ms k # st) else None)"
| "step_json (After v) (InArray xs # st) t =
     (if t = TComma then Some (Begin, InArray (xs @ [v]) # st)
      else if t = TRBrack then Some (After (JArr (xs @ [v])), st) else None)"
| "step_json (After v) (InMember ms k # st) t =
     (if t = TComma then Some (Key, InObject (ms @ [(k, v)]) # st)
      else if t = TRBrace then Some (After (JObj (ms @ [(k, v)])), st) else None)"
| "step_json _ _ _ = None"

fun run_json :: "mode \<Rightarrow> frame list \<Rightarrow> token list \<Rightarrow> json option" where
  "run_json m st [] = (case (m, st) of (After v, []) \<Rightarrow> Some v | _ \<Rightarrow> None)"
| "run_json m st (t # ts) = (case step_json m st t of None \<Rightarrow> None | Some (m', st') \<Rightarrow> run_json m' st' ts)"

definition json_parse :: "string \<Rightarrow> json option" where
  "json_parse s = (case lex s of None \<Rightarrow> None | Some ts \<Rightarrow> run_json Begin [] ts)"

subsection \<open>Every value is read back from its tokens\<close>

fun json_tokens :: "json \<Rightarrow> token list" and array_tokens :: "json list \<Rightarrow> token list"
  and member_tokens :: "(string \<times> json) list \<Rightarrow> token list" where
  "json_tokens (JArr xs) = TLBrack # array_tokens xs @ [TRBrack]"
| "json_tokens (JObj ms) = TLBrace # member_tokens ms @ [TRBrace]"
| "json_tokens v = [TLit v]"
| "array_tokens [] = []"
| "array_tokens [x] = json_tokens x"
| "array_tokens (x # xs) = json_tokens x @ TComma # array_tokens xs"
| "member_tokens [] = []"
| "member_tokens [(k, v)] = TLit (JStr k) # TColon # json_tokens v"
| "member_tokens ((k, v) # ms) = TLit (JStr k) # TColon # json_tokens v @ TComma # member_tokens ms"

fun json_depth :: "json \<Rightarrow> nat" where
  "json_depth (JArr xs) = Suc (fold max (map json_depth xs) 0)"
| "json_depth (JObj ms) = Suc (fold max (map (\<lambda>(k, v). json_depth v) ms) 0)"
| "json_depth _ = 0"

lemma fold_max_le:
  "Suc (k + fold max xs n) \<le> d \<longleftrightarrow> Suc (k + n) \<le> d \<and> (\<forall>x\<in>set xs. Suc (k + x) \<le> d)" for n :: nat
  by (induction xs arbitrary: n) (auto simp: max_def)

lemma run_json_tokens:
  "length st + json_depth v \<le> max_depth \<Longrightarrow> run_json Begin st (json_tokens v @ ts) = run_json (After v) st ts"
  "xs \<noteq> [] \<Longrightarrow> \<forall>x\<in>set xs. Suc (length st) + json_depth x \<le> max_depth \<Longrightarrow>
   run_json Begin (InArray ys # st) (array_tokens xs @ TRBrack # ts) = run_json (After (JArr (ys @ xs))) st ts"
  "ms \<noteq> [] \<Longrightarrow> \<forall>m\<in>set ms. Suc (length st) + json_depth (snd m) \<le> max_depth \<Longrightarrow>
   run_json Key (InObject ns # st) (member_tokens ms @ TRBrace # ts) = run_json (After (JObj (ns @ ms))) st ts"
proof (induction v and xs and ms arbitrary: st ts and st ts ys and st ts ns
    rule: json_tokens_array_tokens_member_tokens.induct)
  case (1 xs)
  have "run_json BeginOrEnd (InArray [] # st) (array_tokens xs @ TRBrack # ts) = run_json (After (JArr xs)) st ts"
  proof (cases xs)
    case (Cons x xs')
    then obtain t us where t: "array_tokens xs = t # us" "t \<noteq> TRBrack"
      by (cases x; cases xs') auto
    then show ?thesis
      using "1.IH" [of st "[]" ts] "1.prems" Cons by (simp add: fold_max_le)
  qed simp
  then show ?case using "1.prems" by (simp add: begin_value_def)
next
  case (2 ms)
  have "run_json KeyOrEnd (InObject [] # st) (member_tokens ms @ TRBrace # ts) = run_json (After (JObj ms)) st ts"
  proof (cases ms)
    case (Cons m ms')
    then obtain t us where t: "member_tokens ms = t # us" "t \<noteq> TRBrace"
      by (cases m; cases ms') auto
    then show ?thesis
      using "2.IH" [of st "[]" ts] "2.prems" Cons by (simp add: fold_max_le case_prod_beta)
  qed simp
  then show ?case using "2.prems" by (simp add: begin_value_def)
qed (auto simp: begin_value_def read_key_def)

lemma json_tokens_parsed: "json_depth v \<le> max_depth \<Longrightarrow> run_json Begin [] (json_tokens v) = Some v"
  using run_json_tokens(1) [of "[]" v "[]"] by simp

section \<open>Decoding\<close>

text \<open>
  A decoder takes a value and what the variable held before, which \<^verbatim>\<open>null\<close> leaves or clears, and gives what it
  holds after; \<open>None\<close> is the type error.  The package goes on after a type error but then returns it, and
  every caller gives up on an error.
\<close>

type_synonym 'a decoder = "json \<Rightarrow> 'a \<Rightarrow> 'a option"

definition dec_string :: "string decoder" where
  "dec_string j old = (case j of JStr s \<Rightarrow> Some s | JNull \<Rightarrow> Some old | _ \<Rightarrow> None)"

definition dec_bool :: "bool decoder" where
  "dec_bool j old = (case j of JBool b \<Rightarrow> Some b | JNull \<Rightarrow> Some old | _ \<Rightarrow> None)"

definition dec_int :: "int decoder" where
  "dec_int j old = (case j of JNum lit \<Rightarrow> ParseInt64 lit | JNull \<Rightarrow> Some old | _ \<Rightarrow> None)"

text \<open>
  A \<^verbatim>\<open>float64\<close> is kept as its literal, since nothing reads it; a literal that rounds to infinity is an error:
  one of at least \<^verbatim>\<open>2^1024 - 2^970\<close>.
\<close>

definition digits_value :: "string \<Rightarrow> nat" where
  "digits_value ds = (case parse_digits 0 ds of Some n \<Rightarrow> n | None \<Rightarrow> 0)"

definition float_fits :: "string \<Rightarrow> bool" where
  "float_fits lit =
     (let s = dropWhile (\<lambda>c. c = CHR ''-'') lit;
          ip = takeWhile is_digit s;
          r = dropWhile is_digit s;
          fp = (case r of c # r' \<Rightarrow> if c = CHR ''.'' then takeWhile is_digit r' else [] | [] \<Rightarrow> []);
          ep = (case dropWhile (\<lambda>c. c = CHR ''.'' \<or> is_digit c) r of [] \<Rightarrow> [] | _ # x \<Rightarrow> x);
          x = (case ep of
                 [] \<Rightarrow> 0
               | sg # ds \<Rightarrow> if sg = CHR ''-'' then - int (digits_value ds)
                           else if sg = CHR ''+'' then int (digits_value ds) else int (digits_value ep))
               - int (length fp);
          m = digits_value (ip @ fp);
          bound = 2 ^ 1024 - 2 ^ 970
      in if 0 \<le> x then m * 10 ^ nat x < bound else m < bound * 10 ^ nat (- x))"

definition dec_float :: "string decoder" where
  "dec_float j old =
     (case j of JNum lit \<Rightarrow> if float_fits lit then Some lit else None | JNull \<Rightarrow> Some old | _ \<Rightarrow> None)"

text \<open>Members in order, each decoded into the variable its key selects.\<close>

fun dec_members :: "(string \<Rightarrow> json \<Rightarrow> 'a \<Rightarrow> 'a option) \<Rightarrow> (string \<times> json) list \<Rightarrow> 'a \<Rightarrow> 'a option" where
  "dec_members f [] x = Some x"
| "dec_members f ((k, j) # ms) x = (case f k j x of None \<Rightarrow> None | Some y \<Rightarrow> dec_members f ms y)"

text \<open>\<^verbatim>\<open>map[string]string\<close>: a nil map is \<open>None\<close>; \<^verbatim>\<open>null\<close> sets it to nil.\<close>

definition dec_string_map :: "(string, string) gomap option decoder" where
  "dec_string_map j old =
     (case j of
        JNull \<Rightarrow> Some None
      | JObj ms \<Rightarrow>
          map_option Some (dec_members (\<lambda>k v m. map_option (\<lambda>s. mput k s m) (dec_string v [])) ms
            (case old of None \<Rightarrow> [] | Some m \<Rightarrow> m))
      | _ \<Rightarrow> None)"

text \<open>
  The fields of a struct are looked up by name, without regard to case; the letters of other alphabets that
  fold to ASCII are the long s and the Kelvin sign.
\<close>

fun fold_key :: "string \<Rightarrow> string" where
  "fold_key [] = []"
| "fold_key (c # s) =
     (if byte c = 197 \<and> s \<noteq> [] \<and> byte (hd s) = 191 then CHR ''s'' # fold_key (tl s)
      else if byte c = 226 \<and> length s \<ge> 2 \<and> byte (s ! 0) = 132 \<and> byte (s ! 1) = 170
      then CHR ''k'' # fold_key (drop 2 s)
      else lower_char c # fold_key s)"

definition dec_struct :: "(string \<Rightarrow> json \<Rightarrow> 'a \<Rightarrow> 'a option) \<Rightarrow> 'a decoder" where
  "dec_struct field j old =
     (case j of
        JObj ms \<Rightarrow> dec_members (\<lambda>k. field (fold_key k)) ms old
      | JNull \<Rightarrow> Some old
      | _ \<Rightarrow> None)"

text \<open>
  A slice is its backing array and its length; decoding an array reuses the elements of the backing array, so
  a repeated key decodes into what the first one left.
\<close>

type_synonym 'a goslice = "'a list \<times> nat"

fun dec_elements :: "'a decoder \<Rightarrow> 'a \<Rightarrow> json list \<Rightarrow> 'a list \<Rightarrow> 'a list option" where
  "dec_elements dec zero [] backing = Some []"
| "dec_elements dec zero (j # js) backing =
     (case dec j (case backing of [] \<Rightarrow> zero | x # _ \<Rightarrow> x) of
        None \<Rightarrow> None
      | Some y \<Rightarrow> map_option (Cons y) (dec_elements dec zero js (tl backing)))"

definition dec_slice :: "'a decoder \<Rightarrow> 'a \<Rightarrow> 'a goslice decoder" where
  "dec_slice dec zero j old =
     (case j of
        JNull \<Rightarrow> Some ([], 0)
      | JArr js \<Rightarrow>
          map_option (\<lambda>ys. if ys = [] then ([], 0) else (ys @ drop (length ys) (fst old), length ys))
            (dec_elements dec zero js (fst old))
      | _ \<Rightarrow> None)"

definition slice_list :: "'a goslice \<Rightarrow> 'a list" where
  "slice_list = (\<lambda>(backing, n). take n backing)"

text \<open>\<^verbatim>\<open>json.Unmarshal\<close> into a variable.\<close>

definition Unmarshal :: "'a decoder \<Rightarrow> string \<Rightarrow> 'a \<Rightarrow> go_error + 'a" where
  "Unmarshal dec data old =
     (case json_parse data of
        None \<Rightarrow> Inl (ErrOther ''invalid JSON'')
      | Some j \<Rightarrow> (case dec j old of
                     None \<Rightarrow> Inl (ErrOther ''json: cannot unmarshal'')
                   | Some x \<Rightarrow> Inr x))"

section \<open>String literals written by \<^verbatim>\<open>Marshal\<close>\<close>

definition escape_ascii :: "char \<Rightarrow> string" where
  "escape_ascii c =
     (if c = CHR 0x22 \<or> c = CHR 0x5C then [CHR 0x5C, c]
      else if c = CHR 0x0A then [CHR 0x5C, CHR ''n''] else if c = CHR 0x0D then [CHR 0x5C, CHR ''r'']
      else if c = CHR 0x09 then [CHR 0x5C, CHR ''t'']
      else if byte c < 32 \<or> c = CHR ''<'' \<or> c = CHR ''>'' \<or> c = CHR ''&''
      then CHR 0x5C # ''u00'' @ [hex_digit (byte c div 16), hex_digit (byte c mod 16)]
      else [c])"

function escape_string :: "string \<Rightarrow> string" where
  "escape_string [] = []"
| "escape_string (a # s) =
     (case rune_tail a s of
        None \<Rightarrow> CHR 0x5C # ''ufffd'' @ escape_string s
      | Some n \<Rightarrow>
          (if n = 0 then escape_ascii a
           else if n = 2 \<and> byte a = 226 \<and> byte (s ! 0) = 128 \<and> byte (s ! 1) \<in> {168, 169}
           then CHR 0x5C # ''u202'' @ [hex_digit (byte (s ! 1) mod 16)]
           else a # take n s) @ escape_string (drop n s))"
  by pat_completeness auto
termination by (relation "measure length") auto

definition quote_string :: "string \<Rightarrow> string" where
  "quote_string s = CHR 0x22 # escape_string s @ [CHR 0x22]"

end
