(* ===== verification/Naming_Types.thy ===== *)
theory Naming_Types
  imports Go_Json
begin

text \<open>
  The data of the service-discovery half: \<^verbatim>\<open>api/v1/servicediscovery_types.go\<close>,
  \<^verbatim>\<open>pkg/nacos/naming/naming_types.go\<close> and \<^verbatim>\<open>naming_constant.go\<close>, the Service and Endpoints fields that the
  sources read, and the calls of the controller-runtime client on these types.
\<close>

section \<open>Kubernetes objects\<close>

record Service =
  svc_Meta :: ObjectMeta
  svc_Annotations :: "(string, string) gomap"

text \<open>\<^verbatim>\<open>EndpointPort.Port\<close> is an \<^verbatim>\<open>int32\<close>.\<close>

record EndpointSubset =
  es_Addresses :: "string list" \<comment> \<open>the \<^verbatim>\<open>IP\<close> of each address\<close>
  es_Ports :: "32 word list"

record Endpoints =
  ep_Meta :: ObjectMeta
  ep_Subsets :: "EndpointSubset list"

section \<open>ServiceDiscovery\<close>

record ServiceDiscoverySpec =
  sds_Services :: "string list"
  sds_SyncDirect :: string
  sds_NacosServer :: NacosServerConfiguration
  sds_ObjectRef :: "ObjectReference option"

definition ToNacos :: string where "ToNacos = ''K8s2nacos''"
definition ToK8s :: string where "ToK8s = ''nacos2k8s''"

record ServiceSyncStatus =
  sss_ServiceName :: string
  sss_GroupName :: string
  sss_LastSyncFrom :: string
  sss_LastSyncTime :: nat
  sss_Ready :: bool
  sss_Message :: string

text \<open>The entries of \<^verbatim>\<open>SyncStatuses\<close> are pointers; \<open>None\<close> is nil.\<close>

record ServiceDiscoveryStatus =
  sdst_Message :: string
  sdst_SyncStatuses :: "(string, ServiceSyncStatus option) gomap"
  sdst_ObjectRef :: "ObjectReference option"

record ServiceDiscovery =
  sd_Meta :: ObjectMeta
  sd_Spec :: ServiceDiscoverySpec
  sd_Status :: ServiceDiscoveryStatus

abbreviation sd_Namespace :: "ServiceDiscovery \<Rightarrow> string" where
  "sd_Namespace sd \<equiv> om_Namespace (sd_Meta sd)"

abbreviation sd_Name :: "ServiceDiscovery \<Rightarrow> string" where
  "sd_Name sd \<equiv> om_Name (sd_Meta sd)"

abbreviation sd_Services :: "ServiceDiscovery \<Rightarrow> string list" where
  "sd_Services sd \<equiv> sds_Services (sd_Spec sd)"

abbreviation sd_NacosServer :: "ServiceDiscovery \<Rightarrow> NacosServerConfiguration" where
  "sd_NacosServer sd \<equiv> sds_NacosServer (sd_Spec sd)"

abbreviation sd_SyncStatuses :: "ServiceDiscovery \<Rightarrow> (string, ServiceSyncStatus option) gomap" where
  "sd_SyncStatuses sd \<equiv> sdst_SyncStatuses (sd_Status sd)"

abbreviation sd_Finalizers :: "ServiceDiscovery \<Rightarrow> string list" where
  "sd_Finalizers sd \<equiv> om_Finalizers (sd_Meta sd)"

text \<open>The client's calls on these types, as in theory \<open>Kube_Env\<close>.\<close>

record 's KubeSD =
  Client_GetSD :: "NamespacedName \<Rightarrow> ('s, go_error + ServiceDiscovery) state"
  Client_ListSD :: "string \<Rightarrow> ('s, go_error + ServiceDiscovery list) state"
  Client_UpdateSD :: "ServiceDiscovery \<Rightarrow> ('s, go_error + ServiceDiscovery) state"
  Client_StatusUpdateSD :: "ServiceDiscovery \<Rightarrow> ('s, go_error + ServiceDiscovery) state"
  Client_GetService :: "NamespacedName \<Rightarrow> ('s, go_error + Service) state"
  Client_GetEndpoints :: "NamespacedName \<Rightarrow> ('s, go_error + Endpoints) state"
  Client_ListEndpoints :: "string \<Rightarrow> ('s, go_error + Endpoints list) state"

section \<open>Naming types\<close>

record Address =
  ad_IP :: string
  ad_Port :: "64 word"

record NacosOptions =
  no_Namespace :: string
  no_ServersIP :: "string list"
  no_ServerPort :: "64 word"
  no_AccessKey :: string
  no_SecretKey :: string

record ServiceKey =
  sk_ServiceName :: string
  sk_Group :: string

text \<open>\<^verbatim>\<open>ServiceInfo\<close> embeds its \<^verbatim>\<open>ServiceKey\<close>.\<close>

record ServiceInfo =
  si_ServiceKey :: ServiceKey
  si_Port :: "64 word"
  si_Metadata :: "(string, string) gomap"

abbreviation si_ServiceName :: "ServiceInfo \<Rightarrow> string" where
  "si_ServiceName i \<equiv> sk_ServiceName (si_ServiceKey i)"

abbreviation si_Group :: "ServiceInfo \<Rightarrow> string" where
  "si_Group i \<equiv> sk_Group (si_ServiceKey i)"

definition ServiceKey_String :: "ServiceKey \<Rightarrow> string" where
  "ServiceKey_String k = sk_ServiceName k @ ''@@'' @ sk_Group k"

definition DefaultNacosEndpointWeight :: nat where "DefaultNacosEndpointWeight = 100"
definition NamingSyncedMark :: string where "NamingSyncedMark = ''synced_by_nacos_controller''"
definition NamingDefaultGroupName :: string where "NamingDefaultGroupName = ''DEFAULT_GROUP''"

end
