(* ===== verification/Naming_Convert.thy ===== *)
theory Naming_Convert
  imports Naming_Types
begin

text \<open>
  \<^verbatim>\<open>pkg/nacos/naming/convert_util.go\<close>: what the annotations of a Service say about its registration, and the
  addresses of its Endpoints.  The standard output and the logs are not modelled.
\<close>

section \<open>Operations\<close>

definition annotationServiceSync :: string where "annotationServiceSync = ''nacos.io/service-sync''"
definition annotationServiceName :: string where "annotationServiceName = ''nacos.io/service-name''"
definition annotationServiceGroup :: string where "annotationServiceGroup = ''nacos.io/service-group''"
definition annotationServicePort :: string where "annotationServicePort = ''nacos.io/service-port''"
definition annotationServiceMeta :: string where "annotationServiceMeta = ''nacos.io/service-meta''"

lemmas annotation_keys =
  annotationServiceSync_def annotationServiceName_def annotationServiceGroup_def annotationServicePort_def
  annotationServiceMeta_def

definition ShouldServiceSync :: "Service \<Rightarrow> bool" where
  "ShouldServiceSync svc =
     (case mget (svc_Annotations svc) annotationServiceSync of
        None \<Rightarrow> False
      | Some raw \<Rightarrow> (case ParseBool raw of None \<Rightarrow> False | Some v \<Rightarrow> v))"

text \<open>\<^verbatim>\<open>uint64\<close> of an \<^verbatim>\<open>int32\<close> extends the sign; \<^verbatim>\<open>subset.Ports[0]\<close> panics on a subset without ports.\<close>

definition endpoint_address :: "ServiceInfo \<Rightarrow> EndpointSubset \<Rightarrow> string \<Rightarrow> Address outcome" where
  "endpoint_address info sub ip =
     (if si_Port info > 0 then Ok \<lparr>ad_IP = ip, ad_Port = si_Port info\<rparr>
      else (case es_Ports sub of
              [] \<Rightarrow> Panic
            | p # _ \<Rightarrow> Ok \<lparr>ad_IP = ip, ad_Port = signed p\<rparr>))"

fun collect :: "('a \<Rightarrow> 'b outcome) \<Rightarrow> 'a list \<Rightarrow> 'b list outcome" where
  "collect f [] = Ok []"
| "collect f (x # xs) =
     (case f x of
        Panic \<Rightarrow> Panic
      | Ok y \<Rightarrow> (case collect f xs of Panic \<Rightarrow> Panic | Ok ys \<Rightarrow> Ok (y # ys)))"

definition ConvertToAddresses :: "Endpoints \<Rightarrow> ServiceInfo \<Rightarrow> Address list outcome" where
  "ConvertToAddresses endpoints info =
     (case collect (\<lambda>sub. collect (endpoint_address info sub) (es_Addresses sub)) (ep_Subsets endpoints) of
        Panic \<Rightarrow> Panic
      | Ok parts \<Rightarrow> Ok (concat parts))"

text \<open>\<^verbatim>\<open>for k, v := range svc.Annotations { if !strings.HasPrefix(k, "nacos.io/") { meta[k] = v } }\<close>\<close>

definition copy_annotations :: "(string, string) gomap \<Rightarrow> (string, string) gomap \<Rightarrow> (string, string) gomap" where
  "copy_annotations annotations meta =
     fold (\<lambda>(k, v) m. if \<not> HasPrefix k ''nacos.io/'' then mput k v m else m) annotations meta"

text \<open>
  A \<^verbatim>\<open>null\<close> document makes \<^verbatim>\<open>meta\<close> a nil map, and the assignment to \<^verbatim>\<open>meta[NamingSyncedMark]\<close> (or an earlier one in
  the loop) panics.
\<close>

definition GenerateServiceInfo :: "Service \<Rightarrow> (go_error + ServiceInfo) outcome" where
  "GenerateServiceInfo svc =
     (let annotation = mget0 [] (svc_Annotations svc);
          serviceName = (if annotation annotationServiceName = [] then om_Name (svc_Meta svc)
                         else annotation annotationServiceName);
          port = (case ParseUint (annotation annotationServicePort) of None \<Rightarrow> 0 | Some n \<Rightarrow> word_of_nat n);
          rawMeta = annotation annotationServiceMeta
      in case (if rawMeta \<noteq> [] then Unmarshal dec_string_map rawMeta (Some []) else Inr (Some [])) of
           Inl err \<Rightarrow> Ok (Inl err)
         | Inr None \<Rightarrow> Panic
         | Inr (Some meta) \<Rightarrow>
             (let meta = mput NamingSyncedMark ''true'' (copy_annotations (svc_Annotations svc) meta);
                  groupName = annotation annotationServiceGroup
              in Ok (Inr \<lparr>si_ServiceKey = \<lparr>sk_ServiceName = serviceName,
                            sk_Group = (if groupName = [] then NamingDefaultGroupName else groupName)\<rparr>,
                          si_Port = port, si_Metadata = meta\<rparr>)))"

section \<open>Addresses\<close>

text \<open>
  The specification: an instance per endpoint address in order, on the annotated port or else on the first
  port of its subset.
\<close>

definition wanted_addresses :: "Endpoints \<Rightarrow> ServiceInfo \<Rightarrow> Address list" where
  "wanted_addresses endpoints info =
     [\<lparr>ad_IP = ip, ad_Port = (if si_Port info = 0 then signed (hd (es_Ports sub)) else si_Port info)\<rparr>.
        sub \<leftarrow> ep_Subsets endpoints, ip \<leftarrow> es_Addresses sub]"

lemma collect_endpoint_address:
  "collect (endpoint_address info sub) ips =
     (if si_Port info = 0 \<and> es_Ports sub = [] \<and> ips \<noteq> [] then Panic
      else Ok (map (\<lambda>ip. \<lparr>ad_IP = ip,
             ad_Port = (if si_Port info = 0 then signed (hd (es_Ports sub)) else si_Port info)\<rparr>) ips))"
  by (induction ips) (auto simp: endpoint_address_def word_gt_0 split: list.split)

lemma ConvertToAddresses_cases:
  "ConvertToAddresses endpoints info =
     (if si_Port info = 0 \<and> (\<exists>sub\<in>set (ep_Subsets endpoints). es_Addresses sub \<noteq> [] \<and> es_Ports sub = [])
      then Panic else Ok (wanted_addresses endpoints info))"
proof -
  have "collect (\<lambda>sub. collect (endpoint_address info sub) (es_Addresses sub)) subs =
      (if si_Port info = 0 \<and> (\<exists>sub\<in>set subs. es_Addresses sub \<noteq> [] \<and> es_Ports sub = []) then Panic
       else Ok (map (\<lambda>sub. map (\<lambda>ip. \<lparr>ad_IP = ip,
             ad_Port = (if si_Port info = 0 then signed (hd (es_Ports sub)) else si_Port info)\<rparr>) (es_Addresses sub)) subs))"
    for subs
    by (induction subs) (auto simp: collect_endpoint_address)
  then show ?thesis by (simp add: ConvertToAddresses_def wanted_addresses_def)
qed

text \<open>
  C27: \<open>ConvertToAddresses\<close> panics exactly when the Service has no port annotation and some subset has an address and no
  port; otherwise it returns one instance per endpoint address, in order, on the annotated port or else on
  the subset's first port.
\<close>

theorem ConvertToAddresses_spec:
  "ConvertToAddresses endpoints info =
     (if si_Port info = 0 \<and> (\<exists>sub\<in>set (ep_Subsets endpoints). es_Addresses sub \<noteq> [] \<and> es_Ports sub = [])
      then Panic else Ok (wanted_addresses endpoints info))"
  by (rule ConvertToAddresses_cases)

section \<open>The registration a Service asks for\<close>

lemma copy_annotations_other:
  "HasPrefix k ''nacos.io/'' \<Longrightarrow> mget (copy_annotations as m) k = mget m k"
  by (induction as arbitrary: m) (auto simp: copy_annotations_def gomap)

lemma copy_annotations_get:
  "distinct (mkeys as) \<Longrightarrow> \<not> HasPrefix k ''nacos.io/'' \<Longrightarrow>
   mget (copy_annotations as m) k = (case mget as k of Some v \<Rightarrow> Some v | None \<Rightarrow> mget m k)"
proof (induction as arbitrary: m)
  case (Cons a as)
  obtain j v where a: "a = (j, v)" by (cases a)
  have "mget as j = None" using Cons.prems(1) a by (simp add: map_of_eq_None_iff)
  then show ?case using Cons a by (auto simp: copy_annotations_def gomap split: option.split)
qed (simp add: copy_annotations_def)

text \<open>
  Whatever the annotations say, an instance of a Service whose registration is generated carries the mark by
  which the controller later recognises its own instances; its group is never empty; every annotation
  outside \<^verbatim>\<open>nacos.io/\<close> is in the metadata unless it is the mark itself.
\<close>

theorem GenerateServiceInfo_marks:
  assumes "GenerateServiceInfo svc = Ok (Inr info)" and "distinct (mkeys (svc_Annotations svc))"
  shows "mget (si_Metadata info) NamingSyncedMark = Some ''true'' \<and> si_Group info \<noteq> [] \<and>
    (\<forall>(k, v)\<in>set (svc_Annotations svc). \<not> HasPrefix k ''nacos.io/'' \<longrightarrow> k \<noteq> NamingSyncedMark \<longrightarrow>
       mget (si_Metadata info) k = Some v)"
  using assms
  by (auto simp: GenerateServiceInfo_def Let_def gomap copy_annotations_get NamingDefaultGroupName_def
      split: sum.splits option.splits if_splits)

definition demo_service :: "(string, string) gomap \<Rightarrow> Service" where
  "demo_service annotations = \<lparr>svc_Meta = zero_meta\<lparr>om_Name := ''web''\<rparr>, svc_Annotations = annotations\<rparr>"

definition demo_info :: ServiceInfo where
  "demo_info = \<lparr>si_ServiceKey = \<lparr>sk_ServiceName = ''web'', sk_Group = ''g''\<rparr>, si_Port = 0,
     si_Metadata = [(''team'', ''a''), (NamingSyncedMark, ''true'')]\<rparr>"

lemma demo_service_info:
  "GenerateServiceInfo (demo_service [(''nacos.io/service-group'', ''g''), (''team'', ''a'')]) = Ok (Inr demo_info)"
  by (simp add: GenerateServiceInfo_def demo_service_def demo_info_def zero_meta_def annotation_keys mget0_def
      ParseUint_def copy_annotations_def HasPrefix_def NamingSyncedMark_def)

theorem GenerateServiceInfo_marks_witness:
  "mget (si_Metadata demo_info) NamingSyncedMark = Some ''true'' \<and> mget (si_Metadata demo_info) ''team'' = Some ''a''"
  using GenerateServiceInfo_marks [OF demo_service_info]
  by (simp add: demo_service_def HasPrefix_def NamingSyncedMark_def)

text \<open>
  The metadata annotation \<^verbatim>\<open>null\<close> is valid JSON and makes the registration panic, whatever else the Service has.
\<close>

theorem GenerateServiceInfo_null_meta:
  assumes "mget (svc_Annotations svc) annotationServiceMeta = Some ''null''"
  shows "GenerateServiceInfo svc = Panic"
proof -
  have "json_parse ''null'' = Some JNull" by code_simp
  then show ?thesis using assms
    by (simp add: GenerateServiceInfo_def Let_def mget0_def Unmarshal_def dec_string_map_def)
qed

theorem GenerateServiceInfo_null_meta_witness:
  "GenerateServiceInfo (demo_service [(annotationServiceMeta, ''null'')]) = Panic"
  by (rule GenerateServiceInfo_null_meta) (simp add: demo_service_def)

end
