(* ===== verification/Go_Hmac.thy ===== *)
theory Go_Hmac
  imports Go_Md5
begin

unbundle bit_operations_syntax

text \<open>
  Go's \<^verbatim>\<open>hmac.New(sha1.New, key)\<close>, with which \<^verbatim>\<open>http_sdk.go\<close> signs its requests: SHA-1 on 32-bit words and
  the HMAC construction over it.
\<close>

section \<open>SHA-1\<close>

type_synonym sha1_state = "w32 \<times> w32 \<times> w32 \<times> w32 \<times> w32"

text \<open>The message schedule: sixteen words extended to eighty, kept newest first.\<close>

fun sha1_extend :: "nat \<Rightarrow> w32 list \<Rightarrow> w32 list" where
  "sha1_extend 0 ws = ws"
| "sha1_extend (Suc n) ws =
     sha1_extend n (rotl32 1 (ws ! 2 XOR ws ! 7 XOR ws ! 13 XOR ws ! 15) # ws)"

definition sha1_step :: "nat \<times> w32 \<Rightarrow> sha1_state \<Rightarrow> sha1_state" where
  "sha1_step = (\<lambda>(i, w) (a, b, c, d, e).
     let (f, k) = (if i < 20 then ((b AND c) OR (NOT b AND d), 0x5a827999)
                   else if i < 40 then (b XOR c XOR d, 0x6ed9eba1)
                   else if i < 60 then ((b AND c) OR (b AND d) OR (c AND d), 0x8f1bbcdc)
                   else (b XOR c XOR d, 0xca62c1d6))
     in (rotl32 5 a + f + e + k + w, a, rotl32 30 b, c, d))"

definition sha1_block :: "w32 list \<Rightarrow> sha1_state \<Rightarrow> sha1_state" where
  "sha1_block ws s =
     (let (a, b, c, d, e) = s;
          (a', b', c', d', e') = fold sha1_step (zip [0..<80] (rev (sha1_extend 64 (rev ws)))) s
      in (a + a', b + b', c + c', d + d', e + e'))"

definition sha1_init :: sha1_state where
  "sha1_init = (0x67452301, 0xefcdab89, 0x98badcfe, 0x10325476, 0xc3d2e1f0)"

fun be_words :: "string \<Rightarrow> w32 list" where
  "be_words (p # q # r # s # cs) =
     (16777216 * of_char p + 65536 * of_char q + 256 * of_char r + of_char s) # be_words cs"
| "be_words _ = []"

definition sha1_pad :: "string \<Rightarrow> string" where
  "sha1_pad s =
     s @ char_of (128::nat) # replicate ((119 - length s mod 64) mod 64) (char_of (0::nat))
       @ rev (le_bytes 8 (word_of_nat (8 * length s) :: 64 word))"

definition sha1_blocks :: "w32 list \<Rightarrow> sha1_state \<Rightarrow> sha1_state" where
  "sha1_blocks ws st =
     fold (\<lambda>i. sha1_block (take 16 (drop (16 * i) ws))) [0..<length ws div 16] st"

definition sha1_Sum :: "string \<Rightarrow> string" where
  "sha1_Sum s =
     (let (a, b, c, d, e) = sha1_blocks (be_words (sha1_pad s)) sha1_init
      in concat (map (rev \<circ> le_bytes 4) [a, b, c, d, e]))"

lemma length_sha1_Sum [simp]: "length (sha1_Sum s) = 20"
  by (simp add: sha1_Sum_def split: prod.split)

section \<open>HMAC\<close>

definition xor_byte :: "nat \<Rightarrow> char \<Rightarrow> char" where
  "xor_byte n c = char_of (n XOR of_char c)"

definition hmac_key :: "string \<Rightarrow> string" where
  "hmac_key key =
     (let k = (if length key > 64 then sha1_Sum key else key)
      in k @ replicate (64 - length k) (char_of (0::nat)))"

definition hmac_sha1 :: "string \<Rightarrow> string \<Rightarrow> string" where
  "hmac_sha1 key text =
     sha1_Sum (map (xor_byte 0x5c) (hmac_key key) @ sha1_Sum (map (xor_byte 0x36) (hmac_key key) @ text))"

lemma length_hmac_key [simp]: "length (hmac_key key) = 64"
  by (simp add: hmac_key_def Let_def)

lemma length_hmac_sha1 [simp]: "length (hmac_sha1 key text) = 20"
  by (simp add: hmac_sha1_def)

text \<open>The padded block of \<open>''abc''\<close>, as FIPS 180 prints it.\<close>

lemma sha1_vector_words:
  "be_words (sha1_pad ''abc'') = [0x61626380, 0, 0, 0, 0, 0, 0, 0, 0, 0, 0, 0, 0, 0, 0, 24]"
  by code_simp

end
