(* ===== verification/Naming_Http.thy ===== *)
theory Naming_Http
  imports Naming_Convert Go_Hmac "HOL-Library.Char_ord" "HOL-Library.List_Lexorder"
begin

text \<open>
  \<^verbatim>\<open>pkg/nacos/naming/http_sdk.go\<close>: the requests the controller sends to the Nacos HTTP API, the decoding of the
  answers, and the preparation of a service (created if missing, health check off) before its instances are
  registered.  The transport, the clock and the random generator are parameters (record \<open>Net\<close>); logs are not
  modelled.
\<close>

section \<open>The outside\<close>

text \<open>
  \<open>rq_RawQuery = None\<close> leaves the query as the URL has it.  A response carries what \<^verbatim>\<open>io.ReadAll\<close> reads of its body
  and the error it stops with, if any.
\<close>

record HttpRequest =
  rq_Method :: string
  rq_URL :: string
  rq_RawQuery :: "string option"
  rq_Header :: "(string, string) gomap"
  rq_Body :: "string option"

record HttpResponse =
  rs_StatusCode :: int
  rs_Body :: "string \<times> go_error option"

text \<open>
  \<open>http_NewRequest\<close> is the error of \<^verbatim>\<open>http.NewRequest\<close> on a method and a URL; \<open>time_NowMilli\<close> is
  \<^verbatim>\<open>time.Now().UnixNano()/1e6\<close>; the last two are the constant and the function of the Nacos SDK.
\<close>

record 's Net =
  rand_Intn :: "nat \<Rightarrow> ('s, nat) state"
  time_NowMilli :: "('s, int) state"
  time_Sleep :: "nat \<Rightarrow> ('s, unit) state"
  http_NewRequest :: "string \<Rightarrow> string \<Rightarrow> go_error option"
  http_Do :: "HttpRequest \<Rightarrow> ('s, go_error + HttpResponse) state"
  SERVICE_INFO_SPLITER :: string
  util_GetGroupName :: "string \<Rightarrow> string \<Rightarrow> string"

section \<open>\<^verbatim>\<open>url.Values\<close> and headers\<close>

type_synonym Values = "(string, string list) gomap"

definition Values_Add :: "string \<Rightarrow> string \<Rightarrow> Values \<Rightarrow> Values" where
  "Values_Add k v vs = mput k (mget0 [] vs k @ [v]) vs"

definition Values_Get :: "Values \<Rightarrow> string \<Rightarrow> string" where
  "Values_Get vs k = (case mget0 [] vs k of [] \<Rightarrow> [] | v # _ \<Rightarrow> v)"

text \<open>The parameters added one after the other to an empty \<^verbatim>\<open>url.Values\<close>.\<close>

definition make_params :: "(string \<times> string) list \<Rightarrow> Values" where
  "make_params kvs = fold (\<lambda>(k, v). Values_Add k v) kvs []"

definition unreserved :: "char \<Rightarrow> bool" where
  "unreserved c = (alnum_value c \<noteq> None \<or> c = CHR ''-'' \<or> c = CHR ''_'' \<or> c = CHR ''.'' \<or> c = CHR ''~'')"

definition upper_hex :: "nat \<Rightarrow> char" where
  "upper_hex n = (if n < 10 then char_of (48 + n) else char_of (55 + n))"

definition escape_byte :: "char \<Rightarrow> string" where
  "escape_byte c =
     (if unreserved c then [c] else if c = CHR '' '' then ''+''
      else [CHR ''%'', upper_hex (byte c div 16), upper_hex (byte c mod 16)])"

definition QueryEscape :: "string \<Rightarrow> string" where
  "QueryEscape s = concat (map escape_byte s)"

definition Values_Encode :: "Values \<Rightarrow> string" where
  "Values_Encode vs =
     Join (concat (map (\<lambda>k. map (\<lambda>v. QueryEscape k @ ''='' @ QueryEscape v) (mget0 [] vs k)) (sort (mkeys vs)))) ''&''"

text \<open>\<^verbatim>\<open>Header.Set\<close> on keys made of letters, digits and hyphens, as all of these are.\<close>

definition upper_char :: "char \<Rightarrow> char" where
  "upper_char c = (if 97 \<le> byte c \<and> byte c \<le> 122 then char_of (byte c - 32) else c)"

fun canonical_from :: "bool \<Rightarrow> string \<Rightarrow> string" where
  "canonical_from up [] = []"
| "canonical_from up (c # s) = (if up then upper_char c else lower_char c) # canonical_from (c = CHR ''-'') s"

definition Header_Set :: "string \<Rightarrow> string \<Rightarrow> (string, string) gomap \<Rightarrow> (string, string) gomap" where
  "Header_Set k v h = mput (canonical_from True k) v h"

definition FormatInt :: "int \<Rightarrow> string" where
  "FormatInt i = (if i < 0 then ''-'' @ Itoa (nat (- i)) else Itoa (nat i))"

section \<open>The data\<close>

record NacosHttpSdk =
  hs_nacosAddresses :: "string list"
  hs_nacosNamespace :: string
  hs_accessKey :: string
  hs_secretKey :: string
  hs_isV3 :: bool
  hs_userName :: string
  hs_password :: string

definition maxRetryAttempts :: nat where "maxRetryAttempts = 3"
definition retryInitialInterval :: nat where "retryInitialInterval = 500" \<comment> \<open>milliseconds\<close>
definition v1ServicePath :: string where "v1ServicePath = ''/nacos/v1/ns/service''"
definition v1ClusterPath :: string where "v1ClusterPath = ''/nacos/v1/ns/cluster''"
definition v3ServicePath :: string where "v3ServicePath = ''/nacos/v3/admin/ns/service''"
definition v3ClusterPath :: string where "v3ClusterPath = ''/nacos/v3/admin/ns/cluster''"
definition v1InstanceListPath :: string where "v1InstanceListPath = ''/nacos/v1/ns/instance/list''"
definition v3InstanceListPath :: string where "v3InstanceListPath = ''/nacos/v3/admin/ns/instance/list''"

text \<open>\<^verbatim>\<open>Weight\<close> and \<^verbatim>\<open>ProtectThreshold\<close> are never read: the literal stands for the number.\<close>

record Host =
  h_InstanceId :: string
  h_IP :: string
  h_Port :: int
  h_Weight :: string
  h_Healthy :: bool
  h_Enabled :: bool
  h_Ephemeral :: bool
  h_ClusterName :: string
  h_ServiceName :: string
  h_Metadata :: "(string, string) gomap option"
  h_InstanceHeartBeatInterval :: int
  h_InstanceHeartBeatTimeOut :: int
  h_IpDeleteTimeout :: int
  h_InstanceIdGenerator :: string

record NacosInstanceListResponse =
  lr_Name :: string
  lr_GroupName :: string
  lr_Clusters :: string
  lr_CacheMillis :: int
  lr_Hosts :: "Host goslice"
  lr_LastRefTime :: int
  lr_Checksum :: string
  lr_AllIPs :: bool
  lr_ReachProtectionThreshold :: bool
  lr_HitWeightProtection :: bool
  lr_Dom :: string
  lr_Valid :: bool

record NewNacosInstanceListResponse =
  nlr_Code :: int
  nlr_Message :: string
  nlr_Data :: "Host goslice"

record HealthChecker =
  hc_Type :: string
  hc_TimeoutMs :: int
  hc_InternalMs :: int
  hc_HealthyCheckThreshold :: int
  hc_UnhealthyCheckThreshold :: int

record ServiceCluster =
  cl_Name :: string
  cl_HealthChecker :: HealthChecker

record ServiceSelector =
  sel_Type :: string
  sel_ContextType :: string

record ServiceDetail =
  det_NamespaceId :: string
  det_GroupName :: string
  det_Name :: string
  det_ProtectThreshold :: string
  det_Selector :: ServiceSelector
  det_Clusters :: "ServiceCluster goslice"

definition zero_host :: Host where
  "zero_host = \<lparr>h_InstanceId = [], h_IP = [], h_Port = 0, h_Weight = ''0'', h_Healthy = False, h_Enabled = False,
     h_Ephemeral = False, h_ClusterName = [], h_ServiceName = [], h_Metadata = None, h_InstanceHeartBeatInterval = 0,
     h_InstanceHeartBeatTimeOut = 0, h_IpDeleteTimeout = 0, h_InstanceIdGenerator = []\<rparr>"

definition zero_list :: NacosInstanceListResponse where
  "zero_list = \<lparr>lr_Name = [], lr_GroupName = [], lr_Clusters = [], lr_CacheMillis = 0, lr_Hosts = ([], 0),
     lr_LastRefTime = 0, lr_Checksum = [], lr_AllIPs = False, lr_ReachProtectionThreshold = False,
     lr_HitWeightProtection = False, lr_Dom = [], lr_Valid = False\<rparr>"

definition zero_new_list :: NewNacosInstanceListResponse where
  "zero_new_list = \<lparr>nlr_Code = 0, nlr_Message = [], nlr_Data = ([], 0)\<rparr>"

definition zero_cluster :: ServiceCluster where
  "zero_cluster = \<lparr>cl_Name = [], cl_HealthChecker = \<lparr>hc_Type = [], hc_TimeoutMs = 0, hc_InternalMs = 0,
     hc_HealthyCheckThreshold = 0, hc_UnhealthyCheckThreshold = 0\<rparr>\<rparr>"

definition zero_detail :: ServiceDetail where
  "zero_detail = \<lparr>det_NamespaceId = [], det_GroupName = [], det_Name = [], det_ProtectThreshold = ''0'',
     det_Selector = \<lparr>sel_Type = [], sel_ContextType = []\<rparr>, det_Clusters = ([], 0)\<rparr>"

section \<open>Decoding\<close>

text \<open>A field of a struct: the decoder of its type on its old value.\<close>

definition fld :: "'f decoder \<Rightarrow> ('r \<Rightarrow> 'f) \<Rightarrow> (('f \<Rightarrow> 'f) \<Rightarrow> 'r \<Rightarrow> 'r) \<Rightarrow> json \<Rightarrow> 'r \<Rightarrow> 'r option" where
  "fld dec get upd j x = map_option (\<lambda>v. upd (\<lambda>_. v) x) (dec j (get x))"

text \<open>The fields of a struct by their folded JSON names; a name that is none of them is skipped.\<close>

definition struct_fields :: "(string \<times> (json \<Rightarrow> 'r \<Rightarrow> 'r option)) list \<Rightarrow> 'r decoder" where
  "struct_fields tab = dec_struct (\<lambda>k j x. case map_of tab k of None \<Rightarrow> Some x | Some f \<Rightarrow> f j x)"

text \<open>\<^verbatim>\<open>struct{}\<close>\<close>

definition dec_empty :: "json \<Rightarrow> 'r \<Rightarrow> 'r option" where
  "dec_empty j x = map_option (\<lambda>_. x) (dec_struct (\<lambda>_ _ u. Some u) j ())"

definition dec_Host :: "Host decoder" where
  "dec_Host = struct_fields
     [(''instanceid'', fld dec_string h_InstanceId h_InstanceId_update),
      (''ip'', fld dec_string h_IP h_IP_update),
      (''port'', fld dec_int h_Port h_Port_update),
      (''weight'', fld dec_float h_Weight h_Weight_update),
      (''healthy'', fld dec_bool h_Healthy h_Healthy_update),
      (''enabled'', fld dec_bool h_Enabled h_Enabled_update),
      (''ephemeral'', fld dec_bool h_Ephemeral h_Ephemeral_update),
      (''clustername'', fld dec_string h_ClusterName h_ClusterName_update),
      (''servicename'', fld dec_string h_ServiceName h_ServiceName_update),
      (''metadata'', fld dec_string_map h_Metadata h_Metadata_update),
      (''instanceheartbeatinterval'', fld dec_int h_InstanceHeartBeatInterval h_InstanceHeartBeatInterval_update),
      (''instanceheartbeattimeout'', fld dec_int h_InstanceHeartBeatTimeOut h_InstanceHeartBeatTimeOut_update),
      (''ipdeletetimeout'', fld dec_int h_IpDeleteTimeout h_IpDeleteTimeout_update),
      (''instanceidgenerator'', fld dec_string h_InstanceIdGenerator h_InstanceIdGenerator_update)]"

definition dec_InstanceList :: "NacosInstanceListResponse decoder" where
  "dec_InstanceList = struct_fields
     [(''name'', fld dec_string lr_Name lr_Name_update),
      (''groupname'', fld dec_string lr_GroupName lr_GroupName_update),
      (''clusters'', fld dec_string lr_Clusters lr_Clusters_update),
      (''cachemillis'', fld dec_int lr_CacheMillis lr_CacheMillis_update),
      (''hosts'', fld (dec_slice dec_Host zero_host) lr_Hosts lr_Hosts_update),
      (''lastreftime'', fld dec_int lr_LastRefTime lr_LastRefTime_update),
      (''checksum'', fld dec_string lr_Checksum lr_Checksum_update),
      (''allips'', fld dec_bool lr_AllIPs lr_AllIPs_update),
      (''reachprotectionthreshold'', fld dec_bool lr_ReachProtectionThreshold lr_ReachProtectionThreshold_update),
      (''hitweightprotection'', fld dec_bool lr_HitWeightProtection lr_HitWeightProtection_update),
      (''dom'', fld dec_string lr_Dom lr_Dom_update),
      (''valid'', fld dec_bool lr_Valid lr_Valid_update)]"

definition dec_NewInstanceList :: "NewNacosInstanceListResponse decoder" where
  "dec_NewInstanceList = struct_fields
     [(''code'', fld dec_int nlr_Code nlr_Code_update),
      (''message'', fld dec_string nlr_Message nlr_Message_update),
      (''data'', fld (dec_slice dec_Host zero_host) nlr_Data nlr_Data_update)]"

definition dec_HealthChecker :: "HealthChecker decoder" where
  "dec_HealthChecker = struct_fields
     [(''type'', fld dec_string hc_Type hc_Type_update),
      (''timeoutms'', fld dec_int hc_TimeoutMs hc_TimeoutMs_update),
      (''internalms'', fld dec_int hc_InternalMs hc_InternalMs_update),
      (''healthycheckthreshold'', fld dec_int hc_HealthyCheckThreshold hc_HealthyCheckThreshold_update),
      (''unhealthycheckthreshold'', fld dec_int hc_UnhealthyCheckThreshold hc_UnhealthyCheckThreshold_update)]"

definition dec_ServiceCluster :: "ServiceCluster decoder" where
  "dec_ServiceCluster = struct_fields
     [(''name'', fld dec_string cl_Name cl_Name_update),
      (''healthchecker'', fld dec_HealthChecker cl_HealthChecker cl_HealthChecker_update),
      (''metadata'', dec_empty)]"

definition dec_ServiceSelector :: "ServiceSelector decoder" where
  "dec_ServiceSelector = struct_fields
     [(''type'', fld dec_string sel_Type sel_Type_update),
      (''contexttype'', fld dec_string sel_ContextType sel_ContextType_update)]"

definition dec_ServiceDetail :: "ServiceDetail decoder" where
  "dec_ServiceDetail = struct_fields
     [(''namespaceid'', fld dec_string det_NamespaceId det_NamespaceId_update),
      (''groupname'', fld dec_string det_GroupName det_GroupName_update),
      (''name'', fld dec_string det_Name det_Name_update),
      (''protectthreshold'', fld dec_float det_ProtectThreshold det_ProtectThreshold_update),
      (''metadata'', dec_empty),
      (''selector'', fld dec_ServiceSelector det_Selector det_Selector_update),
      (''clusters'', fld (dec_slice dec_ServiceCluster zero_cluster) det_Clusters det_Clusters_update)]"

section \<open>Requests\<close>

definition signWithhmacSHA1Encrypt :: "string \<Rightarrow> string \<Rightarrow> string" where
  "signWithhmacSHA1Encrypt encryptText encryptKey = EncodeToString (hmac_sha1 encryptKey encryptText)"

definition getSignHeadersForNaming ::
  "'s Net \<Rightarrow> NacosHttpSdk \<Rightarrow> Values \<Rightarrow> ('s, (string, string) gomap) state" where
  "getSignHeadersForNaming N n params =
     (if hs_accessKey n = [] \<or> hs_secretKey n = []
      then ret [(''userName'', hs_userName n), (''password'', hs_password n)]
      else do {
        now \<leftarrow> time_NowMilli N;
        let timeStamp = FormatInt now;
            serviceName = Values_Get params ''serviceName'';
            groupName = Values_Get params ''groupName'';
            signData =
              (if serviceName \<noteq> [] then
                 (if groupName = [] then timeStamp @ SERVICE_INFO_SPLITER N @ serviceName
                  else timeStamp @ SERVICE_INFO_SPLITER N @ util_GetGroupName N serviceName groupName)
               else timeStamp)
        in ret [(''signature'', signWithhmacSHA1Encrypt signData (hs_secretKey n)),
                (''Spas-AccessKey'', hs_accessKey n), (''ak'', hs_accessKey n), (''data'', signData)]
      })"

definition injectAuthHeaders :: "(string, string) gomap \<Rightarrow> HttpRequest \<Rightarrow> HttpRequest" where
  "injectAuthHeaders headers req =
     req\<lparr>rq_Header := fold (\<lambda>(k, v). Header_Set k v) headers
       (Header_Set ''Content-Type'' ''application/x-www-form-urlencoded''
         (Header_Set ''Connection'' ''keep-alive''
           (Header_Set ''Accept-Encoding'' ''gzip, deflate, br''
             (Header_Set ''Accept'' ''application/json'' (rq_Header req)))))\<rparr>"

text \<open>\<^verbatim>\<open>n.nacosAddresses[rand.Intn(len(n.nacosAddresses))]\<close>; both \<^verbatim>\<open>Intn(0)\<close> and an index out of range panic.\<close>

definition pick_address :: "'s Net \<Rightarrow> NacosHttpSdk \<Rightarrow> ('s, string outcome) state" where
  "pick_address N n =
     (if hs_nacosAddresses n = [] then ret Panic
      else do {
        i \<leftarrow> rand_Intn N (length (hs_nacosAddresses n));
        ret (if i < length (hs_nacosAddresses n) then Ok (hs_nacosAddresses n ! i) else Panic)
      })"

text \<open>The request \<^verbatim>\<open>executeRequest\<close> sends.\<close>

definition build_request ::
  "string \<Rightarrow> string \<Rightarrow> Values \<Rightarrow> string option \<Rightarrow> (string, string) gomap \<Rightarrow> HttpRequest" where
  "build_request meth baseURL params body authHeaders =
     (let req = injectAuthHeaders authHeaders
            \<lparr>rq_Method = meth, rq_URL = baseURL,
             rq_RawQuery = (if length params > 0 then Some (Values_Encode params) else None),
             rq_Header = [], rq_Body = body\<rparr>
      in if body \<noteq> None
         then req\<lparr>rq_Header := Header_Set ''Content-Type'' ''application/x-www-form-urlencoded'' (rq_Header req)\<rparr>
         else req)"

text \<open>\<^verbatim>\<open>executeRequest\<close> up to \<^verbatim>\<open>httpClient.Do\<close>, with its errors.\<close>

definition send_request ::
  "'s Net \<Rightarrow> NacosHttpSdk \<Rightarrow> string \<Rightarrow> string \<Rightarrow> Values \<Rightarrow> string option \<Rightarrow>
   ('s, (go_error + HttpResponse) outcome) state" where
  "send_request N n meth apiPath params body =
     bindO (pick_address N n) (\<lambda>address.
       let baseURL = ''http://'' @ address @ apiPath in
       case http_NewRequest N meth baseURL of
         Some err \<Rightarrow> ret (Ok (Inl (ErrOther (''failed to create request: '' @ ErrorText err))))
       | None \<Rightarrow> do {
           authHeaders \<leftarrow> getSignHeadersForNaming N n params;
           r \<leftarrow> http_Do N (build_request meth baseURL params body authHeaders);
           ret (Ok (case r of
                      Inl err \<Rightarrow> Inl (ErrOther (''request failed: '' @ ErrorText err))
                    | Inr resp \<Rightarrow> Inr resp))
         })"

text \<open>
  The rest of \<^verbatim>\<open>executeRequest\<close>.  Its result is the bytes and the error; \<open>None\<close> bytes are nil, which only a request that
  got no answer returns.
\<close>

definition read_response :: "Values \<Rightarrow> go_error + HttpResponse \<Rightarrow> string option \<times> go_error option" where
  "read_response params r =
     (case r of
        Inl err \<Rightarrow> (None, Some err)
      | Inr resp \<Rightarrow>
          (let (bytes1, err) = rs_Body resp in
           if rs_StatusCode resp \<noteq> 200 then
             (if StrContains bytes1 ''service not found''
              then (Some bytes1, Some (ErrOther (''service not found: '' @ Values_Get params ''serviceName'')))
              else (Some bytes1, Some (ErrOther (''unexpected status code: '' @ FormatInt (rs_StatusCode resp)))))
           else (Some bytes1, err)))"

definition executeRequest ::
  "'s Net \<Rightarrow> NacosHttpSdk \<Rightarrow> string \<Rightarrow> string \<Rightarrow> Values \<Rightarrow> string option \<Rightarrow>
   ('s, (string option \<times> go_error option) outcome) state" where
  "executeRequest N n meth apiPath params body =
     bindO (send_request N n meth apiPath params body) (\<lambda>r. ret (Ok (read_response params r)))"

section \<open>Listing\<close>

definition synced_address :: "Host \<Rightarrow> Address option" where
  "synced_address host =
     (if mget0 [] (case h_Metadata host of None \<Rightarrow> [] | Some m \<Rightarrow> m) NamingSyncedMark \<noteq> ''true'' then None
      else Some \<lparr>ad_IP = h_IP host, ad_Port = word_of_int (h_Port host)\<rparr>)"

definition listed_hosts :: "bool \<Rightarrow> string \<Rightarrow> go_error + Host list" where
  "listed_hosts v3 bs =
     (if v3 then map_sum id (\<lambda>r. slice_list (nlr_Data r)) (Unmarshal dec_NewInstanceList bs zero_new_list)
      else map_sum id (\<lambda>r. slice_list (lr_Hosts r)) (Unmarshal dec_InstanceList bs zero_list))"

definition list_params :: "NacosHttpSdk \<Rightarrow> ServiceKey \<Rightarrow> Values" where
  "list_params n key =
     make_params [(''namespaceId'', hs_nacosNamespace n), (''serviceName'', sk_ServiceName key),
       (''groupName'', sk_Group key), (''healthyOnly'', ''false'')]"

text \<open>The part of \<^verbatim>\<open>GetAllInstances\<close> after the request.\<close>

definition read_listing :: "bool \<Rightarrow> string option \<Rightarrow> go_error option \<Rightarrow> go_error + Address list" where
  "read_listing v3 bs err =
     (case (bs, err) of
        (None, Some e) \<Rightarrow> Inl e
      | _ \<Rightarrow>
          (let result = (case bs of None \<Rightarrow> [] | Some b \<Rightarrow> b) in
           if StrContains result ''not found'' then Inr []
           else map_sum id (List.map_filter synced_address) (listed_hosts v3 result)))"

text \<open>The first address picked is only for the log, but picking it may panic too.\<close>

definition Http_GetAllInstances ::
  "'s Net \<Rightarrow> NacosHttpSdk \<Rightarrow> ServiceKey \<Rightarrow> ('s, (go_error + Address list) outcome) state" where
  "Http_GetAllInstances N n param =
     (let path = (if hs_isV3 n then v3InstanceListPath else v1InstanceListPath) in
      bindO (pick_address N n) (\<lambda>_.
      bindO (executeRequest N n ''GET'' path (list_params n param) None) (\<lambda>(bs, err).
        ret (Ok (read_listing (hs_isV3 n) bs err)))))"

section \<open>Preparing a service\<close>

definition CreatePersistService :: "'s Net \<Rightarrow> NacosHttpSdk \<Rightarrow> ServiceKey \<Rightarrow> ('s, bool outcome) state" where
  "CreatePersistService N n key =
     (let params = make_params [(''namespaceId'', hs_nacosNamespace n), (''serviceName'', sk_ServiceName key),
            (''groupName'', sk_Group key)];
          path = (if hs_isV3 n then v3ServicePath else v1ServicePath)
      in bindO (executeRequest N n ''POST'' path params (Some (Values_Encode params))) (\<lambda>(_, err).
           ret (Ok (err = None))))"

text \<open>The default group is assigned after the parameters were built and never used.\<close>

definition getService :: "'s Net \<Rightarrow> NacosHttpSdk \<Rightarrow> string \<Rightarrow> string \<Rightarrow> ('s, (go_error + ServiceDetail) outcome) state" where
  "getService N n serviceName groupName =
     (let params = make_params [(''namespaceId'', hs_nacosNamespace n), (''serviceName'', serviceName),
            (''groupName'', groupName)];
          path = (if hs_isV3 n then v3ServicePath else v1ServicePath)
      in bindO (executeRequest N n ''GET'' path params None) (\<lambda>(body, err).
           ret (Ok (case err of
             Some e \<Rightarrow> Inl (ErrOther (''service request failed: '' @ ErrorText e))
           | None \<Rightarrow>
               (case Unmarshal dec_ServiceDetail (case body of None \<Rightarrow> [] | Some b \<Rightarrow> b) zero_detail of
                  Inl e \<Rightarrow> Inl (ErrOther (''failed to unmarshal response: '' @ ErrorText e))
                | Inr detail \<Rightarrow> Inr detail)))))"

text \<open>The attempts; \<open>None\<close> is the early \<^verbatim>\<open>return false\<close>, and after the last attempt \<^verbatim>\<open>svc\<close> is what it left.\<close>

fun fetch_service ::
  "'s Net \<Rightarrow> NacosHttpSdk \<Rightarrow> ServiceKey \<Rightarrow> nat list \<Rightarrow> ServiceDetail \<Rightarrow> ('s, ServiceDetail option outcome) state" where
  "fetch_service N n key [] svc = ret (Ok (Some svc))"
| "fetch_service N n key (attempt # attempts) svc =
     bindO (getService N n (sk_ServiceName key) (sk_Group key)) (\<lambda>r.
       case r of
         Inr svc' \<Rightarrow> ret (Ok (Some svc'))
       | Inl err \<Rightarrow>
           if StrContains (ErrorText err) ''service not found'' then
             bindO (CreatePersistService N n key) (\<lambda>created.
               if \<not> created then ret (Ok None)
               else do {
                 _ \<leftarrow> time_Sleep N (retryInitialInterval * 2 ^ attempt);
                 fetch_service N n key attempts zero_detail
               })
           else ret (Ok None))"

definition health_check_off :: "ServiceDetail \<Rightarrow> bool" where
  "health_check_off svc =
     list_ex (\<lambda>c. cl_Name c = ''DEFAULT'' \<and> hc_Type (cl_HealthChecker c) = ''NONE'') (slice_list (det_Clusters svc))"

definition UpdateServiceHealthCheckTypeToNone ::
  "'s Net \<Rightarrow> NacosHttpSdk \<Rightarrow> ServiceKey \<Rightarrow> ('s, bool outcome) state" where
  "UpdateServiceHealthCheckTypeToNone N n key =
     bindO (fetch_service N n key [0..<maxRetryAttempts] zero_detail) (\<lambda>r.
       case r of
         None \<Rightarrow> ret (Ok False)
       | Some svc \<Rightarrow>
           if health_check_off svc then ret (Ok True)
           else
             (let params = make_params [(''namespaceId'', hs_nacosNamespace n), (''serviceName'', sk_ServiceName key),
                    (''clusterName'', ''DEFAULT''), (''checkPort'', ''80''), (''useInstancePort4Check'', ''true''),
                    (''healthChecker'', [CHR ''{'', CHR 0x22] @ ''type'' @ [CHR 0x22, CHR '':'', CHR 0x22] @ ''NONE'' @ [CHR 0x22, CHR ''}''])];
                  path = (if hs_isV3 n then v3ClusterPath else v1ClusterPath)
              in bindO (executeRequest N n ''PUT'' path params (Some (Values_Encode params))) (\<lambda>(_, err).
                   ret (Ok (err = None)))))"

section \<open>Construction\<close>

definition getNacosVersion :: "'s Net \<Rightarrow> NacosHttpSdk \<Rightarrow> ('s, NacosHttpSdk) state" where
  "getNacosVersion N n =
     (let urlV1 = ''http://'' @ Join (hs_nacosAddresses n) '','' @ ''/nacos/v1/ns/service'' in
      case http_NewRequest N ''GET'' urlV1 of
        Some err \<Rightarrow> ret n
      | None \<Rightarrow> do {
          r \<leftarrow> http_Do N \<lparr>rq_Method = ''GET'', rq_URL = urlV1, rq_RawQuery = None, rq_Header = [], rq_Body = None\<rparr>;
          ret (case r of
                 Inl err \<Rightarrow> n
               | Inr resp \<Rightarrow> if rs_StatusCode resp = 410 then n\<lparr>hs_isV3 := True\<rparr> else n)
        })"

definition NewNacosHttpSdk :: "'s Net \<Rightarrow> string list \<Rightarrow> string \<Rightarrow> string \<Rightarrow> string \<Rightarrow> ('s, NacosHttpSdk) state" where
  "NewNacosHttpSdk N servers namespace ak sk =
     getNacosVersion N \<lparr>hs_nacosAddresses = servers, hs_nacosNamespace = namespace, hs_accessKey = ak,
       hs_secretKey = sk, hs_isV3 = False, hs_userName = [], hs_password = []\<rparr>"

section \<open>Invariants and cost\<close>

text \<open>An invariant that no call of the outside breaks is kept by every operation.\<close>

definition net_keeps :: "('s \<Rightarrow> bool) \<Rightarrow> 's Net \<Rightarrow> bool" where
  "net_keeps I N \<longleftrightarrow>
     (\<forall>k. keeps I (rand_Intn N k)) \<and> keeps I (time_NowMilli N) \<and> (\<forall>t. keeps I (time_Sleep N t)) \<and>
     (\<forall>req. keeps I (http_Do N req))"

lemma keeps_executeRequest [keeps_rules]: "net_keeps I N \<Longrightarrow> keeps I (executeRequest N n meth path params body)"
  unfolding executeRequest_def send_request_def pick_address_def getSignHeadersForNaming_def Let_def net_keeps_def
  by (intro keeps_rules) (auto intro: keeps_rules)

lemma keeps_Http_GetAllInstances [keeps_rules]: "net_keeps I N \<Longrightarrow> keeps I (Http_GetAllInstances N n key)"
  unfolding Http_GetAllInstances_def Let_def pick_address_def
  by (auto intro!: keeps_rules simp: net_keeps_def)

lemma keeps_fetch_service: "net_keeps I N \<Longrightarrow> keeps I (fetch_service N n key attempts svc)"
proof (induction attempts arbitrary: svc)
  case (Cons a attempts)
  have "keeps I (time_Sleep N t)" for t using Cons.prems by (simp add: net_keeps_def)
  then show ?case
    using Cons by (auto intro!: keeps_rules simp: getService_def CreatePersistService_def Let_def)
qed (simp add: keeps_ret)

lemma keeps_UpdateServiceHealthCheck [keeps_rules]:
  "net_keeps I N \<Longrightarrow> keeps I (UpdateServiceHealthCheckTypeToNone N n key)"
  unfolding UpdateServiceHealthCheckTypeToNone_def Let_def
  by (intro keeps_rules keeps_fetch_service) auto

text \<open>\<open>adds cnt k m\<close>: the program raises the measure \<open>cnt\<close> by at most \<open>k\<close>.\<close>

definition adds :: "('s \<Rightarrow> nat) \<Rightarrow> nat \<Rightarrow> ('s, 'a) state \<Rightarrow> bool" where
  "adds cnt k m \<longleftrightarrow> (\<forall>s. cnt (exec m s) \<le> cnt s + k)"

lemma adds_ret: "adds cnt k (ret x)"
  by (simp add: adds_def)

lemma adds_bind: "adds cnt j m \<Longrightarrow> (\<And>x. adds cnt k (f x)) \<Longrightarrow> adds cnt (j + k) (State_Monad.bind m f)"
  by (simp add: adds_def split: prod.splits) (metis add.assoc add_le_mono1 order_trans snd_conv)

lemma adds_bindO: "adds cnt j m \<Longrightarrow> (\<And>x. adds cnt k (f x)) \<Longrightarrow> adds cnt (j + k) (bindO m f)"
  unfolding bindO_def by (rule adds_bind) (auto split: outcome.split intro: adds_ret)

lemma adds_mono: "adds cnt j m \<Longrightarrow> j \<le> k \<Longrightarrow> adds cnt k m"
  by (auto simp: adds_def intro: order_trans)

text \<open>\<open>cnt\<close> counts the requests sent: no other call raises it.\<close>

definition counts_requests :: "'s Net \<Rightarrow> ('s \<Rightarrow> nat) \<Rightarrow> bool" where
  "counts_requests N cnt \<longleftrightarrow>
     (\<forall>k. adds cnt 0 (rand_Intn N k)) \<and> adds cnt 0 (time_NowMilli N) \<and> (\<forall>t. adds cnt 0 (time_Sleep N t)) \<and>
     (\<forall>req. adds cnt 1 (http_Do N req))"

lemma adds_executeRequest:
  assumes "counts_requests N cnt"
  shows "adds cnt 1 (executeRequest N n meth path params body)"
proof -
  have pick: "adds cnt 0 (pick_address N n)"
    using assms by (auto simp: pick_address_def counts_requests_def intro!: adds_bind [of cnt 0 _ 0, simplified] adds_ret)
  have sign: "adds cnt 0 (getSignHeadersForNaming N n ps)" for ps
    using assms
    by (auto simp: getSignHeadersForNaming_def counts_requests_def Let_def intro!: adds_bind [of cnt 0 _ 0, simplified] adds_ret)
  have send: "adds cnt (1 + 0) (State_Monad.bind (http_Do N req) (\<lambda>r. ret (f r)))" for req and f :: "_ \<Rightarrow> 'b"
    using assms by (intro adds_bind adds_ret) (simp add: counts_requests_def)
  have "adds cnt (0 + (0 + (1 + 0))) (send_request N n meth path params body)"
    unfolding send_request_def Let_def
    by (intro adds_bindO pick) (auto split: option.split intro!: adds_bind [of cnt 0, simplified] sign send [simplified] adds_ret)
  then have "adds cnt (0 + (0 + (1 + 0)) + 0) (executeRequest N n meth path params body)"
    unfolding executeRequest_def by (intro adds_bindO adds_ret)
  then show ?thesis by simp
qed

lemma adds_fetch_service:
  assumes "counts_requests N cnt"
  shows "adds cnt (2 * length attempts) (fetch_service N n key attempts svc)"
proof (induction attempts arbitrary: svc)
  case (Cons a attempts)
  have get: "adds cnt (1 + 0) (getService N n nm g)" for nm g
    unfolding getService_def Let_def
    by (intro adds_bindO adds_executeRequest assms) (auto intro: adds_ret)
  have create: "adds cnt (1 + 0) (CreatePersistService N n key)"
    unfolding CreatePersistService_def Let_def
    by (intro adds_bindO adds_executeRequest assms) (auto intro: adds_ret)
  have again: "adds cnt (0 + 2 * length attempts)
      (State_Monad.bind (time_Sleep N t) (\<lambda>_. fetch_service N n key attempts zero_detail))" for t
    using assms by (intro adds_bind Cons.IH) (simp add: counts_requests_def)
  have "adds cnt ((1 + 0) + ((1 + 0) + (0 + 2 * length attempts))) (fetch_service N n key (a # attempts) svc)"
    unfolding fetch_service.simps
    by (rule adds_bindO [OF get], split sum.split) (auto intro!: adds_ret adds_bindO [OF create, simplified] again [simplified])
  then show ?case by simp
qed (simp add: adds_ret)

text \<open>
  C25: preparing a service ends, and costs at most seven requests: two for each of the three attempts and one to
  switch the health check off.
\<close>

theorem health_check_requests:
  assumes "counts_requests N cnt"
  shows "cnt (exec (UpdateServiceHealthCheckTypeToNone N n key) s) \<le> cnt s + 7"
proof -
  have put: "adds cnt (1 + 0) (bindO (executeRequest N n meth path params body) (\<lambda>(_, err). ret (Ok (err = None))))"
    for meth path params body
    by (intro adds_bindO adds_executeRequest assms) (auto intro: adds_ret)
  have "adds cnt (2 * length [0..<maxRetryAttempts] + (1 + 0)) (UpdateServiceHealthCheckTypeToNone N n key)"
    unfolding UpdateServiceHealthCheckTypeToNone_def Let_def
    by (rule adds_bindO [OF adds_fetch_service [OF assms]], split option.split) (auto intro!: adds_ret put [simplified])
  then show ?thesis by (simp add: adds_def maxRetryAttempts_def)
qed

text \<open>A network that answers every request with the same response and counts them.\<close>

definition answering :: "HttpResponse \<Rightarrow> nat Net" where
  "answering resp = \<lparr>rand_Intn = (\<lambda>_. ret 0), time_NowMilli = ret 0, time_Sleep = (\<lambda>_. ret ()),
     http_NewRequest = (\<lambda>_ _. None), http_Do = (\<lambda>_. State (\<lambda>k. (Inr resp, Suc k))),
     SERVICE_INFO_SPLITER = ''@@'', util_GetGroupName = (\<lambda>s g. g @ ''@@'' @ s)\<rparr>"

definition demo_http :: NacosHttpSdk where
  "demo_http = \<lparr>hs_nacosAddresses = [''h:8848''], hs_nacosNamespace = ''public'', hs_accessKey = [],
     hs_secretKey = [], hs_isV3 = False, hs_userName = [], hs_password = []\<rparr>"

abbreviation not_found_response :: HttpResponse where
  "not_found_response \<equiv> \<lparr>rs_StatusCode = 404, rs_Body = (''service not found'', None)\<rparr>"

theorem health_check_requests_witness:
  "exec (UpdateServiceHealthCheckTypeToNone (answering not_found_response) demo_http (si_ServiceKey demo_info)) 0 \<le> 7"
proof -
  have "counts_requests (answering r) id" for r
    by (simp add: counts_requests_def answering_def adds_def)
  then show ?thesis
    using health_check_requests [of "answering not_found_response" id demo_http "si_ServiceKey demo_info" 0] by simp
qed

section \<open>The status of a listing is not looked at\<close>

definition with_status :: "int \<Rightarrow> 's Net \<Rightarrow> 's Net" where
  "with_status c N = N\<lparr>http_Do := \<lambda>req. do { r \<leftarrow> http_Do N req; ret (map_sum id (rs_StatusCode_update (\<lambda>_. c)) r) }\<rparr>"

text \<open>
  C39: the listing of a service's instances does not depend on the status code of the answers: a server that fails
  every request with status 500 and one that accepts it give the same result on the same bodies.  In
  particular an error document without hosts is the empty list of instances.
\<close>

theorem listing_ignores_status:
  "Http_GetAllInstances (with_status c N) n key = Http_GetAllInstances (with_status 200 N) n key"
proof -
  have rest: "rand_Intn (with_status c N) = rand_Intn N" "time_NowMilli (with_status c N) = time_NowMilli N"
    "SERVICE_INFO_SPLITER (with_status c N) = SERVICE_INFO_SPLITER N"
    "util_GetGroupName (with_status c N) = util_GetGroupName N"
    "http_NewRequest (with_status c N) = http_NewRequest N" for c
    by (simp_all add: with_status_def)
  have same: "pick_address (with_status c N) n = pick_address N n"
    "getSignHeadersForNaming (with_status c N) n ps = getSignHeadersForNaming N n ps" for c ps
    unfolding pick_address_def getSignHeadersForNaming_def rest by (rule refl)+
  have send: "send_request (with_status c N) n meth path ps body =
      bindO (send_request N n meth path ps body) (\<lambda>r. ret (Ok (map_sum id (rs_StatusCode_update (\<lambda>_. c)) r)))"
    for c meth path ps body
    unfolding send_request_def same rest Let_def
    by (intro state_ext) (auto simp: with_status_def run_bindO split: prod.split outcome.split option.split sum.split)
  have read: "(case read_response ps (map_sum id (rs_StatusCode_update (\<lambda>_. c)) r) of (bs, err) \<Rightarrow> read_listing v3 bs err) =
      (case read_response ps (map_sum id (rs_StatusCode_update (\<lambda>_. 200)) r) of (bs, err) \<Rightarrow> read_listing v3 bs err)"
    for ps r v3
    by (cases r) (simp_all add: read_response_def read_listing_def split: prod.split)
  have bind: "bindO (bindO (bindO m f) (\<lambda>r. ret (Ok (g r)))) (\<lambda>(bs, err). ret (Ok (h bs err))) =
      bindO m (\<lambda>x. bindO (f x) (\<lambda>r. ret (Ok (case g r of (bs, err) \<Rightarrow> h bs err))))"
    for m :: "('s, 'x outcome) state" and f :: "'x \<Rightarrow> ('s, 'y outcome) state" and g and h :: "_ \<Rightarrow> _ \<Rightarrow> 'z"
    by (intro state_ext) (simp add: run_bindO case_prod_beta split: prod.split outcome.split)
  show ?thesis
    unfolding Http_GetAllInstances_def executeRequest_def send same bind bindO_Ok
    by (simp only: read)
qed

section \<open>Queries tell services apart\<close>

text \<open>\<^verbatim>\<open>url.QueryUnescape\<close> on what \<open>QueryEscape\<close> writes, as the server reads it.\<close>

definition unhex :: "char \<Rightarrow> nat" where
  "unhex c = (case alnum_value c of Some n \<Rightarrow> n | None \<Rightarrow> 0)"

function QueryUnescape :: "string \<Rightarrow> string" where
  "QueryUnescape [] = []"
| "QueryUnescape (c # s) =
     (if c = CHR ''%'' then char_of (16 * unhex (s ! 0) + unhex (s ! 1)) # QueryUnescape (drop 2 s)
      else (if c = CHR ''+'' then CHR '' '' else c) # QueryUnescape s)"
  by pat_completeness auto
termination by (relation "measure length") auto

lemma unhex_upper_hex: "n < 16 \<Longrightarrow> unhex (upper_hex n) = n"
  by (auto simp: unhex_def upper_hex_def alnum_value_def)

lemma unreserved_plain: "unreserved c \<Longrightarrow> c \<notin> {CHR ''%'', CHR ''+'', CHR ''&'', CHR ''=''}"
  by (auto simp: unreserved_def alnum_value_def)

lemma QueryUnescape_byte: "QueryUnescape (escape_byte c @ s) = c # QueryUnescape s"
proof -
  have "char_of (16 * unhex (upper_hex (byte c div 16)) + unhex (upper_hex (byte c mod 16))) = c"
    by (subst (1 2) unhex_upper_hex) (simp_all add: less_mult_imp_div_less)
  then show ?thesis using unreserved_plain [of c] by (auto simp: escape_byte_def)
qed

lemma QueryUnescape_QueryEscape [simp]: "QueryUnescape (QueryEscape s) = s"
  unfolding QueryEscape_def by (induction s) (simp_all add: QueryUnescape_byte)

lemma upper_hex_not_amp: "n < 16 \<Longrightarrow> upper_hex n \<noteq> CHR ''&''"
  using unhex_upper_hex [of n]
  by (auto simp: upper_hex_def dest: arg_cong [where f = "of_char :: char \<Rightarrow> nat"])

lemma QueryEscape_no_amp: "CHR ''&'' \<notin> set (QueryEscape s)"
proof -
  have "byte c div 16 < 16" for c by (simp add: less_mult_imp_div_less)
  then have "CHR ''&'' \<notin> set (escape_byte c)" for c
    using unreserved_plain [of c] upper_hex_not_amp [of "byte c div 16"] upper_hex_not_amp [of "byte c mod 16"]
    by (auto simp: escape_byte_def)
  then show ?thesis by (auto simp: QueryEscape_def)
qed

lemma list_query:
  "Values_Encode (list_params n key) =
     ''groupName='' @ QueryEscape (sk_Group key) @ CHR ''&'' # ''healthyOnly=false'' @ CHR ''&'' #
     ''namespaceId='' @ QueryEscape (hs_nacosNamespace n) @ CHR ''&'' # ''serviceName='' @ QueryEscape (sk_ServiceName key)"
proof -
  have vs: "list_params n key = [(''namespaceId'', [hs_nacosNamespace n]), (''serviceName'', [sk_ServiceName key]),
      (''groupName'', [sk_Group key]), (''healthyOnly'', [''false''])]"
    by (simp add: list_params_def make_params_def Values_Add_def mget0_def)
  have "sort [''namespaceId'', ''serviceName'', ''groupName'', ''healthyOnly''] =
      [''groupName'', ''healthyOnly'', ''namespaceId'', ''serviceName'']"
    by code_simp
  moreover have "QueryEscape ''groupName'' = ''groupName''" "QueryEscape ''healthyOnly'' = ''healthyOnly''"
    "QueryEscape ''namespaceId'' = ''namespaceId''" "QueryEscape ''serviceName'' = ''serviceName''"
    "QueryEscape ''false'' = ''false''"
    by code_simp+
  ultimately show ?thesis by (simp add: Values_Encode_def vs mget0_def)
qed

lemma list_query_iff:
  "Values_Encode (list_params n key) = Values_Encode (list_params n' key') \<longleftrightarrow>
     key = key' \<and> hs_nacosNamespace n = hs_nacosNamespace n'"
proof
  assume "Values_Encode (list_params n key) = Values_Encode (list_params n' key')"
  then have "QueryEscape (sk_Group key) = QueryEscape (sk_Group key')"
     "QueryEscape (hs_nacosNamespace n) = QueryEscape (hs_nacosNamespace n')"
     "QueryEscape (sk_ServiceName key) = QueryEscape (sk_ServiceName key')"
    by (simp_all add: list_query append_sep_eq QueryEscape_no_amp)
  then show "key = key' \<and> hs_nacosNamespace n = hs_nacosNamespace n'"
    by (metis QueryUnescape_QueryEscape ServiceKey.equality old.unit.exhaust)
qed (simp add: list_query)

text \<open>
  C26: two listings send the same query only for the same service, group and Nacos namespace, whatever bytes these names contain.
\<close>

theorem list_query_injective:
  "Values_Encode (list_params n key) = Values_Encode (list_params n' key') \<longleftrightarrow>
     key = key' \<and> hs_nacosNamespace n = hs_nacosNamespace n'"
  by (rule list_query_iff)

end
