(* ===== verification/Naming_Client.thy ===== *)
theory Naming_Client
  imports Naming_Http "HOL-Library.Multiset"
begin

text \<open>
  \<^verbatim>\<open>pkg/nacos/naming/naming_client.go\<close>: the process-wide cache of naming clients, and the registration of a service's
  instances as the difference between what Nacos lists and what is wanted.  The Nacos SDK is a parameter.
\<close>

section \<open>The SDK\<close>

text \<open>A client configuration is built from options, or is a literal with three fields set.\<close>

datatype NamingClientConfig =
    NewClientConfig "ClientOption list"
  | ClientConfig string bool string \<comment> \<open>\<^verbatim>\<open>NamespaceId\<close>, \<^verbatim>\<open>NotLoadCacheAtStart\<close>, \<^verbatim>\<open>LogDir\<close>\<close>

record RegisterInstanceParam =
  rip_Ip :: string
  rip_Port :: "64 word"
  rip_Weight :: nat
  rip_Enable :: bool
  rip_Healthy :: bool
  rip_Metadata :: "(string, string) gomap"
  rip_ServiceName :: string
  rip_GroupName :: string
  rip_Ephemeral :: bool

record DeregisterInstanceParam =
  dip_Ip :: string
  dip_Port :: "64 word"
  dip_ServiceName :: string
  dip_GroupName :: string
  dip_Ephemeral :: bool

record ('c, 's) NamingSDK =
  sdk_NewNamingClient :: "NamingClientConfig \<Rightarrow> ServerConfig list \<Rightarrow> ('s, go_error + 'c) state"
  sdk_RegisterInstance :: "'c \<Rightarrow> RegisterInstanceParam \<Rightarrow> ('s, bool \<times> go_error option) state"
  sdk_DeregisterInstance :: "'c \<Rightarrow> DeregisterInstanceParam \<Rightarrow> ('s, bool \<times> go_error option) state"

section \<open>Clients\<close>

record 'c NacosNamingClient =
  nnc_client :: 'c
  nnc_servicesMap :: "(ServiceKey, Address list) gomap"
  nnc_httpSdk :: NacosHttpSdk

definition naming_cacheKey :: "NacosServerConfiguration \<Rightarrow> string" where
  "naming_cacheKey nacosServer = ns_ServerAddr nacosServer @ ''-'' @ ns_Namespace nacosServer"

text \<open>The options as the code lists them: the user name goes into the second \<^verbatim>\<open>WithPassword\<close>.\<close>

definition naming_options :: "string \<Rightarrow> ServiceDiscovery \<Rightarrow> NacosClientParam \<Rightarrow> ClientOption list" where
  "naming_options currentContext sd p =
     [WithAccessKey (ai_AccessKey (cp_AuthInfo p)), WithSecretKey (ai_SecretKey (cp_AuthInfo p)),
      WithPassword (ai_Password (cp_AuthInfo p)), WithPassword (ai_Username (cp_AuthInfo p)),
      WithTimeoutMs 5000, WithNotLoadCacheAtStart True, WithLogDir ''/tmp/nacos/log'',
      WithCacheDir ''/tmp/nacos/cache'', WithLogLevel ''debug'', WithNamespaceId (cp_Namespace p),
      WithAppName ''nacos-controller'',
      WithAppConnLabels [(''k8s.namespace'', sd_Namespace sd), (''k8s.cluster'', currentContext),
        (''k8s.name'', sd_Name sd)]]
     @ (if length (cp_Endpoint p) > 0 then [WithEndpoint (cp_Endpoint p)] else [])"

text \<open>
  The choice between an endpoint and an address with an optional port is the one of the configuration
  client, \<open>server_configs\<close>.
\<close>

definition BuildNamingClient ::
  "'s Kube \<Rightarrow> 's Net \<Rightarrow> ('c, 's) NamingSDK \<Rightarrow> string \<Rightarrow> ServiceDiscovery option \<Rightarrow>
   ('c NacosNamingClient client_cache \<times> 's, go_error + 'c NacosNamingClient) state" where
  "BuildNamingClient K N S currentContext osd =
     (case osd of
        None \<Rightarrow> ret (Inl (ErrOther ''empty ServiceDiscovery''))
      | Some sd \<Rightarrow> do {
          let nacosServer = sd_NacosServer sd;
              key = naming_cacheKey nacosServer
          in do {
            m \<leftarrow> gets fst;
            (case mget m key of
               Some c \<Rightarrow> ret (Inr c)
             | None \<Rightarrow> do {
                 ps \<leftarrow> outside (GetNacosClientParams K (ns_AuthRef nacosServer)
                         \<lparr>sp_Endpoint = ns_Endpoint nacosServer, sp_ServerAddr = ns_ServerAddr nacosServer,
                          sp_Namespace = ns_Namespace nacosServer\<rparr> (sd_Namespace sd));
                 (case ps of
                    Inl err \<Rightarrow> ret (Inl err)
                  | Inr p \<Rightarrow>
                      (case server_configs p of
                         Inl err \<Rightarrow> ret (Inl err)
                       | Inr sc \<Rightarrow> do {
                           r \<leftarrow> outside (sdk_NewNamingClient S (NewClientConfig (naming_options currentContext sd p)) sc);
                           (case r of
                              Inl err \<Rightarrow> ret (Inl err)
                            | Inr nClient \<Rightarrow> do {
                                h \<leftarrow> outside (NewNacosHttpSdk N [cp_ServerAddr p] (cp_Namespace p)
                                       (ai_AccessKey (cp_AuthInfo p)) (ai_SecretKey (cp_AuthInfo p)));
                                let nClient1 = \<lparr>nnc_client = nClient, nnc_servicesMap = [], nnc_httpSdk = h\<rparr>
                                in do {
                                  _ \<leftarrow> modify (apfst (mput key nClient1));
                                  ret (Inr nClient1)
                                }
                              })
                         }))
               })
          }
        })"

text \<open>\<^verbatim>\<open>path.Join\<close>, as a walk over the segments.\<close>

fun clean_segments :: "bool \<Rightarrow> string list \<Rightarrow> string list \<Rightarrow> string list" where
  "clean_segments rooted acc [] = rev acc"
| "clean_segments rooted acc (seg # segs) =
     (if seg = [] \<or> seg = ''.'' then clean_segments rooted acc segs
      else if seg = ''..'' then
        (if acc \<noteq> [] \<and> hd acc \<noteq> ''..'' then clean_segments rooted (tl acc) segs
         else if rooted then clean_segments rooted acc segs
         else clean_segments rooted (''..'' # acc) segs)
      else clean_segments rooted (seg # acc) segs)"

definition path_Clean :: "string \<Rightarrow> string" where
  "path_Clean p =
     (let rooted = HasPrefix p ''/'';
          out = Join (clean_segments rooted [] (Split p ''/'')) ''/''
      in if rooted then ''/'' @ out else if out = [] then ''.'' else out)"

definition path_Join :: "string list \<Rightarrow> string" where
  "path_Join elems =
     (case filter (\<lambda>e. e \<noteq> []) elems of [] \<Rightarrow> [] | es \<Rightarrow> path_Clean (Join es ''/''))"

text \<open>\<open>home\<close> is the environment variable \<^verbatim>\<open>HOME\<close>.\<close>

definition ConvertToNacosClientParam :: "string \<Rightarrow> NacosOptions \<Rightarrow> NamingClientConfig \<times> ServerConfig list" where
  "ConvertToNacosClientParam home options =
     (ClientConfig (no_Namespace options) True (path_Join [home, ''logs'', ''nacos-go-sdk'']),
      map (\<lambda>ip. \<lparr>sc_IpAddr = ip, sc_Port = no_ServerPort options\<rparr>) (no_ServersIP options))"

definition NewNamingClient ::
  "'s Net \<Rightarrow> ('c, 's) NamingSDK \<Rightarrow> string \<Rightarrow> NacosOptions \<Rightarrow> ('s, go_error + 'c NacosNamingClient) state" where
  "NewNamingClient N S home options =
     (let (cc, sc) = ConvertToNacosClientParam home options in do {
        r \<leftarrow> sdk_NewNamingClient S cc sc;
        (case r of
           Inl err \<Rightarrow> ret (Inl err)
         | Inr client \<Rightarrow> do {
             h \<leftarrow> NewNacosHttpSdk N (no_ServersIP options) (no_Namespace options) (no_AccessKey options) (no_SecretKey options);
             ret (Inr \<lparr>nnc_client = client, nnc_servicesMap = [], nnc_httpSdk = h\<rparr>)
           })
      })"

section \<open>Instances\<close>

text \<open>
  The two sets are Go maps, whose elements a \<^verbatim>\<open>range\<close> visits in an order of the runtime's choice: \<open>rng\<close>.
\<close>

definition diffAddresses ::
  "(Address list \<Rightarrow> Address list) \<Rightarrow> Address list \<Rightarrow> Address list \<Rightarrow> Address list \<times> Address list" where
  "diffAddresses rng old new =
     (let oldAddressesSet = remdups old; newAddressesSet = remdups new;
          deleted = filter (\<lambda>a. a \<notin> set newAddressesSet) (rng oldAddressesSet);
          added = filter (\<lambda>a. a \<notin> set oldAddressesSet) (rng newAddressesSet)
      in (added, deleted))"

definition UpdateServiceHealthCheckType :: "'s Net \<Rightarrow> 'c NacosNamingClient \<Rightarrow> ServiceKey \<Rightarrow> ('s, bool outcome) state" where
  "UpdateServiceHealthCheckType N c key = UpdateServiceHealthCheckTypeToNone N (nnc_httpSdk c) key"

definition GetAllInstances :: "'s Net \<Rightarrow> 'c NacosNamingClient \<Rightarrow> ServiceInfo \<Rightarrow> ('s, (go_error + Address list) outcome) state" where
  "GetAllInstances N c info = Http_GetAllInstances N (nnc_httpSdk c) (si_ServiceKey info)"

definition register_instance ::
  "('c, 's) NamingSDK \<Rightarrow> 'c NacosNamingClient \<Rightarrow> ServiceInfo \<Rightarrow> Address \<Rightarrow> ('s, go_error option) state" where
  "register_instance S c info address = do {
     (_, err) \<leftarrow> sdk_RegisterInstance S (nnc_client c)
       \<lparr>rip_Ip = ad_IP address, rip_Port = ad_Port address, rip_Weight = DefaultNacosEndpointWeight,
        rip_Enable = True, rip_Healthy = True, rip_Metadata = si_Metadata info,
        rip_ServiceName = si_ServiceName info, rip_GroupName = si_Group info, rip_Ephemeral = False\<rparr>;
     ret err
   }"

definition deregister_instance ::
  "('c, 's) NamingSDK \<Rightarrow> 'c NacosNamingClient \<Rightarrow> ServiceInfo \<Rightarrow> Address \<Rightarrow> ('s, go_error option) state" where
  "deregister_instance S c info address = do {
     (_, err) \<leftarrow> sdk_DeregisterInstance S (nnc_client c)
       \<lparr>dip_Ip = ad_IP address, dip_Port = ad_Port address, dip_ServiceName = si_ServiceName info,
        dip_GroupName = si_Group info, dip_Ephemeral = False\<rparr>;
     ret err
   }"

definition UnregisterServiceInstances ::
  "('c, 's) NamingSDK \<Rightarrow> 'c NacosNamingClient \<Rightarrow> ServiceInfo \<Rightarrow> Address list \<Rightarrow> ('s, bool outcome) state" where
  "UnregisterServiceInstances S c info addresses = do {
     err \<leftarrow> for_until_err (deregister_instance S c info) addresses;
     ret (Ok (err = None))
   }"

definition RegisterServiceInstances ::
  "'s Net \<Rightarrow> ('c, 's) NamingSDK \<Rightarrow> (Address list \<Rightarrow> Address list) \<Rightarrow> 'c NacosNamingClient \<Rightarrow> ServiceInfo \<Rightarrow>
   Address list \<Rightarrow> ('s, bool outcome) state" where
  "RegisterServiceInstances N S rng c info addresses =
     bindO (UpdateServiceHealthCheckType N c (si_ServiceKey info)) (\<lambda>updated.
       if \<not> updated then ret (Ok False)
       else bindO (GetAllInstances N c info) (\<lambda>r.
         case r of
           Inl err \<Rightarrow> ret (Ok False)
         | Inr oldAddresses \<Rightarrow>
             (let (added, deleted) = diffAddresses rng oldAddresses addresses in do {
                err \<leftarrow> for_until_err (register_instance S c info) added;
                (if err \<noteq> None then ret (Ok False)
                 else do {
                   err \<leftarrow> for_until_err (deregister_instance S c info) deleted;
                   ret (Ok (err = None))
                 })
              })))"

definition UnregisterService ::
  "'s Net \<Rightarrow> ('c, 's) NamingSDK \<Rightarrow> 'c NacosNamingClient \<Rightarrow> ServiceInfo \<Rightarrow> ('s, bool outcome) state" where
  "UnregisterService N S c info =
     bindO (Http_GetAllInstances N (nnc_httpSdk c) (si_ServiceKey info)) (\<lambda>r.
       case r of
         Inl err \<Rightarrow> ret (Ok False)
       | Inr old \<Rightarrow> UnregisterServiceInstances S c info old)"

text \<open>
  \<^verbatim>\<open>RegisterService\<close> changes the client's map, so it returns the client.  A service the map does not have loads as
  the nil interface, on which the assertion \<^verbatim>\<open>old.([]Address)\<close> panics.
\<close>

definition RegisterService ::
  "'s Net \<Rightarrow> ('c, 's) NamingSDK \<Rightarrow> (Address list \<Rightarrow> Address list) \<Rightarrow> 'c NacosNamingClient \<Rightarrow> ServiceInfo \<Rightarrow>
   Address list \<Rightarrow> ('s, 'c NacosNamingClient outcome) state" where
  "RegisterService N S rng c info addresses =
     bindO (UpdateServiceHealthCheckType N c (si_ServiceKey info)) (\<lambda>updated.
       if \<not> updated then ret (Ok c)
       else (case mget (nnc_servicesMap c) (si_ServiceKey info) of
               None \<Rightarrow> ret Panic
             | Some old \<Rightarrow>
                 (let (added, deleted) = diffAddresses rng old addresses in
                  bindO (RegisterServiceInstances N S rng c info added) (\<lambda>_.
                  bindO (UnregisterServiceInstances S c info deleted) (\<lambda>_.
                    ret (Ok (c\<lparr>nnc_servicesMap := mput (si_ServiceKey info) addresses (nnc_servicesMap c)\<rparr>)))))))"

section \<open>Differences\<close>

text \<open>Every order in which a \<^verbatim>\<open>range\<close> may visit the keys of a map.\<close>

definition some_order :: "('a list \<Rightarrow> 'a list) \<Rightarrow> bool" where
  "some_order rng \<longleftrightarrow> (\<forall>xs. mset (rng xs) = mset xs)"

text \<open>What a client relies on: the difference of two lists, applied to the first, gives the second as a set.\<close>

locale address_diff =
  fixes ok :: "'o \<Rightarrow> bool"
    and diff :: "'o \<Rightarrow> 'a list \<Rightarrow> 'a list \<Rightarrow> 'a list \<times> 'a list"
  assumes added: "ok r \<Longrightarrow> set (fst (diff r old new)) = set new - set old"
    and deleted: "ok r \<Longrightarrow> set (snd (diff r old new)) = set old - set new"
    and once: "ok r \<Longrightarrow> distinct (fst (diff r old new) @ snd (diff r old new))"
begin

lemma applied: "ok r \<Longrightarrow> (set old \<union> set (fst (diff r old new))) - set (snd (diff r old new)) = set new"
  by (auto simp: added deleted)

lemma settled: "ok r \<Longrightarrow> set old = set new \<Longrightarrow> diff r old new = ([], [])"
  using added [of r old new] deleted [of r old new] by (cases "diff r old new") simp

end

interpretation dif: address_diff some_order diffAddresses
proof (unfold_locales, goal_cases)
  case (1 r old new)
  then have "set (r (remdups new)) = set new" by (metis set_mset_mset set_remdups some_order_def)
  then show ?case by (auto simp: diffAddresses_def Let_def)
next
  case (2 r old new)
  then have "set (r (remdups old)) = set old" by (metis set_mset_mset set_remdups some_order_def)
  then show ?case by (auto simp: diffAddresses_def Let_def)
next
  case (3 r old new)
  have "distinct (r (remdups xs))" for xs
    using 3 by (metis distinct_remdups mset_eq_imp_distinct_iff some_order_def)
  moreover have "set (r (remdups xs)) = set xs" for xs
    using 3 by (metis set_mset_mset set_remdups some_order_def)
  ultimately show ?case by (auto simp: diffAddresses_def Let_def)
qed

text \<open>
  C24: in whatever order the runtime visits the two maps, \<open>diffAddresses\<close> returns each address of the second list that the
  first lacks once as added, each address of the first that the second lacks once as deleted, and
  nothing when both hold the same addresses.
\<close>

theorem diffAddresses_spec:
  assumes "some_order rng" and "diffAddresses rng old new = (added, deleted)"
  shows "set added = set new - set old \<and> set deleted = set old - set new \<and> distinct (added @ deleted) \<and>
    (set old = set new \<longrightarrow> added = [] \<and> deleted = [])"
  using dif.added [OF assms(1), of old new] dif.deleted [OF assms(1), of old new] dif.once [OF assms(1), of old new]
  by (auto simp: assms(2))

definition demo_address :: "string \<Rightarrow> Address" where
  "demo_address ip = \<lparr>ad_IP = ip, ad_Port = 80\<rparr>"

theorem diffAddresses_spec_witness:
  "set (fst (diffAddresses rev (map demo_address [''a'', ''a'']) (map demo_address [''a'', ''b'', ''b'']))) = {demo_address ''b''} \<and>
   set (snd (diffAddresses rev (map demo_address [''a'', ''a'']) (map demo_address [''a'', ''b'', ''b'']))) = {}"
proof -
  have "some_order (rev :: Address list \<Rightarrow> Address list)" by (simp add: some_order_def)
  from diffAddresses_spec [OF this prod.collapse [symmetric]]
  show ?thesis by (auto simp: demo_address_def)
qed

section \<open>What Nacos promises\<close>

text \<open>
  \<open>view s key\<close> is the set of instances of a service that carry the controller's mark.  Nobody else writes during the call:
  the HTTP requests, the clock and the random generator leave it alone; a complete answer of status 200 to a listing that decodes
  lists it; a registration the SDK accepts adds an instance (whose metadata has the mark) and an accepted deregistration
  removes it.  A call that fails may or may not have changed something.

  \<^verbatim>\<open>GetAllInstances\<close> also reads answers of other status codes, answers that were cut off, and takes every answer in which
  \<^verbatim>\<open>not found\<close> occurs for an empty listing.  What such an answer says is left open; \<open>misled s\<close> is a history variable of
  the outside, which says that up to \<open>s\<close> one of them told something else than the truth.
\<close>

definition tells_truth :: "bool \<Rightarrow> string \<Rightarrow> Address set \<Rightarrow> bool" where
  "tells_truth v3 body V \<longleftrightarrow>
     (if StrContains body ''not found'' then V = {}
      else (\<forall>hosts. listed_hosts v3 body = Inr hosts \<longrightarrow> set (List.map_filter synced_address hosts) = V))"

definition lists_instances ::
  "'s Net \<Rightarrow> NacosHttpSdk \<Rightarrow> ('s \<Rightarrow> ServiceKey \<Rightarrow> Address set) \<Rightarrow> ('s \<Rightarrow> bool) \<Rightarrow> bool" where
  "lists_instances N n view misled \<longleftrightarrow> (\<forall>req a key s resp s'.
     a \<in> set (hs_nacosAddresses n) \<longrightarrow>
     rq_Method req = ''GET'' \<longrightarrow>
     rq_URL req = ''http://'' @ a @ (if hs_isV3 n then v3InstanceListPath else v1InstanceListPath) \<longrightarrow>
     rq_RawQuery req = Some (Values_Encode (list_params n key)) \<longrightarrow>
     run_state (http_Do N req) s = (Inr resp, s') \<longrightarrow>
     tells_truth (hs_isV3 n) (fst (rs_Body resp)) (view s key) \<or>
     (misled s' \<and> (rs_StatusCode resp \<noteq> 200 \<or> snd (rs_Body resp) \<noteq> None \<or> StrContains (fst (rs_Body resp)) ''not found'')))"

definition registers_instances :: "('c, 's) NamingSDK \<Rightarrow> 'c \<Rightarrow> ('s \<Rightarrow> ServiceKey \<Rightarrow> Address set) \<Rightarrow> bool" where
  "registers_instances S c view \<longleftrightarrow>
     (\<forall>p s b s'. run_state (sdk_RegisterInstance S c p) s = ((b, None), s') \<longrightarrow>
        mget (rip_Metadata p) NamingSyncedMark = Some ''true'' \<longrightarrow>
        (let key = \<lparr>sk_ServiceName = rip_ServiceName p, sk_Group = rip_GroupName p\<rparr> in
         view s' = (view s)(key := insert \<lparr>ad_IP = rip_Ip p, ad_Port = rip_Port p\<rparr> (view s key)))) \<and>
     (\<forall>p s b s'. run_state (sdk_DeregisterInstance S c p) s = ((b, None), s') \<longrightarrow>
        (let key = \<lparr>sk_ServiceName = dip_ServiceName p, sk_Group = dip_GroupName p\<rparr> in
         view s' = (view s)(key := view s key - {\<lparr>ad_IP = dip_Ip p, ad_Port = dip_Port p\<rparr>})))"

definition naming_registry ::
  "'s Net \<Rightarrow> ('c, 's) NamingSDK \<Rightarrow> 'c NacosNamingClient \<Rightarrow> ('s \<Rightarrow> ServiceKey \<Rightarrow> Address set) \<Rightarrow> ('s \<Rightarrow> bool) \<Rightarrow> bool" where
  "naming_registry N S c view misled \<longleftrightarrow>
     (\<forall>V. net_keeps (\<lambda>s. view s = V) N) \<and> lists_instances N (nnc_httpSdk c) view misled \<and>
     registers_instances S (nnc_client c) view \<and>
     net_keeps misled N \<and> (\<forall>p. keeps misled (sdk_RegisterInstance S (nnc_client c) p)) \<and>
     (\<forall>p. keeps misled (sdk_DeregisterInstance S (nnc_client c) p))"

section \<open>Registration\<close>

lemma build_request_sel:
  "rq_Method (build_request m u ps b h) = m" "rq_URL (build_request m u ps b h) = u"
  "rq_RawQuery (build_request m u ps b h) = (if length ps > 0 then Some (Values_Encode ps) else None)"
  by (simp_all add: build_request_def injectAuthHeaders_def Let_def)

lemma keeps_pick_address: "net_keeps I N \<Longrightarrow> keeps I (pick_address N n)"
  unfolding pick_address_def net_keeps_def by (auto intro!: keeps_rules)

lemma keeps_sign: "net_keeps I N \<Longrightarrow> keeps I (getSignHeadersForNaming N n ps)"
  unfolding getSignHeadersForNaming_def net_keeps_def Let_def by (auto intro!: keeps_rules)

lemma pick_address_in: "run_state (pick_address N n) s = (Ok a, s') \<Longrightarrow> a \<in> set (hs_nacosAddresses n)"
  by (auto simp: pick_address_def split: if_splits prod.splits)

text \<open>A request that was answered: which one it was, sent in a state only the clock and the generator reached.\<close>

lemma send_request_Inr:
  assumes "run_state (send_request N n m p ps b) s = (Ok (Inr resp), s')"
  obtains a h s1 where "a \<in> set (hs_nacosAddresses n)"
    "run_state (http_Do N (build_request m (''http://'' @ a @ p) ps b h)) s1 = (Inr resp, s')"
    "\<And>I. net_keeps I N \<Longrightarrow> I s \<Longrightarrow> I s1"
proof -
  obtain r1 s1 where pick: "run_state (pick_address N n) s = (r1, s1)" by force
  then obtain a where a: "r1 = Ok a"
    using assms by (cases r1) (auto simp: send_request_def run_bindO)
  obtain h s2 where sign: "run_state (getSignHeadersForNaming N n ps) s1 = (h, s2)" by force
  have "http_NewRequest N m (''http://'' @ a @ p) = None"
    using assms by (auto simp: send_request_def run_bindO pick a Let_def split: option.splits)
  then have "run_state (http_Do N (build_request m (''http://'' @ a @ p) ps b h)) s2 = (Inr resp, s')"
    using assms by (auto simp: send_request_def run_bindO pick a sign Let_def split: prod.splits sum.splits)
  moreover have "I s2" if "net_keeps I N" "I s" for I
    using keepsD [OF keeps_pick_address [OF that(1)] that(2), of n] keepsD [OF keeps_sign [OF that(1)], of s1 n ps]
    by (simp add: pick sign)
  ultimately show thesis using that pick_address_in [of N n s a s1] pick a by blast
qed

lemma view_kept:
  assumes "naming_registry N S c view misled" and "\<And>I. net_keeps I N \<Longrightarrow> keeps I m"
  shows "view (exec m s) = view s"
  using keepsD [OF assms(2) [of "\<lambda>s'. view s' = view s"], of s] assms(1) by (simp add: naming_registry_def)

lemma listing_exact:
  assumes reg: "naming_registry N S c view misled"
    and run: "run_state (Http_GetAllInstances N (nnc_httpSdk c) key) s = (Ok (Inr xs), s')"
  shows "\<not> misled s' \<Longrightarrow> set xs = view s key" "view s' = view s"
proof -
  let ?n = "nnc_httpSdk c"
  let ?path = "if hs_isV3 ?n then v3InstanceListPath else v1InstanceListPath"
  let ?send = "send_request N ?n ''GET'' ?path (list_params ?n key) None"
  obtain r1 s1 where pick: "run_state (pick_address N ?n) s = (r1, s1)" by force
  then obtain a where a: "r1 = Ok a" using run by (cases r1) (auto simp: Http_GetAllInstances_def run_bindO Let_def)
  obtain r2 s2 where send: "run_state ?send s1 = (r2, s2)" by force
  then obtain r where r: "r2 = Ok r"
    using run by (cases r2) (auto simp: Http_GetAllInstances_def executeRequest_def run_bindO pick a Let_def)
  have xs: "read_listing (hs_isV3 ?n) (fst (read_response (list_params ?n key) r)) (snd (read_response (list_params ?n key) r)) = Inr xs"
    using run send r by (simp add: Http_GetAllInstances_def executeRequest_def run_bindO pick a Let_def case_prod_beta)
  then obtain resp where resp: "r = Inr resp" by (cases r) (auto simp: read_response_def read_listing_def)
  obtain a2 h s3 where sent: "a2 \<in> set (hs_nacosAddresses ?n)"
    "run_state (http_Do N (build_request ''GET'' (''http://'' @ a2 @ ?path) (list_params ?n key) None h)) s3 = (Inr resp, s2)"
    and I: "\<And>I. net_keeps I N \<Longrightarrow> I s1 \<Longrightarrow> I s3"
    using send_request_Inr [OF send [unfolded r resp]] by blast
  have "view s1 = view s" using view_kept [where m = "pick_address N ?n" and s = s, OF reg keeps_pick_address] pick by simp
  then have v3: "view s3 = view s" using I [of "\<lambda>x. view x = view s"] reg by (simp add: naming_registry_def)
  have "length (list_params ?n key) > 0" by (simp add: list_params_def make_params_def Values_Add_def)
  then have "tells_truth (hs_isV3 ?n) (fst (rs_Body resp)) (view s3 key) \<or> misled s2"
    using reg sent unfolding naming_registry_def lists_instances_def
    by (metis (no_types, lifting) build_request_sel)
  moreover have "s' = s2"
    using run send r by (simp add: Http_GetAllInstances_def executeRequest_def run_bindO pick a Let_def case_prod_beta)
  moreover have "if StrContains (fst (rs_Body resp)) ''not found'' then xs = []
      else \<exists>hosts. listed_hosts (hs_isV3 ?n) (fst (rs_Body resp)) = Inr hosts \<and> xs = List.map_filter synced_address hosts"
    using xs by (cases "listed_hosts (hs_isV3 ?n) (fst (rs_Body resp))")
      (auto simp: resp read_response_def read_listing_def case_prod_beta Let_def split: if_splits)
  ultimately show "set xs = view s key" if "\<not> misled s'" using that by (auto simp: v3 tells_truth_def split: if_splits)
  show "view s' = view s"
    using view_kept [where m = "Http_GetAllInstances N ?n key" and s = s, OF reg keeps_Http_GetAllInstances] run by simp
qed

lemma key_eta [simp]: "\<lparr>sk_ServiceName = sk_ServiceName k, sk_Group = sk_Group k\<rparr> = k"
  by simp

lemma address_eta [simp]: "\<lparr>ad_IP = ad_IP a, ad_Port = ad_Port a\<rparr> = a"
  by simp

lemma registered_one:
  assumes "naming_registry N S c view misled" and "mget (si_Metadata info) NamingSyncedMark = Some ''true''"
    and "run_state (register_instance S c info x) s = (None, s')"
  shows "view s' = (view s)(si_ServiceKey info := insert x (view s (si_ServiceKey info)))"
proof -
  obtain b where run: "run_state (sdk_RegisterInstance S (nnc_client c)
       \<lparr>rip_Ip = ad_IP x, rip_Port = ad_Port x, rip_Weight = DefaultNacosEndpointWeight,
        rip_Enable = True, rip_Healthy = True, rip_Metadata = si_Metadata info,
        rip_ServiceName = si_ServiceName info, rip_GroupName = si_Group info, rip_Ephemeral = False\<rparr>) s = ((b, None), s')"
    using assms(3) by (auto simp: register_instance_def split: prod.splits)
  have law: "view s' = (view s)(\<lparr>sk_ServiceName = rip_ServiceName p, sk_Group = rip_GroupName p\<rparr> :=
      insert \<lparr>ad_IP = rip_Ip p, ad_Port = rip_Port p\<rparr> (view s \<lparr>sk_ServiceName = rip_ServiceName p, sk_Group = rip_GroupName p\<rparr>))"
    if "run_state (sdk_RegisterInstance S (nnc_client c) p) s = ((b, None), s')"
      "mget (rip_Metadata p) NamingSyncedMark = Some ''true''" for p b
    using that assms(1) by (simp add: naming_registry_def registers_instances_def Let_def)
  show ?thesis using law [OF run] assms(2) by simp
qed

lemma deregistered_one:
  assumes "naming_registry N S c view misled" and "run_state (deregister_instance S c info x) s = (None, s')"
  shows "view s' = (view s)(si_ServiceKey info := view s (si_ServiceKey info) - {x})"
proof -
  obtain b where run: "run_state (sdk_DeregisterInstance S (nnc_client c)
       \<lparr>dip_Ip = ad_IP x, dip_Port = ad_Port x, dip_ServiceName = si_ServiceName info,
        dip_GroupName = si_Group info, dip_Ephemeral = False\<rparr>) s = ((b, None), s')"
    using assms(2) by (auto simp: deregister_instance_def split: prod.splits)
  have law: "view s' = (view s)(\<lparr>sk_ServiceName = dip_ServiceName p, sk_Group = dip_GroupName p\<rparr> :=
      view s \<lparr>sk_ServiceName = dip_ServiceName p, sk_Group = dip_GroupName p\<rparr> - {\<lparr>ad_IP = dip_Ip p, ad_Port = dip_Port p\<rparr>})"
    if "run_state (sdk_DeregisterInstance S (nnc_client c) p) s = ((b, None), s')" for p b
    using that assms(1) by (simp add: naming_registry_def registers_instances_def Let_def)
  show ?thesis using law [OF run] by simp
qed

text \<open>What was misled stays so, and what is not misled was not so before.\<close>

lemma keeps_registration:
  assumes "naming_registry N S c view misled"
  shows "keeps misled (for_until_err (register_instance S c info) xs)" "keeps misled (for_until_err (deregister_instance S c info) xs)"
    "keeps misled (UpdateServiceHealthCheckType N c key)"
  using assms unfolding naming_registry_def register_instance_def deregister_instance_def UpdateServiceHealthCheckType_def
  by (auto intro!: keeps_rules keeps_UpdateServiceHealthCheck)

lemma not_before: "keeps I m \<Longrightarrow> run_state m s = (r, s') \<Longrightarrow> \<not> I s' \<Longrightarrow> \<not> I s"
  using keepsD [of I m s] by auto

lemma registered_all:
  assumes "naming_registry N S c view misled" and "mget (si_Metadata info) NamingSyncedMark = Some ''true''"
    and "run_state (for_until_err (register_instance S c info) xs) s = (None, s')"
  shows "view s' = (view s)(si_ServiceKey info := view s (si_ServiceKey info) \<union> set xs)"
  using assms(3)
proof (induction xs arbitrary: s)
  case (Cons x xs)
  obtain s1 where one: "run_state (register_instance S c info x) s = (None, s1)"
    and rest: "run_state (for_until_err (register_instance S c info) xs) s1 = (None, s')"
    using Cons.prems by (auto split: prod.splits option.splits)
  have "view s1 = (view s)(si_ServiceKey info := insert x (view s (si_ServiceKey info)))"
    by (rule registered_one [OF assms(1,2) one])
  then show ?case by (auto simp: Cons.IH [OF rest] fun_eq_iff)
qed simp

lemma deregistered_all:
  assumes "naming_registry N S c view misled"
    and "run_state (for_until_err (deregister_instance S c info) xs) s = (None, s')"
  shows "view s' = (view s)(si_ServiceKey info := view s (si_ServiceKey info) - set xs)"
  using assms(2)
proof (induction xs arbitrary: s)
  case (Cons x xs)
  obtain s1 where one: "run_state (deregister_instance S c info x) s = (None, s1)"
    and rest: "run_state (for_until_err (deregister_instance S c info) xs) s1 = (None, s')"
    using Cons.prems by (auto split: prod.splits option.splits)
  have "view s1 = (view s)(si_ServiceKey info := view s (si_ServiceKey info) - {x})"
    by (rule deregistered_one [OF assms(1) one])
  then show ?case by (auto simp: Cons.IH [OF rest] fun_eq_iff)
qed simp

lemma registration_applied:
  assumes "naming_registry N S c view misled" and "some_order rng" and "mget (si_Metadata info) NamingSyncedMark = Some ''true''"
    and "diffAddresses rng old addresses = (added, deleted)" and "set old = view s (si_ServiceKey info)"
    and "run_state (for_until_err (register_instance S c info) added) s = (None, s1)"
    and "run_state (for_until_err (deregister_instance S c info) deleted) s1 = (None, s')"
  shows "view s' = (view s)(si_ServiceKey info := set addresses)"
proof -
  have "(view s (si_ServiceKey info) \<union> set added) - set deleted = set addresses"
    using dif.applied [OF assms(2), of old addresses] assms(4,5) by simp
  then show ?thesis
    using registered_all [OF assms(1,3,6)] deregistered_all [OF assms(1,7)] by auto
qed

lemma registration_exact:
  assumes "naming_registry N S c view misled" and "some_order rng"
    and "mget (si_Metadata info) NamingSyncedMark = Some ''true''"
    and "run_state (RegisterServiceInstances N S rng c info addresses) s = (Ok True, s')" and "\<not> misled s'"
  shows "view s' = (view s)(si_ServiceKey info := set addresses)"
proof -
  let ?k = "si_ServiceKey info"
  obtain u s1 where health: "run_state (UpdateServiceHealthCheckType N c ?k) s = (u, s1)" by force
  then have u: "u = Ok True"
    using assms(4) by (cases u) (auto simp: RegisterServiceInstances_def run_bindO split: if_splits)
  have v1: "view s1 = view s"
    using view_kept [where m = "UpdateServiceHealthCheckTypeToNone N (nnc_httpSdk c) ?k" and s = s,
        OF assms(1) keeps_UpdateServiceHealthCheck] health
    by (simp add: UpdateServiceHealthCheckType_def)
  obtain r s2 where list: "run_state (Http_GetAllInstances N (nnc_httpSdk c) ?k) s1 = (r, s2)" by force
  then obtain old where r: "r = Ok (Inr old)"
    using assms(4) health u
    by (cases r) (auto simp: RegisterServiceInstances_def GetAllInstances_def run_bindO split: sum.splits)
  obtain added deleted where d: "diffAddresses rng old addresses = (added, deleted)" by force
  obtain s3 where reg: "run_state (for_until_err (register_instance S c info) added) s2 = (None, s3)"
    and dereg: "run_state (for_until_err (deregister_instance S c info) deleted) s3 = (None, s')"
    using assms(4) health u list r
    by (auto simp: RegisterServiceInstances_def GetAllInstances_def run_bindO d split: prod.splits if_splits)
  have "\<not> misled s3" by (rule not_before [OF keeps_registration(2) [OF assms(1)] dereg assms(5)])
  then have "\<not> misled s2" by (rule not_before [OF keeps_registration(1) [OF assms(1)] reg])
  then have v2: "set old = view s2 ?k" "view s2 = view s"
    using listing_exact [OF assms(1) list [unfolded r]] v1 by simp_all
  show ?thesis using registration_applied [OF assms(1-3) d v2(1) reg dereg] v2(2) by simp
qed

text \<open>
  C11: when \<open>RegisterServiceInstances\<close> returns true, and no misleading answer was taken for the listing, the marked instances of the
  service are exactly the wanted addresses, whatever was registered before, and those of every other service are as before: the
  call implements the assignment of the wanted set to the service.
\<close>

theorem RegisterServiceInstances_converges:
  assumes "naming_registry N S c view misled" and "some_order rng"
    and "mget (si_Metadata info) NamingSyncedMark = Some ''true''"
    and "run_state (RegisterServiceInstances N S rng c info addresses) s = (Ok True, s')" and "\<not> misled s'"
  shows "view s' = (view s)(si_ServiceKey info := set addresses)"
  using registration_exact [OF assms] .

lemma for_until_err_accepted:
  "(\<And>x s. x \<in> set xs \<Longrightarrow> result (f x) s = None) \<Longrightarrow> \<exists>s'. run_state (for_until_err f xs) s = (None, s')"
proof (induction xs arbitrary: s)
  case (Cons x xs)
  obtain s1 where "run_state (f x) s = (None, s1)" using Cons.prems [of x s] by (cases "run_state (f x) s") auto
  then show ?case using Cons by simp
qed simp

text \<open>
  C12: when the service is prepared, the listing decodes and the SDK accepts every call, \<open>RegisterServiceInstances\<close> does return
  true; the wanted addresses are then the marked instances of the service, unless the answer taken for the listing was misleading.
\<close>

theorem RegisterServiceInstances_live:
  assumes reg: "naming_registry N S c view misled" and order: "some_order rng"
    and mark: "mget (si_Metadata info) NamingSyncedMark = Some ''true''"
    and health: "run_state (UpdateServiceHealthCheckType N c (si_ServiceKey info)) s = (Ok True, s1)"
    and list: "run_state (GetAllInstances N c info) s1 = (Ok (Inr old), s2)"
    and accepts: "\<And>p t. snd (result (sdk_RegisterInstance S (nnc_client c) p) t) = None"
      "\<And>p t. snd (result (sdk_DeregisterInstance S (nnc_client c) p) t) = None"
  shows "\<exists>s'. run_state (RegisterServiceInstances N S rng c info addresses) s = (Ok True, s') \<and>
    (misled s2 \<or> view s' = (view s)(si_ServiceKey info := set addresses))"
proof -
  obtain added deleted where d: "diffAddresses rng old addresses = (added, deleted)" by force
  have one: "result (register_instance S c info x) t = None" "result (deregister_instance S c info x) t = None" for x t
    using accepts by (simp_all add: register_instance_def deregister_instance_def split: prod.splits) (metis fst_conv snd_conv)+
  obtain s3 where s3: "run_state (for_until_err (register_instance S c info) added) s2 = (None, s3)"
    using for_until_err_accepted [OF one(1)] by (rule exE)
  obtain s' where s': "run_state (for_until_err (deregister_instance S c info) deleted) s3 = (None, s')"
    using for_until_err_accepted [OF one(2)] by (rule exE)
  have run: "run_state (RegisterServiceInstances N S rng c info addresses) s = (Ok True, s')"
    using s3 s' by (simp add: RegisterServiceInstances_def run_bindO health list d)
  have "view s1 = view s"
    using view_kept [where m = "UpdateServiceHealthCheckTypeToNone N (nnc_httpSdk c) (si_ServiceKey info)" and s = s,
        OF reg keeps_UpdateServiceHealthCheck] health by (simp add: UpdateServiceHealthCheckType_def)
  moreover have "view s2 = view s1" "misled s2 \<or> set old = view s1 (si_ServiceKey info)"
    using listing_exact [OF reg list [unfolded GetAllInstances_def]] by auto
  ultimately have "misled s2 \<or> view s' = (view s)(si_ServiceKey info := set addresses)"
    using registration_applied [OF reg order mark d _ s3 s'] by auto
  then show ?thesis using run by blast
qed

text \<open>Unregistering leaves the service without marked instances.\<close>

lemma UnregisterService_clears:
  assumes "naming_registry N S c view misled"
    and "run_state (UnregisterService N S c info) s = (Ok True, s')" and "\<not> misled s'"
  shows "view s' = (view s)(si_ServiceKey info := {})"
proof -
  let ?k = "si_ServiceKey info"
  obtain r s2 where list: "run_state (Http_GetAllInstances N (nnc_httpSdk c) ?k) s = (r, s2)" by force
  then obtain old where r: "r = Ok (Inr old)"
    using assms(2) by (cases r) (auto simp: UnregisterService_def run_bindO split: sum.splits)
  have dereg: "run_state (for_until_err (deregister_instance S c info) old) s2 = (None, s')"
    using assms(2) list r
    by (auto simp: UnregisterService_def UnregisterServiceInstances_def run_bindO split: prod.splits)
  have "\<not> misled s2" by (rule not_before [OF keeps_registration(2) [OF assms(1)] dereg assms(3)])
  with deregistered_all [OF assms(1) dereg] listing_exact [OF assms(1) list [unfolded r]]
  show ?thesis by simp
qed

subsection \<open>A registry for examples\<close>

text \<open>One service with one possible instance; the first part of the state says whether it is registered.\<close>

definition dquote :: string where "dquote = [CHR 0x22]"

definition demo_listing :: "bool \<Rightarrow> string" where
  "demo_listing present =
     ''{'' @ dquote @ ''hosts'' @ dquote @ '':['' @
     (if present
      then ''{'' @ dquote @ ''ip'' @ dquote @ '':'' @ dquote @ ''a'' @ dquote @ '','' @ dquote @ ''port'' @ dquote @ '':80,'' @ dquote @ ''metadata'' @ dquote @ '':{'' @ dquote @
           ''synced_by_nacos_controller'' @ dquote @ '':'' @ dquote @ ''true'' @ dquote @ ''}}''
      else []) @ '']}''"

definition demo_detail :: string where
  "demo_detail =
     ''{'' @ dquote @ ''clusters'' @ dquote @ '':[{'' @ dquote @ ''name'' @ dquote @ '':'' @ dquote @ ''DEFAULT'' @ dquote @ '','' @ dquote @ ''healthChecker'' @ dquote @
     '':{'' @ dquote @ ''type'' @ dquote @ '':'' @ dquote @ ''NONE'' @ dquote @ ''}}]}''"

definition demo_net :: "(bool \<times> 't) Net" where
  "demo_net = \<lparr>rand_Intn = (\<lambda>_. ret 0), time_NowMilli = ret 0, time_Sleep = (\<lambda>_. ret ()),
     http_NewRequest = (\<lambda>_ _. None),
     http_Do = (\<lambda>req. State (\<lambda>s. (Inr \<lparr>rs_StatusCode = 200,
       rs_Body = (if rq_URL req = ''http://'' @ ''h:8848'' @ v1InstanceListPath
                  then demo_listing (fst s \<and> rq_RawQuery req = Some (Values_Encode (list_params demo_http (si_ServiceKey demo_info))))
                  else demo_detail, None)\<rparr>, s))),
     SERVICE_INFO_SPLITER = ''@@'', util_GetGroupName = (\<lambda>s g. g @ ''@@'' @ s)\<rparr>"

definition demo_naming_sdk :: "(unit, bool \<times> 't) NamingSDK" where
  "demo_naming_sdk = \<lparr>sdk_NewNamingClient = (\<lambda>_ _. ret (Inr ())),
     sdk_RegisterInstance = (\<lambda>_ p. State (\<lambda>s.
       if rip_Ip p = ''a'' \<and> rip_Port p = 80 \<and> \<lparr>sk_ServiceName = rip_ServiceName p, sk_Group = rip_GroupName p\<rparr> = si_ServiceKey demo_info
       then ((True, None), (True, snd s)) else ((False, Some (ErrOther ''refused'')), s))),
     sdk_DeregisterInstance = (\<lambda>_ p. State (\<lambda>s.
       ((True, None), (fst s \<and> \<not> (dip_Ip p = ''a'' \<and> dip_Port p = 80 \<and>
          \<lparr>sk_ServiceName = dip_ServiceName p, sk_Group = dip_GroupName p\<rparr> = si_ServiceKey demo_info), snd s))))\<rparr>"

definition demo_naming_client :: "unit NacosNamingClient" where
  "demo_naming_client = \<lparr>nnc_client = (), nnc_servicesMap = [], nnc_httpSdk = demo_http\<rparr>"

definition demo_registered :: "bool \<times> 't \<Rightarrow> ServiceKey \<Rightarrow> Address set" where
  "demo_registered s key = (if fst s \<and> key = si_ServiceKey demo_info then {demo_address ''a''} else {})"

definition demo_hosts :: "bool \<Rightarrow> json list" where
  "demo_hosts b =
     (if b
      then [JObj [(''ip'', JStr ''a''), (''port'', JNum ''80''),
              (''metadata'', JObj [(''synced_by_nacos_controller'', JStr ''true'')])]]
      else [])"

lemma demo_listing_parse: "json_parse (demo_listing b) = Some (JObj [(''hosts'', JArr (demo_hosts b))])"
proof -
  have "json_parse (demo_listing True) = Some (JObj [(''hosts'', JArr (demo_hosts True))])"
    "json_parse (demo_listing False) = Some (JObj [(''hosts'', JArr (demo_hosts False))])"
    by code_simp+
  then show ?thesis by (cases b) simp_all
qed

lemma demo_detail_parse:
  "json_parse demo_detail = Some (JObj [(''clusters'', JArr [JObj [(''name'', JStr ''DEFAULT''),
     (''healthChecker'', JObj [(''type'', JStr ''NONE'')])]])])"
  by code_simp

lemmas decode_defs = Unmarshal_def struct_fields_def dec_struct_def fld_def dec_slice_def slice_list_def dec_string_def
  dec_int_def dec_string_map_def lower_char_def

lemma Atoi_80: "Atoi ''80'' = Some 80"
  by (simp add: Atoi_def digit_value_def)

lemma demo_listing_read:
  "StrContains (demo_listing b) ''not found'' = False"
  "map_sum id (List.map_filter synced_address) (listed_hosts False (demo_listing b)) = Inr (if b then [demo_address ''a''] else [])"
proof -
  have "\<not> StrContains (demo_listing True) ''not found''" "\<not> StrContains (demo_listing False) ''not found''"
    by code_simp+
  then show "StrContains (demo_listing b) ''not found'' = False" by (cases b) simp_all
  show "map_sum id (List.map_filter synced_address) (listed_hosts False (demo_listing b)) = Inr (if b then [demo_address ''a''] else [])"
    by (simp add: listed_hosts_def demo_listing_parse demo_hosts_def decode_defs dec_InstanceList_def dec_Host_def zero_list_def zero_host_def
        Atoi_80 map_filter_simps synced_address_def mget0_def NamingSyncedMark_def demo_address_def)
qed

lemma demo_detail_read:
  "\<exists>d. Unmarshal dec_ServiceDetail demo_detail zero_detail = Inr d \<and> health_check_off d"
proof -
  have "char_of (99::nat) = CHR ''c''" by code_simp
  then show ?thesis
    by (simp add: demo_detail_parse decode_defs dec_ServiceDetail_def dec_ServiceCluster_def dec_HealthChecker_def
        zero_detail_def zero_cluster_def health_check_off_def)
qed

lemma never_misled: "keeps (\<lambda>_. False) m" "net_keeps (\<lambda>_. False) N"
  by (simp_all add: keeps_def net_keeps_def)

lemma demo_naming_registry:
  "naming_registry (demo_net :: (bool \<times> 't) Net) demo_naming_sdk demo_naming_client demo_registered (\<lambda>_. False)"
proof -
  have "net_keeps (\<lambda>s. demo_registered s = V) (demo_net :: (bool \<times> 't) Net)" for V
    by (simp add: net_keeps_def demo_net_def keeps_def)
  moreover have "lists_instances (demo_net :: (bool \<times> 't) Net) demo_http demo_registered (\<lambda>_. False)"
  proof -
    have "set (List.map_filter synced_address hosts) = demo_registered s key"
      if "listed_hosts False (demo_listing (fst s \<and> key = si_ServiceKey demo_info)) = Inr hosts" for hosts key and s :: "bool \<times> 't"
      using demo_listing_read(2) [of "fst s \<and> key = si_ServiceKey demo_info"] that by (simp add: demo_registered_def)
    then show ?thesis
      by (auto simp: lists_instances_def tells_truth_def demo_net_def demo_listing_read list_query_iff demo_http_def)
  qed
  moreover have "registers_instances (demo_naming_sdk :: (unit, bool \<times> 't) NamingSDK) () demo_registered"
    by (auto simp: registers_instances_def demo_naming_sdk_def demo_registered_def demo_address_def fun_eq_iff Let_def
        split: if_splits)
  ultimately show ?thesis by (simp add: naming_registry_def demo_naming_client_def never_misled)
qed

lemma demo_response:
  "run_state (executeRequest demo_net demo_http m path ps b) s =
     (Ok (Some (if path = v1InstanceListPath
        then demo_listing (fst s \<and> (if length ps > 0 then Some (Values_Encode ps) else None) =
               Some (Values_Encode (list_params demo_http (si_ServiceKey demo_info))))
        else demo_detail), None), s)"
  by (simp add: executeRequest_def send_request_def pick_address_def getSignHeadersForNaming_def run_bindO Let_def
      demo_net_def demo_http_def build_request_sel read_response_def)

lemma demo_health: "run_state (UpdateServiceHealthCheckType demo_net demo_naming_client key) s = (Ok True, s)"
proof -
  obtain d where "Unmarshal dec_ServiceDetail demo_detail zero_detail = Inr d" "health_check_off d"
    using demo_detail_read by blast
  moreover have "[0..<maxRetryAttempts] = [0, 1, 2]" by (simp add: maxRetryAttempts_def upt_rec)
  ultimately show ?thesis
    by (simp add: UpdateServiceHealthCheckType_def UpdateServiceHealthCheckTypeToNone_def getService_def run_bindO Let_def
        demo_naming_client_def demo_response demo_http_def [THEN arg_cong, of hs_isV3] v1ServicePath_def v1InstanceListPath_def)
qed

lemma demo_instances:
  "run_state (Http_GetAllInstances demo_net demo_http (si_ServiceKey demo_info)) s = (Ok (Inr (if fst s then [demo_address ''a''] else [])), s)"
proof -
  have "length (list_params demo_http (si_ServiceKey demo_info)) > 0"
    by (simp add: list_params_def make_params_def Values_Add_def)
  moreover have "hs_isV3 demo_http = False" by (simp add: demo_http_def)
  moreover have "run_state (pick_address demo_net demo_http) s = (Ok ''h:8848'', s)"
    by (simp add: pick_address_def demo_net_def demo_http_def)
  ultimately show ?thesis
    using demo_listing_read(2) [of "fst s"]
    by (simp add: Http_GetAllInstances_def run_bindO Let_def demo_response read_listing_def demo_listing_read(1))
qed

lemma demo_registration:
  "run_state (RegisterServiceInstances demo_net demo_naming_sdk rev demo_naming_client demo_info [demo_address ''a'']) (False, t) = (Ok True, (True, t))"
proof -
  have "nnc_httpSdk demo_naming_client = demo_http" by (simp add: demo_naming_client_def)
  then show ?thesis
    by (simp add: RegisterServiceInstances_def GetAllInstances_def run_bindO demo_health demo_instances diffAddresses_def
        register_instance_def demo_naming_sdk_def demo_address_def)
qed

theorem RegisterServiceInstances_converges_witness:
  "demo_registered (True, ()) (si_ServiceKey demo_info) = {demo_address ''a''} \<and>
   run_state (RegisterServiceInstances demo_net demo_naming_sdk rev demo_naming_client demo_info [demo_address ''a'']) (False, ()) = (Ok True, (True, ()))"
proof -
  have mark: "mget (si_Metadata demo_info) NamingSyncedMark = Some ''true''" by (simp add: demo_info_def NamingSyncedMark_def)
  have order: "some_order (rev :: Address list \<Rightarrow> Address list)" by (simp add: some_order_def)
  have "demo_registered (True, ()) = (demo_registered (False, ()))(si_ServiceKey demo_info := set [demo_address ''a''])"
    by (rule RegisterServiceInstances_converges [OF demo_naming_registry order mark demo_registration]) simp
  then show ?thesis by (simp add: demo_registration)
qed

text \<open>
  A server that answers each listing with status 500 and an error document.  The document decodes, to no instances at all: the
  withdrawal of a service reports success and its instance stays registered, which \<open>misled\<close>, here the second part of the state, remembers.
\<close>

definition error_document :: string where
  "error_document = ''{'' @ dquote @ ''code'' @ dquote @ '':500}''"

definition failing_net :: "(bool \<times> bool) Net" where
  "failing_net = demo_net\<lparr>http_Do := (\<lambda>req. State (\<lambda>s.
     if rq_URL req = ''http://'' @ ''h:8848'' @ v1InstanceListPath
     then (Inr \<lparr>rs_StatusCode = 500, rs_Body = (error_document, None)\<rparr>, (fst s, True))
     else (Inr \<lparr>rs_StatusCode = 200, rs_Body = (demo_detail, None)\<rparr>, s)))\<rparr>"

lemma error_document_read:
  "\<not> StrContains error_document ''not found''" "\<not> StrContains error_document ''service not found''"
  "listed_hosts False error_document = Inr []"
proof -
  show "\<not> StrContains error_document ''not found''" "\<not> StrContains error_document ''service not found''" by code_simp+
  have "json_parse error_document = Some (JObj [(''code'', JNum ''500'')])" by code_simp
  then show "listed_hosts False error_document = Inr []"
    by (simp add: listed_hosts_def decode_defs dec_InstanceList_def dec_Host_def zero_list_def zero_host_def)
qed

lemma failing_registry: "naming_registry failing_net demo_naming_sdk demo_naming_client demo_registered snd"
proof -
  have "demo_registered (a, True) = demo_registered (a, b)" for a b
    by (simp add: demo_registered_def fun_eq_iff)
  then have "net_keeps (\<lambda>s. demo_registered s = V) failing_net" "net_keeps snd failing_net" for V
    by (auto simp: net_keeps_def failing_net_def demo_net_def keeps_def)
  moreover have "lists_instances failing_net demo_http demo_registered snd"
    by (auto simp: lists_instances_def failing_net_def demo_http_def)
  moreover have "registers_instances demo_naming_sdk () (demo_registered :: bool \<times> bool \<Rightarrow> _)"
    using demo_naming_registry [where ?'t = bool] by (simp add: naming_registry_def demo_naming_client_def)
  ultimately show ?thesis
    by (simp add: naming_registry_def demo_naming_client_def demo_naming_sdk_def keeps_def)
qed

lemma failing_response:
  "run_state (executeRequest failing_net demo_http m path ps b) s =
     (if path = v1InstanceListPath
      then (Ok (Some error_document, Some (ErrOther (''unexpected status code: '' @ FormatInt 500))), (fst s, True))
      else (Ok (Some demo_detail, None), s))"
  by (cases "path = v1InstanceListPath") (simp_all add: executeRequest_def send_request_def pick_address_def getSignHeadersForNaming_def
      run_bindO Let_def failing_net_def demo_net_def demo_http_def build_request_sel read_response_def error_document_read)

lemma error_answer_leaves_instance:
  "run_state (RegisterServiceInstances failing_net demo_naming_sdk rev demo_naming_client demo_info []) (True, False) = (Ok True, (True, True)) \<and>
   demo_registered (True, True) (si_ServiceKey demo_info) = {demo_address ''a''}"
proof -
  have sdk: "nnc_httpSdk demo_naming_client = demo_http" "hs_isV3 demo_http = False"
    by (simp_all add: demo_naming_client_def demo_http_def)
  obtain d where "Unmarshal dec_ServiceDetail demo_detail zero_detail = Inr d" "health_check_off d"
    using demo_detail_read by blast
  moreover have "[0..<maxRetryAttempts] = [0, 1, 2]" by (simp add: maxRetryAttempts_def upt_rec)
  ultimately have "run_state (UpdateServiceHealthCheckType failing_net demo_naming_client key) s = (Ok True, s)" for key s
    by (simp add: UpdateServiceHealthCheckType_def UpdateServiceHealthCheckTypeToNone_def getService_def run_bindO Let_def
        sdk failing_response v1ServicePath_def v1InstanceListPath_def)
  moreover have "run_state (pick_address failing_net demo_http) s = (Ok ''h:8848'', s)" for s
    by (simp add: pick_address_def failing_net_def demo_net_def demo_http_def)
  then have "run_state (GetAllInstances failing_net demo_naming_client demo_info) s = (Ok (Inr []), (fst s, True))" for s
    by (simp add: GetAllInstances_def Http_GetAllInstances_def run_bindO Let_def sdk failing_response read_listing_def error_document_read
        map_filter_simps)
  ultimately show ?thesis by (simp add: RegisterServiceInstances_def run_bindO diffAddresses_def demo_registered_def)
qed

text \<open>A registry kept as a table, whose SDK accepts everything and which is listed only while it is empty.\<close>

definition table_net :: "(ServiceKey \<times> Address) list Net" where
  "table_net = \<lparr>rand_Intn = (\<lambda>_. ret 0), time_NowMilli = ret 0, time_Sleep = (\<lambda>_. ret ()),
     http_NewRequest = (\<lambda>_ _. None),
     http_Do = (\<lambda>req. State (\<lambda>s.
       (if rq_URL req = ''http://'' @ ''h:8848'' @ v1InstanceListPath
        then (if s = [] then Inr \<lparr>rs_StatusCode = 200, rs_Body = (demo_listing False, None)\<rparr> else Inl (ErrOther ''busy''))
        else Inr \<lparr>rs_StatusCode = 200, rs_Body = (demo_detail, None)\<rparr>, s))),
     SERVICE_INFO_SPLITER = ''@@'', util_GetGroupName = (\<lambda>s g. g @ ''@@'' @ s)\<rparr>"

definition table_sdk :: "(unit, (ServiceKey \<times> Address) list) NamingSDK" where
  "table_sdk = \<lparr>sdk_NewNamingClient = (\<lambda>_ _. ret (Inr ())),
     sdk_RegisterInstance = (\<lambda>_ p. State (\<lambda>s. ((True, None),
       (\<lparr>sk_ServiceName = rip_ServiceName p, sk_Group = rip_GroupName p\<rparr>, \<lparr>ad_IP = rip_Ip p, ad_Port = rip_Port p\<rparr>) # s))),
     sdk_DeregisterInstance = (\<lambda>_ p. State (\<lambda>s. ((True, None),
       removeAll (\<lparr>sk_ServiceName = dip_ServiceName p, sk_Group = dip_GroupName p\<rparr>, \<lparr>ad_IP = dip_Ip p, ad_Port = dip_Port p\<rparr>) s)))\<rparr>"

definition table_view :: "(ServiceKey \<times> Address) list \<Rightarrow> ServiceKey \<Rightarrow> Address set" where
  "table_view s key = {a. (key, a) \<in> set s}"

lemma table_registry: "naming_registry table_net table_sdk demo_naming_client table_view (\<lambda>_. False)"
proof -
  have "net_keeps (\<lambda>s. table_view s = V) table_net" for V
    by (simp add: net_keeps_def table_net_def keeps_def)
  moreover have "lists_instances table_net demo_http table_view (\<lambda>_. False)"
    using demo_listing_read [of False]
    by (auto simp: lists_instances_def tells_truth_def table_net_def demo_http_def table_view_def split: if_splits)
  moreover have "registers_instances table_sdk () table_view"
    by (auto simp: registers_instances_def table_sdk_def table_view_def fun_eq_iff Let_def)
  ultimately show ?thesis by (simp add: naming_registry_def demo_naming_client_def never_misled)
qed

lemma table_response:
  "run_state (executeRequest table_net demo_http m path ps b) [] =
     (Ok (Some (if path = v1InstanceListPath then demo_listing False else demo_detail), None), [])"
  by (simp add: executeRequest_def send_request_def pick_address_def getSignHeadersForNaming_def run_bindO Let_def
      table_net_def demo_http_def build_request_sel read_response_def)

theorem RegisterServiceInstances_live_witness:
  "\<exists>s'. run_state (RegisterServiceInstances table_net table_sdk rev demo_naming_client demo_info [demo_address ''a'']) [] = (Ok True, s') \<and>
     table_view s' = (table_view [])(si_ServiceKey demo_info := set [demo_address ''a''])"
proof (rule RegisterServiceInstances_live [OF table_registry, unfolded simp_thms])
  have sdk: "nnc_httpSdk demo_naming_client = demo_http" "hs_isV3 demo_http = False"
    by (simp_all add: demo_naming_client_def demo_http_def)
  obtain d where "Unmarshal dec_ServiceDetail demo_detail zero_detail = Inr d" "health_check_off d"
    using demo_detail_read by blast
  moreover have "[0..<maxRetryAttempts] = [0, 1, 2]" by (simp add: maxRetryAttempts_def upt_rec)
  ultimately show "run_state (UpdateServiceHealthCheckType table_net demo_naming_client (si_ServiceKey demo_info)) [] = (Ok True, [])"
    by (simp add: UpdateServiceHealthCheckType_def UpdateServiceHealthCheckTypeToNone_def getService_def run_bindO Let_def
        sdk table_response v1ServicePath_def v1InstanceListPath_def)
  have "run_state (pick_address table_net demo_http) [] = (Ok ''h:8848'', [])"
    by (simp add: pick_address_def table_net_def demo_http_def)
  then show "run_state (GetAllInstances table_net demo_naming_client demo_info) [] = (Ok (Inr []), [])"
    using demo_listing_read(2) [of False]
    by (simp add: GetAllInstances_def Http_GetAllInstances_def run_bindO Let_def sdk table_response read_listing_def demo_listing_read(1))
qed (simp_all add: some_order_def demo_info_def NamingSyncedMark_def table_sdk_def)

section \<open>The cache of clients\<close>

text \<open>A build either finds its key or stores a fresh client under it; a failed one leaves the cache as it was.\<close>

lemma BuildNamingClient_cases:
  assumes "run_state (BuildNamingClient K N S ctx (Some sd)) (m, s) = (r, (m', s'))"
  obtains (hit) c where "mget m (naming_cacheKey (sd_NacosServer sd)) = Some c" "r = Inr c" "m' = m" "s' = s"
  | (failed) err where "r = Inl err" "m' = m"
  | (built) p nc h s1 s2 where
      "mget m (naming_cacheKey (sd_NacosServer sd)) = None"
      "result (GetNacosClientParams K (ns_AuthRef (sd_NacosServer sd))
         \<lparr>sp_Endpoint = ns_Endpoint (sd_NacosServer sd), sp_ServerAddr = ns_ServerAddr (sd_NacosServer sd),
          sp_Namespace = ns_Namespace (sd_NacosServer sd)\<rparr> (sd_Namespace sd)) s = Inr p"
      "run_state (NewNacosHttpSdk N [cp_ServerAddr p] (cp_Namespace p) (ai_AccessKey (cp_AuthInfo p))
         (ai_SecretKey (cp_AuthInfo p))) s1 = (h, s2)"
      "r = Inr \<lparr>nnc_client = nc, nnc_servicesMap = [], nnc_httpSdk = h\<rparr>"
      "m' = mput (naming_cacheKey (sd_NacosServer sd)) \<lparr>nnc_client = nc, nnc_servicesMap = [], nnc_httpSdk = h\<rparr> m"
  using assms
  by (auto simp: BuildNamingClient_def Let_def run_outside split: option.splits prod.splits sum.splits)

text \<open>
  Once a client was built for a ServiceDiscovery, every other one with the same server address and Nacos namespace gets
  that very client without a call to anything: its endpoint, its credentials and its own namespace play no part.
\<close>

theorem naming_client_shared:
  assumes "run_state (BuildNamingClient K N S ctx (Some sd)) (m, s) = (Inr c, (m', s'))"
    and "ns_ServerAddr (sd_NacosServer sd2) = ns_ServerAddr (sd_NacosServer sd)"
    and "ns_Namespace (sd_NacosServer sd2) = ns_Namespace (sd_NacosServer sd)"
  shows "run_state (BuildNamingClient K2 N2 S2 ctx2 (Some sd2)) (m', t) = (Inr c, (m', t))"
proof -
  have "naming_cacheKey (sd_NacosServer sd2) = naming_cacheKey (sd_NacosServer sd)"
    using assms(2,3) by (simp add: naming_cacheKey_def)
  moreover from assms(1) have "mget m' (naming_cacheKey (sd_NacosServer sd)) = Some c"
    by (cases rule: BuildNamingClient_cases) (auto simp: gomap)
  ultimately show ?thesis by (simp add: BuildNamingClient_def Let_def)
qed

definition demo_sd :: "string \<Rightarrow> string \<Rightarrow> ServiceDiscovery" where
  "demo_sd n endpoint = \<lparr>sd_Meta = zero_meta\<lparr>om_Namespace := ''ns'', om_Name := n\<rparr>,
     sd_Spec = \<lparr>sds_Services = [], sds_SyncDirect = [],
       sds_NacosServer = \<lparr>ns_Endpoint = endpoint, ns_ServerAddr = ''h:8848'', ns_Namespace = ''public'', ns_AuthRef = None\<rparr>,
       sds_ObjectRef = None\<rparr>,
     sd_Status = \<lparr>sdst_Message = [], sdst_SyncStatuses = [], sdst_ObjectRef = None\<rparr>\<rparr>"

lemma demo_build_naming_any:
  assumes "sd_NacosServer sd = \<lparr>ns_Endpoint = [], ns_ServerAddr = ''h:8848'', ns_Namespace = ''public'', ns_AuthRef = None\<rparr>"
  shows "run_state (BuildNamingClient K demo_net demo_naming_sdk ctx (Some sd)) ([], b) =
     (Inr demo_naming_client, ([(''h:8848-public'', demo_naming_client)], b))"
proof -
  have "StrContains ''h:8848'' '':''" "Split ''h:8848'' '':'' = [''h'', ''8848'']" "Atoi ''8848'' = Some 8848"
    by (simp_all add: StrContains_single Split_def HasPrefix_def Atoi_def digit_value_def)
  then show ?thesis
    by (simp add: BuildNamingClient_def assms GetNacosClientParams_def empty_auth_def server_configs_def
        naming_cacheKey_def run_outside NewNacosHttpSdk_def getNacosVersion_def demo_naming_sdk_def demo_net_def Let_def
        demo_naming_client_def demo_http_def)
qed

lemma demo_build_naming:
  "run_state (BuildNamingClient K demo_net demo_naming_sdk ctx (Some (demo_sd n []))) ([], b) =
     (Inr demo_naming_client, ([(''h:8848-public'', demo_naming_client)], b))"
  by (rule demo_build_naming_any) (simp add: demo_sd_def)

abbreviation demo_naming_kube :: "(bool \<times> 't) Kube" where
  "demo_naming_kube \<equiv> api_server (\<lambda>_. demo_cluster True) (\<lambda>_ b. b)"

theorem naming_client_shared_witness:
  "run_state (BuildNamingClient demo_naming_kube demo_net demo_naming_sdk ''ctx'' (Some (demo_sd ''b'' ''endpoint'')))
     ([(''h:8848-public'', demo_naming_client)], (True, ())) = (Inr demo_naming_client, ([(''h:8848-public'', demo_naming_client)], (True, ())))"
  by (rule naming_client_shared [OF demo_build_naming [of demo_naming_kube "''ctx''" "''a''" "(False, ())"]]) (simp_all add: demo_sd_def)

text \<open>
  A ServiceDiscovery with an endpoint gets a client whose HTTP half has the empty string as its only server
  address, even when a server address is given: no request of it can be sent.
\<close>

theorem endpoint_leaves_no_address:
  assumes "run_state (BuildNamingClient K N S ctx (Some sd)) (m, s) = (Inr c, (m', s'))"
    and "ns_Endpoint (sd_NacosServer sd) \<noteq> []" and "mget m (naming_cacheKey (sd_NacosServer sd)) = None"
  shows "hs_nacosAddresses (nnc_httpSdk c) = [[]]"
  using assms(1)
proof (cases rule: BuildNamingClient_cases)
  case (built p nc h s1 s2)
  have "cp_ServerAddr p = []"
    using built(2) assms(2) by (auto simp: GetNacosClientParams_def split: prod.splits sum.splits if_splits)
  moreover have "hs_nacosAddresses h = [cp_ServerAddr p]"
    using built(3) by (auto simp: NewNacosHttpSdk_def getNacosVersion_def Let_def split: option.splits prod.splits sum.splits if_splits)
  ultimately show ?thesis using built(4) by simp
qed (use assms(3) in simp_all)

lemma demo_build_endpoint:
  "run_state (BuildNamingClient K demo_net demo_naming_sdk ctx (Some (demo_sd n ''e''))) ([], b) =
     (Inr (demo_naming_client\<lparr>nnc_httpSdk := demo_http\<lparr>hs_nacosAddresses := [[]]\<rparr>\<rparr>),
      ([(''h:8848-public'', demo_naming_client\<lparr>nnc_httpSdk := demo_http\<lparr>hs_nacosAddresses := [[]]\<rparr>\<rparr>)], b))"
  by (simp add: BuildNamingClient_def demo_sd_def GetNacosClientParams_def empty_auth_def server_configs_def
      naming_cacheKey_def run_outside NewNacosHttpSdk_def getNacosVersion_def demo_naming_sdk_def demo_net_def Let_def
      demo_naming_client_def demo_http_def)

theorem endpoint_leaves_no_address_witness:
  "hs_nacosAddresses (nnc_httpSdk (demo_naming_client\<lparr>nnc_httpSdk := demo_http\<lparr>hs_nacosAddresses := [[]]\<rparr>\<rparr>)) = [[]]"
  by (rule endpoint_leaves_no_address [OF demo_build_endpoint [of demo_naming_kube "''ctx''" "''a''" "(True, ())"]]) (simp_all add: demo_sd_def)

section \<open>\<^verbatim>\<open>RegisterService\<close>\<close>

definition no_services :: "'c NacosNamingClient client_cache \<Rightarrow> bool" where
  "no_services m \<longleftrightarrow> (\<forall>(k, c)\<in>set m. nnc_servicesMap c = [])"

lemma keeps_no_services: "keeps (\<lambda>(m, s). no_services m) (BuildNamingClient K N S ctx osd)"
proof (cases osd)
  case (Some sd)
  have "no_services m'" if "run_state (BuildNamingClient K N S ctx (Some sd)) (m, s) = (r, (m', s'))" "no_services m" for m s r m' s'
    using that(1)
  proof (cases rule: BuildNamingClient_cases)
    case (built p nc h s1 s2)
    then show ?thesis using that(2) by (auto simp: no_services_def dest!: subsetD [OF set_mput])
  qed (use that(2) in auto)
  then show ?thesis using Some by (auto intro!: keepsI split: prod.splits) (metis prod.collapse)
qed (simp add: BuildNamingClient_def keeps_ret)

text \<open>
  With a cache that no registration has filled, the client a build returns has an empty service map, and then
  \<open>RegisterService\<close> never gets past the preparation of the service: it panics when that succeeds and does nothing when it
  fails; the map stays empty.
\<close>

theorem RegisterService_unusable:
  assumes "no_services m" and "run_state (BuildNamingClient K N S ctx (Some sd)) (m, s) = (Inr c, (m', s'))"
  shows "run_state (RegisterService N S rng c info addresses) s' =
    (case run_state (UpdateServiceHealthCheckType N c (si_ServiceKey info)) s' of
       (Ok False, t) \<Rightarrow> (Ok c, t) | (_, t) \<Rightarrow> (Panic, t)) \<and> no_services m'"
proof -
  have "nnc_servicesMap c = []"
    using assms(2)
  proof (cases rule: BuildNamingClient_cases)
    case (hit c')
    then show ?thesis using assms(1) by (auto simp: no_services_def dest!: map_of_SomeD)
  qed simp_all
  moreover have "no_services m'" using keepsD [OF keeps_no_services, of "(m, s)" K N S ctx "Some sd"] assms by simp
  ultimately show ?thesis
    by (simp add: RegisterService_def run_bindO split: prod.split outcome.split)
qed

theorem RegisterService_unusable_witness:
  "run_state (RegisterService demo_net demo_naming_sdk rev demo_naming_client demo_info [demo_address ''a'']) (False, ()) = (Panic, (False, ()))"
  using RegisterService_unusable [OF _ demo_build_naming [of demo_naming_kube "''ctx''" "''a''" "(False, ())"], of rev demo_info "[demo_address ''a'']"]
  by (simp add: no_services_def demo_health)

end
