(* ===== verification/Service_Discovery.thy ===== *)
theory Service_Discovery
  imports Naming_Client
begin

text \<open>
  The service-discovery controllers: \<^verbatim>\<open>pkg/controller/servicediscovery_controller.go\<close>, \<^verbatim>\<open>endpoint_controller.go\<close>,
  \<^verbatim>\<open>service_controller.go\<close> and \<^verbatim>\<open>pkg/nacos/naming/nacos_naming_controller.go\<close>.  Every reconciler returns the empty
  \<^verbatim>\<open>ctrl.Result\<close>, so only its error is kept.  The state is the process-wide client cache and the outside.
\<close>

section \<open>ServiceDiscoveryReconciler\<close>

type_synonym ('c, 's, 'a) naming_prog = "('c NacosNamingClient client_cache \<times> 's, 'a outcome) state"

definition sd_finalizer :: string where "sd_finalizer = ''nacos.io/sd-finalizer''"

text \<open>The three \<^verbatim>\<open>k8s.*\<close> assignments to the metadata.\<close>

definition label_metadata :: "string \<Rightarrow> ServiceDiscovery \<Rightarrow> ServiceInfo \<Rightarrow> ServiceInfo" where
  "label_metadata currentContext sd info =
     info\<lparr>si_Metadata := mput ''k8s.cluster'' currentContext (mput ''k8s.namespace'' (sd_Namespace sd)
       (mput ''k8s.name'' (sd_Name sd) (si_Metadata info)))\<rparr>"

definition set_sync_status :: "ServiceInfo \<Rightarrow> nat \<Rightarrow> ServiceDiscovery \<Rightarrow> ServiceDiscovery" where
  "set_sync_status info now sd =
     sd\<lparr>sd_Status := (sd_Status sd)\<lparr>sdst_SyncStatuses :=
       mput (ServiceKey_String (si_ServiceKey info))
         (Some \<lparr>sss_ServiceName = si_ServiceName info, sss_GroupName = si_Group info, sss_LastSyncFrom = [],
            sss_LastSyncTime = now, sss_Ready = True, sss_Message = []\<rparr>)
         (sd_SyncStatuses sd)\<rparr>\<rparr>"

fun syncEndponits ::
  "'s Kube \<Rightarrow> 's KubeSD \<Rightarrow> 's Net \<Rightarrow> ('c, 's) NamingSDK \<Rightarrow> (Address list \<Rightarrow> Address list) \<Rightarrow> string \<Rightarrow>
   Endpoints list \<Rightarrow> 'c NacosNamingClient \<Rightarrow> ServiceDiscovery \<Rightarrow> ('c, 's, go_error option) naming_prog" where
  "syncEndponits K E N S rng ctx [] nClient sd = ret (Ok None)"
| "syncEndponits K E N S rng ctx (endpoints # endpointsList) nClient sd = do {
     r \<leftarrow> outside (Client_GetService E
            \<lparr>nn_Namespace = om_Namespace (ep_Meta endpoints), nn_Name = om_Name (ep_Meta endpoints)\<rparr>);
     (case r of
        Inl err \<Rightarrow> ret (Ok (Some err))
      | Inr svc \<Rightarrow>
          (case GenerateServiceInfo svc of
             Panic \<Rightarrow> ret Panic
           | Ok (Inl err) \<Rightarrow> ret (Ok (Some err))
           | Ok (Inr info) \<Rightarrow>
               (let svcInfo = label_metadata ctx sd info in
                case ConvertToAddresses endpoints svcInfo of
                  Panic \<Rightarrow> ret Panic
                | Ok addresses \<Rightarrow>
                    bindO (outside (RegisterServiceInstances N S rng nClient svcInfo addresses)) (\<lambda>registered.
                      if \<not> registered then
                        ret (Ok (Some (ErrOther (''register service instances failed, service: '' @ si_ServiceName svcInfo))))
                      else do {
                        now \<leftarrow> gets (\<lambda>(_, s). Now K s);
                        r \<leftarrow> outside (Client_StatusUpdateSD E (set_sync_status svcInfo now sd));
                        (case r of
                           Inl err \<Rightarrow> ret (Ok (Some err))
                         | Inr sd' \<Rightarrow> syncEndponits K E N S rng ctx endpointsList nClient sd')
                      }))))
   }"

text \<open>The Endpoints of the named services; \<open>skip\<close> says whether a missing one is skipped or ends the loop.\<close>

fun get_endpoints ::
  "'s KubeSD \<Rightarrow> bool \<Rightarrow> string \<Rightarrow> string list \<Rightarrow> Endpoints list \<Rightarrow> ('w \<times> 's, go_error + Endpoints list) state" where
  "get_endpoints E skip namespace [] acc = ret (Inr acc)"
| "get_endpoints E skip namespace (svcName # services) acc = do {
     r \<leftarrow> outside (Client_GetEndpoints E \<lparr>nn_Namespace = namespace, nn_Name = svcName\<rparr>);
     (case r of
        Inl err \<Rightarrow> if skip \<and> IsNotFound err then get_endpoints E skip namespace services acc else ret (Inl err)
      | Inr endpoints \<Rightarrow> get_endpoints E skip namespace services (acc @ [endpoints]))
   }"

definition syncExistedService ::
  "'s Kube \<Rightarrow> 's KubeSD \<Rightarrow> 's Net \<Rightarrow> ('c, 's) NamingSDK \<Rightarrow> (Address list \<Rightarrow> Address list) \<Rightarrow> string \<Rightarrow>
   ServiceDiscovery \<Rightarrow> ('c, 's, go_error option) naming_prog" where
  "syncExistedService K E N S rng ctx sd = do {
     r \<leftarrow> BuildNamingClient K N S ctx (Some sd);
     (case r of
        Inl err \<Rightarrow> ret (Ok (Some err))
      | Inr nClient \<Rightarrow> do {
          eps \<leftarrow> (if length (sd_Services sd) > 0
                  then get_endpoints E False (sd_Namespace sd) (sd_Services sd) []
                  else outside (Client_ListEndpoints E (sd_Namespace sd)));
          (case eps of
             Inl err \<Rightarrow> ret (Ok (Some err))
           | Inr toBeSynced \<Rightarrow> syncEndponits K E N S rng ctx toBeSynced nClient sd)
        })
   }"

text \<open>\<^verbatim>\<open>ensureFinalizer\<close> returns the object as the update left it.\<close>

definition SD_ensureFinalizer ::
  "'s KubeSD \<Rightarrow> ServiceDiscovery \<Rightarrow> ('w \<times> 's, go_error + ServiceDiscovery) state" where
  "SD_ensureFinalizer E obj =
     (if \<not> StringSliceContains (sd_Finalizers obj) sd_finalizer then
        outside (Client_UpdateSD E (obj\<lparr>sd_Meta := (sd_Meta obj)\<lparr>om_Finalizers := sd_Finalizers obj @ [sd_finalizer]\<rparr>\<rparr>))
      else ret (Inr obj))"

text \<open>
  The loop of \<^verbatim>\<open>removeFinalizer\<close> ranges over the slice it shrinks in place: the range keeps the old length and reads the
  shared array, here \<open>arr\<close>, while \<open>n\<close> is the current length of \<^verbatim>\<open>finalizers\<close>.  \<^verbatim>\<open>finalizers[i+1:]\<close> panics beyond that length.
\<close>

fun remove_loop :: "string \<Rightarrow> nat list \<Rightarrow> string list \<Rightarrow> nat \<Rightarrow> string list outcome" where
  "remove_loop f [] arr n = Ok (take n arr)"
| "remove_loop f (i # idx) arr n =
     (if arr ! i = f
      then if i + 1 > n then Panic
           else remove_loop f idx (take i arr @ drop (i + 1) (take n arr) @ drop (n - 1) arr) (n - 1)
      else remove_loop f idx arr n)"

definition SD_removeFinalizer :: "'s KubeSD \<Rightarrow> ServiceDiscovery \<Rightarrow> ('c, 's, go_error option) naming_prog" where
  "SD_removeFinalizer E obj =
     (if StringSliceContains (sd_Finalizers obj) sd_finalizer then
        (case remove_loop sd_finalizer [0..<length (sd_Finalizers obj)] (sd_Finalizers obj) (length (sd_Finalizers obj)) of
           Panic \<Rightarrow> ret Panic
         | Ok finalizers \<Rightarrow> do {
             r \<leftarrow> outside (Client_UpdateSD E (obj\<lparr>sd_Meta := (sd_Meta obj)\<lparr>om_Finalizers := finalizers\<rparr>\<rparr>));
             ret (Ok (case r of Inl err \<Rightarrow> Some err | Inr _ \<Rightarrow> None))
           })
      else ret (Ok None))"

text \<open>The service a status entry stands for.\<close>

definition status_service :: "ServiceSyncStatus \<Rightarrow> ServiceKey" where
  "status_service st =
     \<lparr>sk_ServiceName = (if StrContains (sss_ServiceName st) ''@@'' then Split (sss_ServiceName st) ''@@'' ! 0
                       else sss_ServiceName st),
      sk_Group = (if sss_GroupName st = [] then NamingDefaultGroupName else sss_GroupName st)\<rparr>"

fun unregister_all ::
  "'s Net \<Rightarrow> ('c, 's) NamingSDK \<Rightarrow> 'c NacosNamingClient \<Rightarrow> (string, ServiceSyncStatus option) gomap \<Rightarrow>
   ('s, go_error option outcome) state" where
  "unregister_all N S nClient [] = ret (Ok None)"
| "unregister_all N S nClient ((_, svcStatus) # sts) =
     (case svcStatus of
        None \<Rightarrow> ret Panic
      | Some st \<Rightarrow>
          if \<not> sss_Ready st then unregister_all N S nClient sts
          else bindO (UnregisterService N S nClient \<lparr>si_ServiceKey = status_service st, si_Port = 0, si_Metadata = []\<rparr>) (\<lambda>ok.
            if \<not> ok then ret (Ok (Some (ErrOther (''unregister service fail, serviceName: '' @ sss_ServiceName st))))
            else unregister_all N S nClient sts))"

definition SD_doFinalization ::
  "'s Kube \<Rightarrow> 's KubeSD \<Rightarrow> 's Net \<Rightarrow> ('c, 's) NamingSDK \<Rightarrow> string \<Rightarrow> ServiceDiscovery \<Rightarrow>
   ('c, 's, go_error option) naming_prog" where
  "SD_doFinalization K E N S ctx sd = do {
     r \<leftarrow> BuildNamingClient K N S ctx (Some sd);
     (case r of
        Inl err \<Rightarrow> ret (Ok (Some err))
      | Inr nClient \<Rightarrow>
          bindO (outside (unregister_all N S nClient (sd_SyncStatuses sd))) (\<lambda>err.
            case err of Some e \<Rightarrow> ret (Ok (Some e)) | None \<Rightarrow> SD_removeFinalizer E sd))
   }"

definition SD_Reconcile ::
  "'s Kube \<Rightarrow> 's KubeSD \<Rightarrow> 's Net \<Rightarrow> ('c, 's) NamingSDK \<Rightarrow> (Address list \<Rightarrow> Address list) \<Rightarrow> string \<Rightarrow>
   NamespacedName \<Rightarrow> ('c, 's, go_error option) naming_prog" where
  "SD_Reconcile K E N S rng ctx req = do {
     r \<leftarrow> outside (Client_GetSD E req);
     (case r of
        Inl err \<Rightarrow> ret (Ok None)
      | Inr sd \<Rightarrow>
          if \<not> StringSliceContains (sd_Finalizers sd) sd_finalizer then do {
            r \<leftarrow> SD_ensureFinalizer E sd;
            (case r of
               Inl err \<Rightarrow> ret (Ok (Some err))
             | Inr sd' \<Rightarrow> syncExistedService K E N S rng ctx sd')
          }
          else if om_DeletionTimestamp (sd_Meta sd) \<noteq> None then SD_doFinalization K E N S ctx sd
          else do {
            eps \<leftarrow> (if length (sd_Services sd) > 0
                    then get_endpoints E True (sd_Namespace sd) (sd_Services sd) []
                    else ret (Inr []));
            (case eps of
               Inl err \<Rightarrow> ret (Ok (Some err))
             | Inr endpointsList \<Rightarrow> do {
                 r \<leftarrow> BuildNamingClient K N S ctx (Some sd);
                 (case r of
                    Inl err \<Rightarrow> ret (Ok (Some err))
                  | Inr nClient \<Rightarrow> syncEndponits K E N S rng ctx endpointsList nClient sd)
               })
          })
   }"

section \<open>EndpointReconciler\<close>

text \<open>\<^verbatim>\<open>json.Marshal\<close> of a non-nil slice of addresses.\<close>

definition marshal_address :: "Address \<Rightarrow> string" where
  "marshal_address a =
     ''{'' @ quote_string ''ip'' @ '':'' @ quote_string (ad_IP a) @ '','' @ quote_string ''port'' @ '':'' @ Itoa (unat (ad_Port a)) @ ''}''"

definition marshal_addresses :: "Address list \<Rightarrow> string" where
  "marshal_addresses as = ''['' @ Join (map marshal_address as) '','' @ '']''"

text \<open>
  The metadata map of \<^verbatim>\<open>serviceInfo\<close> is shared with the caller, which passes it on to the next ServiceDiscovery: the result
  carries it.
\<close>

definition SyncInstanceToNacos ::
  "'s Kube \<Rightarrow> 's KubeSD \<Rightarrow> 's Net \<Rightarrow> ('c, 's) NamingSDK \<Rightarrow> (Address list \<Rightarrow> Address list) \<Rightarrow> string \<Rightarrow>
   Endpoints \<Rightarrow> ServiceInfo \<Rightarrow> ServiceDiscovery \<Rightarrow> ('c, 's, go_error option \<times> ServiceInfo) naming_prog" where
  "SyncInstanceToNacos K E N S rng ctx es info sd =
     (case ConvertToAddresses es info of
        Panic \<Rightarrow> ret Panic
      | Ok addresses \<Rightarrow>
          (let serviceInfo = label_metadata ctx sd info in do {
             r \<leftarrow> BuildNamingClient K N S ctx (Some sd);
             (case r of
                Inl err \<Rightarrow> ret (Ok (Some (ErrOther ''Build nacos client fail''), serviceInfo))
              | Inr nClient \<Rightarrow>
                  bindO (outside (RegisterServiceInstances N S rng nClient serviceInfo addresses)) (\<lambda>registered.
                    if \<not> registered then
                      ret (Ok (Some (ErrOther (''Register service fail, serviceName: '' @ si_ServiceName serviceInfo @
                        '', addresses: '' @ marshal_addresses addresses)), serviceInfo))
                    else do {
                      now \<leftarrow> gets (\<lambda>(_, s). Now K s);
                      r \<leftarrow> outside (Client_StatusUpdateSD E (set_sync_status serviceInfo now sd));
                      ret (Ok (case r of Inl err \<Rightarrow> Some err | Inr _ \<Rightarrow> None, serviceInfo))
                    }))
           }))"

fun sync_to_each ::
  "'s Kube \<Rightarrow> 's KubeSD \<Rightarrow> 's Net \<Rightarrow> ('c, 's) NamingSDK \<Rightarrow> (Address list \<Rightarrow> Address list) \<Rightarrow> string \<Rightarrow>
   Endpoints \<Rightarrow> ServiceInfo \<Rightarrow> ServiceDiscovery list \<Rightarrow> ('c, 's, go_error option) naming_prog" where
  "sync_to_each K E N S rng ctx es info [] = ret (Ok None)"
| "sync_to_each K E N S rng ctx es info (sd # sds) =
     (if ns_ServerAddr (sd_NacosServer sd) \<noteq> [] then
        bindO (SyncInstanceToNacos K E N S rng ctx es info sd) (\<lambda>(err, info').
          case err of Some e \<Rightarrow> ret (Ok (Some e)) | None \<Rightarrow> sync_to_each K E N S rng ctx es info' sds)
      else sync_to_each K E N S rng ctx es info sds)"

definition selects :: "string \<Rightarrow> ServiceDiscovery \<Rightarrow> bool" where
  "selects name sd \<longleftrightarrow> length (sd_Services sd) = 0 \<or> StringSliceContains (sd_Services sd) name"

text \<open>
  The Endpoints the request names, or empty ones in its name when they are gone; likewise a Service without
  annotations stands in for one that is gone.
\<close>

definition endpoints_or_empty :: "NamespacedName \<Rightarrow> go_error + Endpoints \<Rightarrow> go_error + Endpoints" where
  "endpoints_or_empty req r =
     (case r of
        Inr es \<Rightarrow> Inr es
      | Inl err \<Rightarrow>
          if IsNotFound err
          then Inr \<lparr>ep_Meta = zero_meta\<lparr>om_Name := nn_Name req, om_Namespace := nn_Namespace req\<rparr>, ep_Subsets = []\<rparr>
          else Inl err)"

definition service_or_bare :: "ObjectMeta \<Rightarrow> go_error + Service \<Rightarrow> go_error + Service" where
  "service_or_bare m r =
     (case r of
        Inr svc \<Rightarrow> Inr svc
      | Inl err \<Rightarrow>
          if \<not> IsNotFound err then Inl err
          else Inr \<lparr>svc_Meta = zero_meta\<lparr>om_Name := om_Name m, om_Namespace := om_Namespace m\<rparr>, svc_Annotations = []\<rparr>)"

definition EndpointReconciler_Reconcile ::
  "'s Kube \<Rightarrow> 's KubeSD \<Rightarrow> 's Net \<Rightarrow> ('c, 's) NamingSDK \<Rightarrow> (Address list \<Rightarrow> Address list) \<Rightarrow> string \<Rightarrow>
   NamespacedName \<Rightarrow> ('c, 's, go_error option) naming_prog" where
  "EndpointReconciler_Reconcile K E N S rng ctx req = do {
     r \<leftarrow> outside (Client_GetEndpoints E req);
     (case endpoints_or_empty req r of
        Inl err \<Rightarrow> ret (Ok (Some err))
      | Inr es \<Rightarrow> do {
          sdl \<leftarrow> outside (Client_ListSD E (om_Namespace (ep_Meta es)));
          (case sdl of
             Inl err \<Rightarrow> ret (Ok (Some err))
           | Inr items \<Rightarrow>
               (let svcSds = filter (selects (om_Name (ep_Meta es))) items in
                if length svcSds = 0 then ret (Ok None)
                else do {
                  r \<leftarrow> outside (Client_GetService E
                         \<lparr>nn_Namespace = om_Namespace (ep_Meta es), nn_Name = om_Name (ep_Meta es)\<rparr>);
                  (case service_or_bare (ep_Meta es) r of
                     Inl err \<Rightarrow> ret (Ok (Some err))
                   | Inr svc \<Rightarrow>
                       (case GenerateServiceInfo svc of
                          Panic \<Rightarrow> ret Panic
                        | Ok (Inl err) \<Rightarrow> ret (Ok (Some err))
                        | Ok (Inr serviceInfo) \<Rightarrow> sync_to_each K E N S rng ctx es serviceInfo svcSds))
                }))
        })
   }"

section \<open>The other controllers\<close>

text \<open>\<^verbatim>\<open>ServiceReconciler.Reconcile\<close> is a stub that does nothing.\<close>

definition ServiceReconciler_Reconcile :: "NamespacedName \<Rightarrow> ('w, go_error option) state" where
  "ServiceReconciler_Reconcile req = ret None"

text \<open>The Kubernetes clients are the parameters \<open>K\<close> and \<open>E\<close>; \<open>None\<close> is the nil controller.\<close>

definition NewSyncServiceController ::
  "'s Net \<Rightarrow> ('c, 's) NamingSDK \<Rightarrow> string \<Rightarrow> 'c NacosNamingClient option \<Rightarrow> ('s, 'c NacosNamingClient option) state" where
  "NewSyncServiceController N S home opt =
     (case opt of
        None \<Rightarrow> do {
          nc \<leftarrow> NewNamingClient N S home \<lparr>no_Namespace = [], no_ServersIP = [], no_ServerPort = 0, no_AccessKey = [], no_SecretKey = []\<rparr>;
          ret (case nc of Inl err \<Rightarrow> None | Inr c \<Rightarrow> Some c)
        }
      | Some c \<Rightarrow> ret (Some c))"

definition SyncService :: "'s KubeSD \<Rightarrow> ObjectMeta \<Rightarrow> ('s, go_error option) state" where
  "SyncService E obj = do {
     r \<leftarrow> Client_GetService E \<lparr>nn_Namespace = om_Namespace obj, nn_Name = om_Name obj\<rparr>;
     ret (case r of Inl err \<Rightarrow> Some err | Inr _ \<Rightarrow> None)
   }"

section \<open>The finalizer loop\<close>

lemma remove_loop_skip:
  "\<forall>i\<in>set idx. arr ! i \<noteq> f \<Longrightarrow> remove_loop f (idx @ rest) arr n = remove_loop f rest arr n"
  by (induction idx) auto

lemma remove_loop_once:
  assumes "f \<notin> set ys" "f \<notin> set zs"
  shows "remove_loop f [0..<length (ys @ f # zs)] (ys @ f # zs) (length (ys @ f # zs)) = Ok (ys @ zs)"
proof -
  let ?xs = "ys @ f # zs"
  let ?arr = "ys @ zs @ drop (length zs) (f # zs)"
  have idx: "[0..<length ?xs] = [0..<length ys] @ length ys # [Suc (length ys)..<length ?xs]"
    using upt_add_eq_append [of 0 "length ys" "Suc (length zs)"] by (simp add: upt_conv_Cons del: upt_Suc)
  have step: "remove_loop f (length ys # js) ?xs (length ?xs) = remove_loop f js ?arr (length ?xs - 1)" for js
    by simp
  have later: "?arr ! j \<noteq> f" if "j \<in> set [Suc (length ys)..<length ?xs]" for j
  proof -
    have zs: "zs \<noteq> []" using that by auto
    then have "drop (length zs) (f # zs) = [last zs]" by (cases zs rule: rev_cases) simp_all
    then have "(zs @ drop (length zs) (f # zs)) ! (j - length ys) \<in> set zs"
      using that zs by (auto simp: nth_append)
    then show ?thesis using that assms(2) by (auto simp: nth_append)
  qed
  have "remove_loop f [0..<length ?xs] ?xs (length ?xs) = remove_loop f (length ys # [Suc (length ys)..<length ?xs]) ?xs (length ?xs)"
    unfolding idx using assms(1) by (intro remove_loop_skip) (auto simp: nth_append)
  also have "\<dots> = remove_loop f ([Suc (length ys)..<length ?xs] @ []) ?arr (length ?xs - 1)" by (simp add: step del: upt_Suc)
  also have "\<dots> = remove_loop f [] ?arr (length ?xs - 1)" by (rule remove_loop_skip) (use later in blast)
  finally show ?thesis by simp
qed

text \<open>
  When the finalizer is in the list once, the loop that removes it while ranging over the same array ends without a
  panic and leaves the other finalizers in order.
\<close>

theorem removeFinalizer_loop:
  assumes "count_list finalizers f = 1"
  shows "remove_loop f [0..<length finalizers] finalizers (length finalizers) = Ok (remove1 f finalizers)"
proof -
  have "f \<in> set finalizers" using assms by (metis count_notin zero_neq_one)
  then obtain ys zs where xs: "finalizers = ys @ f # zs" "f \<notin> set ys" by (meson split_list_first)
  then have "f \<notin> set zs" using assms by (auto simp: count_list_0_iff [symmetric])
  then show ?thesis using remove_loop_once [OF xs(2)] xs by (simp add: remove1_append)
qed

theorem removeFinalizer_loop_witness:
  "remove_loop ''b'' [0..<3] [''a'', ''b'', ''c''] 3 = Ok [''a'', ''c'']"
  using removeFinalizer_loop [of "[''a'', ''b'', ''c'']" "''b''"] by (simp add: numeral_3_eq_3 del: remove_loop.simps)

text \<open>Repeated, it panics or is left behind.\<close>

lemma removeFinalizer_repeated:
  "remove_loop f [0..<2] [f, f] 2 = Panic" "f \<noteq> x \<Longrightarrow> remove_loop f [0..<3] [f, f, x] 3 = Ok [f, x]"
  by (simp_all add: upt_rec)

section \<open>Finalization\<close>

lemma split_from_shorter:
  "sep \<noteq> [] \<Longrightarrow> StrContains s sep \<Longrightarrow> length (hd (split_from sep acc s)) < length acc + length s"
proof (induction sep acc s rule: split_from.induct)
  case (2 sep acc c cs)
  then show ?case by (cases "HasPrefix (c # cs) sep") (auto simp: less_Suc_eq)
qed simp

text \<open>
  Finalization unregisters the service that synchronisation registered and recorded, unless the service name
  contains \<^verbatim>\<open>@@\<close>; then it unregisters another one.
\<close>

theorem finalized_service_iff:
  assumes "si_Group info \<noteq> []"
    and "mget (sd_SyncStatuses (set_sync_status info now sd)) (ServiceKey_String (si_ServiceKey info)) = Some (Some st)"
  shows "status_service st = si_ServiceKey info \<longleftrightarrow> \<not> StrContains (si_ServiceName info) ''@@''"
proof -
  have st: "sss_ServiceName st = si_ServiceName info" "sss_GroupName st = si_Group info"
    using assms(2) by (auto simp: set_sync_status_def gomap)
  have "Split (si_ServiceName info) ''@@'' ! 0 \<noteq> si_ServiceName info" if "StrContains (si_ServiceName info) ''@@''"
    using split_from_shorter [of "''@@''" "si_ServiceName info" "[]"] that
    by (auto simp: Split_def hd_conv_nth [symmetric])
  then show ?thesis
    using assms(1) st
    by (cases "si_ServiceKey info") (auto simp: status_service_def)
qed

theorem finalized_service_iff_witness:
  "status_service \<lparr>sss_ServiceName = ''web'', sss_GroupName = ''g'', sss_LastSyncFrom = [], sss_LastSyncTime = 0,
     sss_Ready = True, sss_Message = []\<rparr> = si_ServiceKey demo_info"
proof -
  have "\<not> StrContains ''web'' ''@@''" by code_simp
  then show ?thesis
    using finalized_service_iff [of demo_info 0 "demo_sd ''sd'' []"
        "\<lparr>sss_ServiceName = ''web'', sss_GroupName = ''g'', sss_LastSyncFrom = [], sss_LastSyncTime = 0, sss_Ready = True, sss_Message = []\<rparr>"]
    by (simp add: demo_info_def set_sync_status_def demo_sd_def)
qed

lemma keeps_unregistration: "naming_registry N S c view misled \<Longrightarrow> keeps misled (UnregisterService N S c info)"
  unfolding UnregisterService_def UnregisterServiceInstances_def
  by (auto intro!: keeps_rules keeps_registration simp: naming_registry_def)

lemma keeps_unregister_misled: "naming_registry N S c view misled \<Longrightarrow> keeps misled (unregister_all N S c sts)"
  by (induction sts) (auto intro!: keeps_rules keeps_unregistration split: option.split)

lemma unregister_all_clears:
  assumes "naming_registry N S c view misled"
    and "run_state (unregister_all N S c sts) s = (Ok None, s')" and "\<not> misled s'"
  shows "\<forall>(k, x)\<in>set sts. \<exists>st. x = Some st \<and> (sss_Ready st \<longrightarrow> view s' (status_service st) = {})"
    and "view s' key \<subseteq> view s key"
proof -
  have "(\<forall>(k, x)\<in>set sts. \<exists>st. x = Some st \<and> (sss_Ready st \<longrightarrow> view s' (status_service st) = {})) \<and>
      (\<forall>key. view s' key \<subseteq> view s key)"
    using assms(2)
  proof (induction sts arbitrary: s)
    case (Cons e sts)
    obtain k x where e: "e = (k, x)" by (cases e)
    obtain st where x: "x = Some st" using Cons.prems by (cases x) (auto simp: e)
    show ?case
    proof (cases "sss_Ready st")
      case True
      let ?info = "\<lparr>si_ServiceKey = status_service st, si_Port = 0, si_Metadata = []\<rparr>"
      obtain s1 where one: "run_state (UnregisterService N S c ?info) s = (Ok True, s1)"
        and rest: "run_state (unregister_all N S c sts) s1 = (Ok None, s')"
        using Cons.prems True by (auto simp: e x run_bindO split: prod.splits outcome.splits if_splits)
      have "\<not> misled s1" by (rule not_before [OF keeps_unregister_misled [OF assms(1)] rest assms(3)])
      then have v: "view s1 = (view s)(status_service st := {})"
        using UnregisterService_clears [OF assms(1) one] by simp
      have IH: "\<forall>(k, x)\<in>set sts. \<exists>st. x = Some st \<and> (sss_Ready st \<longrightarrow> view s' (status_service st) = {})"
        "\<And>key. view s' key \<subseteq> view s1 key"
        using Cons.IH [OF rest] by blast+
      have "view s' key \<subseteq> view s key" for key using IH(2) [of key] by (auto simp: v split: if_splits)
      moreover have "view s' (status_service st) = {}" using IH(2) [of "status_service st"] by (simp add: v)
      ultimately show ?thesis using IH(1) by (simp add: e x)
    qed (use Cons in \<open>simp add: e x\<close>)
  qed simp
  then show "\<forall>(k, x)\<in>set sts. \<exists>st. x = Some st \<and> (sss_Ready st \<longrightarrow> view s' (status_service st) = {})"
    and "view s' key \<subseteq> view s key" by blast+
qed

text \<open>What the building of a client keeps, and what everything but the writes of ServiceDiscoveries keeps.\<close>

definition build_keeps :: "('s \<Rightarrow> bool) \<Rightarrow> 's Kube \<Rightarrow> 's Net \<Rightarrow> ('c, 's) NamingSDK \<Rightarrow> bool" where
  "build_keeps I K N S \<longleftrightarrow>
     net_keeps I N \<and> (\<forall>k. keeps I (Client_GetSecret K k)) \<and> (\<forall>cc sc. keeps I (sdk_NewNamingClient S cc sc))"

definition naming_keeps :: "('s \<Rightarrow> bool) \<Rightarrow> 's Kube \<Rightarrow> 's Net \<Rightarrow> ('c, 's) NamingSDK \<Rightarrow> bool" where
  "naming_keeps I K N S \<longleftrightarrow> build_keeps I K N S \<and>
     (\<forall>c p. keeps I (sdk_RegisterInstance S c p)) \<and> (\<forall>c p. keeps I (sdk_DeregisterInstance S c p))"

abbreviation on_snd :: "('s \<Rightarrow> bool) \<Rightarrow> 'w \<times> 's \<Rightarrow> bool" where
  "on_snd I \<equiv> \<lambda>(_, s). I s"

lemma keeps_outside_part: "keeps I m \<Longrightarrow> keeps (on_snd I) (outside m)"
  by (auto simp: keeps_def outside_def split: prod.splits)

lemma keeps_cache: "keeps (on_snd I) (modify (apfst f))"
  by (auto simp: keeps_def)

lemma keeps_Build:
  assumes "build_keeps I K N S"
  shows "keeps (on_snd I) (BuildNamingClient K N S ctx osd)"
proof -
  have "keeps I (GetNacosClientParams K a sp ns)" for a sp ns
    unfolding GetNacosClientParams_def getNacosAuthInfo_def getNaocsAuthFromSecret_def
    using assms by (auto intro!: keeps_rules simp: build_keeps_def split: option.split)
  moreover have "keeps I (NewNacosHttpSdk N a b c d)" for a b c d
    unfolding NewNacosHttpSdk_def getNacosVersion_def Let_def
    using assms by (auto intro!: keeps_rules simp: build_keeps_def net_keeps_def split: option.split)
  ultimately show ?thesis
    unfolding BuildNamingClient_def Let_def
    using assms by (auto intro!: keeps_rules keeps_outside_part keeps_cache simp: build_keeps_def split: option.split)
qed

lemma keeps_unregister_all:
  assumes "naming_keeps I K N S"
  shows "keeps I (unregister_all N S c sts)"
proof (induction sts)
  case (Cons e sts)
  have "keeps I (UnregisterService N S c info)" for info
    using assms unfolding UnregisterService_def UnregisterServiceInstances_def deregister_instance_def
    by (auto intro!: keeps_rules simp: naming_keeps_def build_keeps_def)
  then show ?case using Cons by (cases e) (auto intro!: keeps_rules)
qed (simp add: keeps_ret)

text \<open>The calls to the API server for Services and ServiceDiscoveries keep it too; then so do whole reconciliations.\<close>

definition sd_keeps :: "('s \<Rightarrow> bool) \<Rightarrow> 's KubeSD \<Rightarrow> bool" where
  "sd_keeps I E \<longleftrightarrow>
     (\<forall>k. keeps I (Client_GetSD E k)) \<and> (\<forall>k. keeps I (Client_ListSD E k)) \<and> (\<forall>x. keeps I (Client_UpdateSD E x)) \<and>
     (\<forall>x. keeps I (Client_StatusUpdateSD E x)) \<and> (\<forall>k. keeps I (Client_GetService E k)) \<and>
     (\<forall>k. keeps I (Client_GetEndpoints E k)) \<and> (\<forall>k. keeps I (Client_ListEndpoints E k))"

lemma keeps_RegisterServiceInstances:
  assumes "naming_keeps I K N S"
  shows "keeps I (RegisterServiceInstances N S rng c info addresses)"
proof -
  have "net_keeps I N" "keeps I (register_instance S c info a)" "keeps I (deregister_instance S c info a)" for a
    using assms unfolding register_instance_def deregister_instance_def
    by (auto intro!: keeps_rules simp: naming_keeps_def build_keeps_def)
  then show ?thesis
    unfolding RegisterServiceInstances_def UpdateServiceHealthCheckType_def GetAllInstances_def Let_def
    by (intro keeps_rules)
qed

lemma keeps_on_snd:
  assumes "naming_keeps I K N S" and "sd_keeps I E"
  shows "keeps (on_snd I) (BuildNamingClient K N S ctx osd)"
    and "keeps (on_snd I) (outside (RegisterServiceInstances N S rng c info addresses))"
    and "keeps (on_snd I) (outside (unregister_all N S c sts))"
    and "keeps (on_snd I) (outside (Client_GetSD E k))" "keeps (on_snd I) (outside (Client_ListSD E ns))"
    and "keeps (on_snd I) (outside (Client_UpdateSD E sd))" "keeps (on_snd I) (outside (Client_StatusUpdateSD E sd))"
    and "keeps (on_snd I) (outside (Client_GetService E k))" "keeps (on_snd I) (outside (Client_GetEndpoints E k))"
    and "keeps (on_snd I) (outside (Client_ListEndpoints E ns))"
    and "keeps (on_snd I) (gets f)"
  using assms keeps_RegisterServiceInstances [OF assms(1)] keeps_unregister_all [OF assms(1)]
  by (auto intro!: keeps_Build keeps_outside_part simp: naming_keeps_def sd_keeps_def) (simp add: keeps_def)

lemma keeps_reconciliations:
  assumes "naming_keeps I K N S" and "sd_keeps I E"
  shows "keeps (on_snd I) (syncEndponits K E N S rng ctx es c sd)"
    and "keeps (on_snd I) (get_endpoints E skip ns names acc)"
    and "keeps (on_snd I) (SyncInstanceToNacos K E N S rng ctx ep info sd)"
    and "keeps (on_snd I) (sync_to_each K E N S rng ctx ep info sds)"
    and "keeps (on_snd I) (EndpointReconciler_Reconcile K E N S rng ctx req)"
    and "keeps (on_snd I) (SD_Reconcile K E N S rng ctx req)"
proof -
  note calls = keeps_on_snd [OF assms]
  show ends: "keeps (on_snd I) (syncEndponits K E N S rng ctx es c sd)" for es c sd
    by (induction es arbitrary: sd) (auto intro!: keeps_rules calls simp: Let_def split: sum.split outcome.split)
  show get: "keeps (on_snd I) (get_endpoints E skip ns names acc)" for skip ns names acc
    by (induction names arbitrary: acc) (auto intro!: keeps_rules calls split: sum.split)
  have one: "keeps (on_snd I) (SyncInstanceToNacos K E N S rng ctx ep info sd)" for ep info sd
    unfolding SyncInstanceToNacos_def Let_def by (auto intro!: keeps_rules calls split: sum.split outcome.split)
  then show "keeps (on_snd I) (SyncInstanceToNacos K E N S rng ctx ep info sd)" .
  show each: "keeps (on_snd I) (sync_to_each K E N S rng ctx ep info sds)" for ep info sds
    by (induction sds arbitrary: info) (auto intro!: keeps_rules one split: prod.split option.split)
  show "keeps (on_snd I) (EndpointReconciler_Reconcile K E N S rng ctx req)"
    unfolding EndpointReconciler_Reconcile_def Let_def by (auto intro!: keeps_rules calls each split: sum.split outcome.split)
  show "keeps (on_snd I) (SD_Reconcile K E N S rng ctx req)"
    unfolding SD_Reconcile_def SD_doFinalization_def SD_removeFinalizer_def SD_ensureFinalizer_def syncExistedService_def
    by (auto intro!: keeps_rules calls ends get split: sum.split outcome.split option.split)
qed

text \<open>The service that synchronisation recorded; finalization unregisters it if its name has no \<^verbatim>\<open>@@\<close>.\<close>

definition recorded_service :: "ServiceSyncStatus \<Rightarrow> ServiceKey" where
  "recorded_service st = \<lparr>sk_ServiceName = sss_ServiceName st,
     sk_Group = (if sss_GroupName st = [] then NamingDefaultGroupName else sss_GroupName st)\<rparr>"

definition unregistered :: "(ServiceKey \<Rightarrow> Address set) \<Rightarrow> ServiceDiscovery \<Rightarrow> bool" where
  "unregistered V sd \<longleftrightarrow> (\<forall>(k, x)\<in>set (sd_SyncStatuses sd). \<exists>st. x = Some st \<and>
     (sss_Ready st \<longrightarrow> V (status_service st) = {} \<and>
        (\<not> StrContains (sss_ServiceName st) ''@@'' \<longrightarrow> V (recorded_service st) = {})))"

lemma unregisteredI:
  assumes "\<forall>(k, x)\<in>set (sd_SyncStatuses sd). \<exists>st. x = Some st \<and> (sss_Ready st \<longrightarrow> V (status_service st) = {})"
  shows "unregistered V sd"
proof -
  have "status_service st = recorded_service st" if "\<not> StrContains (sss_ServiceName st) ''@@''" for st
    using that by (simp add: status_service_def recorded_service_def)
  then show ?thesis using assms unfolding unregistered_def by (auto split: prod.splits) metis
qed

text \<open>
  C10: whatever happens during finalization, a panic or an error included: either everything that only a write of
  the ServiceDiscovery can change is as before (take for \<open>I\<close> that it is stored with its finalizer), or a misleading answer was
  taken for a listing, or no service recorded as ready has a marked instance left in Nacos.  A service whose name contains
  \<^verbatim>\<open>@@\<close> is excepted: for it that holds of the service with the name up to there.
\<close>

theorem SD_finalizer_leaves_last:
  assumes reg: "\<And>c. result (BuildNamingClient K N S ctx (Some sd)) (m, s) = Inr c \<Longrightarrow> naming_registry N S c view misled"
    and I: "naming_keeps I K N S" "I s"
    and quiet: "\<And>x t. view (exec (Client_UpdateSD E x) t) = view t" "\<And>x. keeps misled (Client_UpdateSD E x)"
    and run: "run_state (SD_doFinalization K E N S ctx sd) (m, s) = (r, (m', s'))"
  shows "I s' \<or> misled s' \<or> unregistered (view s') sd"
proof -
  obtain b m1 s1 where build: "run_state (BuildNamingClient K N S ctx (Some sd)) (m, s) = (b, (m1, s1))"
    by (metis prod.collapse)
  have I1: "I s1" using keepsD [OF keeps_Build, of I K N S "(m, s)" ctx "Some sd"] I build by (simp add: naming_keeps_def)
  show ?thesis
  proof (cases b)
    case (Inl err)
    then show ?thesis using run build I1 by (simp add: SD_doFinalization_def)
  next
    case (Inr c)
    then have regc: "naming_registry N S c view misled" using reg build by simp
    obtain u s2 where un: "run_state (unregister_all N S c (sd_SyncStatuses sd)) s1 = (u, s2)" by force
    have I2: "I s2" using keepsD [OF keeps_unregister_all [OF I(1)] I1, of c "sd_SyncStatuses sd"] un by simp
    show ?thesis
    proof (cases "u = Ok None \<and> \<not> misled s'")
      case False
      then have "s' = s2 \<or> misled s'" using run build Inr un
        by (auto simp: SD_doFinalization_def run_bindO run_outside split: outcome.splits option.splits)
      then show ?thesis using I2 by blast
    next
      case True
      then have fin: "run_state (SD_removeFinalizer E sd) (m1, s2) = (r, (m', s'))"
        using run build Inr un by (simp add: SD_doFinalization_def run_bindO run_outside)
      then have v: "view s' = view s2"
        using quiet by (auto simp: SD_removeFinalizer_def run_outside split: if_splits outcome.splits prod.splits) (metis snd_conv)
      have "keeps (on_snd misled) (SD_removeFinalizer E sd)"
        unfolding SD_removeFinalizer_def using quiet(2) by (auto intro!: keeps_rules keeps_outside_part)
      then have "\<not> misled s2" using keepsD [of "on_snd misled" "SD_removeFinalizer E sd" "(m1, s2)"] fin True by auto
      then have clear: "\<forall>(k, x)\<in>set (sd_SyncStatuses sd). \<exists>st. x = Some st \<and> (sss_Ready st \<longrightarrow> view s' (status_service st) = {})"
        using unregister_all_clears(1) [OF regc un [unfolded conjunct1 [OF True]]] v by simp
      then show ?thesis by (simp add: unregisteredI)
    qed
  qed
qed

text \<open>An API server with one ServiceDiscovery, in the second part of the state of the example registry.\<close>

definition demo_endpoints :: Endpoints where
  "demo_endpoints = \<lparr>ep_Meta = zero_meta\<lparr>om_Namespace := ''ns'', om_Name := ''web''\<rparr>,
     ep_Subsets = [\<lparr>es_Addresses = [''a''], es_Ports = [80]\<rparr>]\<rparr>"

definition store_sd :: "ServiceDiscovery \<Rightarrow> (bool \<times> ServiceDiscovery option, go_error + ServiceDiscovery) state" where
  "store_sd sd = State (\<lambda>s. (Inr sd,
     (fst s, if sd_Finalizers sd = [] \<and> om_DeletionTimestamp (sd_Meta sd) \<noteq> None then None else Some sd)))"

definition demo_kube_sd :: "(bool \<times> ServiceDiscovery option) KubeSD" where
  "demo_kube_sd = \<lparr>
     Client_GetSD = (\<lambda>_. gets (\<lambda>s. case snd s of None \<Rightarrow> Inl (ErrNotFound ''not found'') | Some sd \<Rightarrow> Inr sd)),
     Client_ListSD = (\<lambda>_. gets (\<lambda>s. Inr (case snd s of None \<Rightarrow> [] | Some sd \<Rightarrow> [sd]))),
     Client_UpdateSD = store_sd, Client_StatusUpdateSD = store_sd,
     Client_GetService = (\<lambda>_. ret (Inr (demo_service [(''nacos.io/service-group'', ''g''), (''team'', ''a'')]))),
     Client_GetEndpoints = (\<lambda>_. ret (Inr demo_endpoints)), Client_ListEndpoints = (\<lambda>_. ret (Inr [demo_endpoints]))\<rparr>"

definition demo_sd_deleted :: ServiceDiscovery where
  "demo_sd_deleted = (set_sync_status demo_info 0 (demo_sd ''sd'' []))\<lparr>
     sd_Meta := zero_meta\<lparr>om_Namespace := ''ns'', om_Name := ''sd'', om_DeletionTimestamp := Some 1, om_Finalizers := [sd_finalizer]\<rparr>\<rparr>"

lemma demo_sd_deleted_sel:
  "sd_NacosServer demo_sd_deleted = \<lparr>ns_Endpoint = [], ns_ServerAddr = ''h:8848'', ns_Namespace = ''public'', ns_AuthRef = None\<rparr>"
  "sd_SyncStatuses demo_sd_deleted = [(''web@@g'', Some \<lparr>sss_ServiceName = ''web'', sss_GroupName = ''g'', sss_LastSyncFrom = [],
     sss_LastSyncTime = 0, sss_Ready = True, sss_Message = []\<rparr>)]"
  "sd_Finalizers demo_sd_deleted = [sd_finalizer]" "om_DeletionTimestamp (sd_Meta demo_sd_deleted) = Some 1"
  by (simp_all add: demo_sd_deleted_def set_sync_status_def demo_sd_def demo_info_def ServiceKey_String_def)

lemma demo_service_key:
  "status_service \<lparr>sss_ServiceName = ''web'', sss_GroupName = ''g'', sss_LastSyncFrom = [], sss_LastSyncTime = 0,
     sss_Ready = True, sss_Message = []\<rparr> = si_ServiceKey demo_info"
proof -
  have "\<not> StrContains ''web'' ''@@''" by code_simp
  then show ?thesis by (simp add: status_service_def demo_info_def)
qed

lemma demo_unregistration:
  "run_state (UnregisterService demo_net demo_naming_sdk demo_naming_client
     \<lparr>si_ServiceKey = si_ServiceKey demo_info, si_Port = 0, si_Metadata = []\<rparr>) (True, t) = (Ok True, (False, t))"
proof -
  have "nnc_httpSdk demo_naming_client = demo_http" by (simp add: demo_naming_client_def)
  then show ?thesis
    by (simp add: UnregisterService_def UnregisterServiceInstances_def run_bindO demo_instances deregister_instance_def
        demo_naming_sdk_def demo_address_def)
qed

lemma demo_finalization:
  "run_state (SD_doFinalization demo_naming_kube demo_kube_sd demo_net demo_naming_sdk ''ctx'' demo_sd_deleted)
     ([], (True, Some demo_sd_deleted)) = (Ok None, ([(''h:8848-public'', demo_naming_client)], (False, None)))"
  by (simp add: SD_doFinalization_def demo_build_naming_any [OF demo_sd_deleted_sel(1)] run_bindO run_outside demo_sd_deleted_sel
      demo_service_key demo_unregistration SD_removeFinalizer_def demo_kube_sd_def store_sd_def)

lemma demo_quiet:
  "build_keeps (\<lambda>t. demo_registered t = V) demo_naming_kube (demo_net :: (bool \<times> ServiceDiscovery option) Net) demo_naming_sdk"
  "demo_registered (exec (store_sd x) t) = demo_registered t"
  by (auto simp: build_keeps_def net_keeps_def demo_net_def keeps_def api_server_def on_part_def demo_naming_sdk_def
      demo_registered_def store_sd_def fun_eq_iff api_get_def split: prod.split option.split)

theorem SD_finalizer_leaves_last_witness:
  "run_state (SD_doFinalization demo_naming_kube demo_kube_sd demo_net demo_naming_sdk ''ctx'' demo_sd_deleted)
     ([], (True, Some demo_sd_deleted)) = (Ok None, ([(''h:8848-public'', demo_naming_client)], (False, None))) \<and>
   demo_registered (False, None :: ServiceDiscovery option) (si_ServiceKey demo_info) = {}"
proof -
  let ?I = "\<lambda>s. snd s = Some demo_sd_deleted"
  have "?I (False, None) \<or> False \<or> unregistered (demo_registered (False, None :: ServiceDiscovery option)) demo_sd_deleted"
  proof (rule SD_finalizer_leaves_last [OF _ _ _ _ _ demo_finalization])
    show "naming_registry demo_net demo_naming_sdk c demo_registered (\<lambda>_. False)"
      if "result (BuildNamingClient demo_naming_kube demo_net demo_naming_sdk ''ctx'' (Some demo_sd_deleted)) ([], (True, Some demo_sd_deleted)) = Inr c"
      for c using that demo_naming_registry by (simp add: demo_build_naming_any [OF demo_sd_deleted_sel(1)])
    show "naming_keeps ?I demo_naming_kube demo_net demo_naming_sdk"
      by (auto simp: naming_keeps_def build_keeps_def net_keeps_def demo_net_def keeps_def api_server_def on_part_def
          demo_naming_sdk_def split: prod.split)
  qed (simp_all add: demo_kube_sd_def demo_quiet(2) never_misled)
  then show ?thesis using demo_finalization by (simp add: unregistered_def demo_sd_deleted_sel demo_service_key)
qed

section \<open>Synchronisation\<close>

text \<open>The calls to the API server and the building of clients leave the registry alone, and nothing undoes having been misled.\<close>

definition kube_quiet :: "'s KubeSD \<Rightarrow> ('s \<Rightarrow> ServiceKey \<Rightarrow> Address set) \<Rightarrow> bool" where
  "kube_quiet E view \<longleftrightarrow>
     (\<forall>x t. view (exec (Client_StatusUpdateSD E x) t) = view t) \<and> (\<forall>x t. view (exec (Client_GetEndpoints E x) t) = view t) \<and>
     (\<forall>x t. view (exec (Client_GetService E x) t) = view t) \<and> (\<forall>x t. view (exec (Client_ListSD E x) t) = view t) \<and>
     (\<forall>x t. view (exec (Client_ListEndpoints E x) t) = view t)"

definition registry_apart ::
  "'s Kube \<Rightarrow> 's KubeSD \<Rightarrow> 's Net \<Rightarrow> ('c, 's) NamingSDK \<Rightarrow> ('s \<Rightarrow> ServiceKey \<Rightarrow> Address set) \<Rightarrow> ('s \<Rightarrow> bool) \<Rightarrow> bool" where
  "registry_apart K E N S view misled \<longleftrightarrow>
     (\<forall>V. build_keeps (\<lambda>t. view t = V) K N S) \<and> kube_quiet E view \<and> naming_keeps misled K N S \<and> sd_keeps misled E"

lemma registry_apartD:
  assumes "registry_apart K E N S view misled"
  shows "build_keeps (\<lambda>t. view t = V) K N S" "kube_quiet E view" "naming_keeps misled K N S" "sd_keeps misled E"
  using assms by (simp_all add: registry_apart_def)

text \<open>A step that ends where nobody was misled began so.\<close>

lemma not_misled_before:
  "keeps (on_snd I) p \<Longrightarrow> run_state p (m, s) = (r, (m', s')) \<Longrightarrow> \<not> I s' \<Longrightarrow> \<not> I s"
  using not_before [of "on_snd I" p "(m, s)" r "(m', s')"] by simp

lemma label_metadata_mark:
  "mget (si_Metadata info) NamingSyncedMark = Some v \<Longrightarrow> mget (si_Metadata (label_metadata ctx sd info)) NamingSyncedMark = Some v"
  by (simp add: label_metadata_def gomap NamingSyncedMark_def)

lemma label_metadata_sel [simp]:
  "si_ServiceKey (label_metadata ctx sd info) = si_ServiceKey info" "si_Port (label_metadata ctx sd info) = si_Port info"
  by (simp_all add: label_metadata_def)

text \<open>Synchronising Endpoints to one ServiceDiscovery assigns their addresses to the service.\<close>

lemma sync_instance_exact:
  assumes reg: "\<And>c. result (BuildNamingClient K N S ctx (Some sd)) (m, s) = Inr c \<Longrightarrow> naming_registry N S c view misled"
    and mark: "mget (si_Metadata info) NamingSyncedMark = Some ''true''"
    and order: "some_order rng"
    and apart: "registry_apart K E N S view misled"
    and run: "run_state (SyncInstanceToNacos K E N S rng ctx es info sd) (m, s) = (Ok (None, info'), (m', s'))"
    and truth: "\<not> misled s'"
  shows "view s' = (view s)(si_ServiceKey info := set (wanted_addresses es info))"
proof -
  let ?info = "label_metadata ctx sd info"
  note quiet = registry_apartD [OF apart]
  have "ConvertToAddresses es info \<noteq> Panic" using run by (auto simp: SyncInstanceToNacos_def)
  then have conv: "ConvertToAddresses es info = Ok (wanted_addresses es info)"
    by (simp add: ConvertToAddresses_cases split: if_splits)
  obtain b m1 s1 where build: "run_state (BuildNamingClient K N S ctx (Some sd)) (m, s) = (b, (m1, s1))"
    by (metis prod.collapse)
  then obtain c where c: "b = Inr c"
    using run by (cases b) (auto simp: SyncInstanceToNacos_def conv Let_def)
  have v1: "view s1 = view s"
    using keepsD [OF keeps_Build [OF quiet(1)], of "view s" "(m, s)" ctx "Some sd"] build by simp
  obtain g s2 where reg2: "run_state (RegisterServiceInstances N S rng c ?info (wanted_addresses es info)) s1 = (g, s2)" by force
  have g: "g = Ok True"
    using run build c reg2 by (auto simp: SyncInstanceToNacos_def conv Let_def run_bindO run_outside split: outcome.splits if_splits)
  have s': "s' = exec (Client_StatusUpdateSD E (set_sync_status ?info (Now K s2) sd)) s2"
    using run build c reg2 g by (auto simp: SyncInstanceToNacos_def conv Let_def run_bindO run_outside split: prod.splits)
  have "keeps misled (Client_StatusUpdateSD E x)" for x using quiet(4) by (simp add: sd_keeps_def)
  then have "\<not> misled s2" using s' truth keepsD by metis
  have "view s' = view s2" using s' quiet(2) by (simp add: kube_quiet_def)
  also have "\<dots> = (view s1)(si_ServiceKey ?info := set (wanted_addresses es info))"
    using registration_exact [OF reg order label_metadata_mark [OF mark] reg2 [unfolded g] \<open>\<not> misled s2\<close>] build c by simp
  finally show ?thesis using v1 by simp
qed

lemma demo_registration_labelled:
  "run_state (RegisterServiceInstances demo_net demo_naming_sdk rev demo_naming_client (label_metadata ctx sd demo_info) [demo_address ''a''])
     (False, t) = (Ok True, (True, t))"
proof -
  have "nnc_httpSdk demo_naming_client = demo_http" by (simp add: demo_naming_client_def)
  then show ?thesis
    by (simp add: RegisterServiceInstances_def GetAllInstances_def run_bindO demo_health demo_instances diffAddresses_def
        register_instance_def demo_naming_sdk_def demo_address_def)
qed

lemma demo_wanted:
  "ConvertToAddresses demo_endpoints demo_info = Ok [demo_address ''a'']" "wanted_addresses demo_endpoints demo_info = [demo_address ''a'']"
proof -
  have "signed (80 :: 32 word) = (80 :: 64 word)" by code_simp
  then show "wanted_addresses demo_endpoints demo_info = [demo_address ''a'']"
    by (simp add: wanted_addresses_def demo_endpoints_def demo_info_def demo_address_def)
  then show "ConvertToAddresses demo_endpoints demo_info = Ok [demo_address ''a'']"
    by (simp add: ConvertToAddresses_cases demo_endpoints_def)
qed

definition demo_sd_synced :: ServiceDiscovery where
  "demo_sd_synced = set_sync_status (label_metadata ''ctx'' demo_sd_deleted demo_info) 0 demo_sd_deleted"

lemma demo_sync:
  "run_state (SyncInstanceToNacos demo_naming_kube demo_kube_sd demo_net demo_naming_sdk rev ''ctx'' demo_endpoints demo_info demo_sd_deleted)
     ([], (False, x)) = (Ok (None, label_metadata ''ctx'' demo_sd_deleted demo_info),
       ([(''h:8848-public'', demo_naming_client)], (True, Some demo_sd_synced)))"
proof -
  have "Now (demo_naming_kube :: (bool \<times> ServiceDiscovery option) Kube) = (\<lambda>_. 0)" by (simp add: api_server_def demo_cluster_def)
  moreover have "sd_Finalizers (set_sync_status info now sd) = sd_Finalizers sd" for info now sd by (simp add: set_sync_status_def)
  ultimately show ?thesis
    by (simp add: SyncInstanceToNacos_def demo_wanted Let_def demo_build_naming_any [OF demo_sd_deleted_sel(1)] run_bindO run_outside
        demo_registration_labelled demo_kube_sd_def store_sd_def demo_sd_deleted_sel demo_sd_synced_def)
qed

section \<open>Updates\<close>

text \<open>
  Once a ServiceDiscovery that names no services has its finalizer, an update of it only builds the client: none of the
  services of its namespace is synchronised, though the first reconciliation synchronises them all.
\<close>

theorem SD_update_without_services:
  assumes "run_state (Client_GetSD E req) s = (Inr sd, s1)" and "sd_finalizer \<in> set (sd_Finalizers sd)"
    and "om_DeletionTimestamp (sd_Meta sd) = None" and "sd_Services sd = []"
  shows "run_state (SD_Reconcile K E N S rng ctx req) (m, s) =
    (case run_state (BuildNamingClient K N S ctx (Some sd)) (m, s1) of
       (Inl err, w) \<Rightarrow> (Ok (Some err), w) | (Inr _, w) \<Rightarrow> (Ok None, w))"
  using assms by (simp add: SD_Reconcile_def run_outside split: prod.split sum.split)

theorem SD_update_without_services_witness:
  "run_state (SD_Reconcile demo_naming_kube demo_kube_sd demo_net demo_naming_sdk rev ''ctx'' demo_key)
     ([], (False, Some (demo_sd_deleted\<lparr>sd_Meta := (sd_Meta demo_sd_deleted)\<lparr>om_DeletionTimestamp := None\<rparr>\<rparr>))) =
   (Ok None, ([(''h:8848-public'', demo_naming_client)],
     (False, Some (demo_sd_deleted\<lparr>sd_Meta := (sd_Meta demo_sd_deleted)\<lparr>om_DeletionTimestamp := None\<rparr>\<rparr>))))"
proof -
  let ?sd = "demo_sd_deleted\<lparr>sd_Meta := (sd_Meta demo_sd_deleted)\<lparr>om_DeletionTimestamp := None\<rparr>\<rparr>"
  have "run_state (Client_GetSD demo_kube_sd demo_key) (False, Some ?sd) = (Inr ?sd, (False, Some ?sd))"
    by (simp add: demo_kube_sd_def)
  moreover have "sd_Services ?sd = []" by (simp add: demo_sd_deleted_def set_sync_status_def demo_sd_def)
  moreover have "sd_NacosServer ?sd = \<lparr>ns_Endpoint = [], ns_ServerAddr = ''h:8848'', ns_Namespace = ''public'', ns_AuthRef = None\<rparr>"
    using demo_sd_deleted_sel(1) by simp
  ultimately show ?thesis
    using SD_update_without_services [of demo_kube_sd demo_key "(False, Some ?sd)" ?sd "(False, Some ?sd)"
        demo_naming_kube demo_net demo_naming_sdk rev "''ctx''" "[]"]
    by (simp add: demo_build_naming_any demo_sd_deleted_sel)
qed

section \<open>Endpoint reconciliation\<close>

text \<open>Every cached client, and every one that could be built for one of the resources, works on the registry \<open>view\<close>.\<close>

definition good_cache ::
  "'s Net \<Rightarrow> ('c, 's) NamingSDK \<Rightarrow> ('s \<Rightarrow> ServiceKey \<Rightarrow> Address set) \<Rightarrow> ('s \<Rightarrow> bool) \<Rightarrow> 'c NacosNamingClient client_cache \<Rightarrow> bool" where
  "good_cache N S view misled m \<longleftrightarrow> (\<forall>(k, c)\<in>set m. naming_registry N S c view misled)"

definition builds_good ::
  "'s Kube \<Rightarrow> 's Net \<Rightarrow> ('c, 's) NamingSDK \<Rightarrow> string \<Rightarrow> ('s \<Rightarrow> ServiceKey \<Rightarrow> Address set) \<Rightarrow> ('s \<Rightarrow> bool) \<Rightarrow> ServiceDiscovery \<Rightarrow> bool" where
  "builds_good K N S ctx view misled sd \<longleftrightarrow>
     (\<forall>s c. result (BuildNamingClient K N S ctx (Some sd)) ([], s) = Inr c \<longrightarrow> naming_registry N S c view misled)"

lemma build_miss:
  "mget m (naming_cacheKey (sd_NacosServer sd)) = None \<Longrightarrow>
   result (BuildNamingClient K N S ctx (Some sd)) (m, s) = result (BuildNamingClient K N S ctx (Some sd)) ([], s)"
  by (simp add: BuildNamingClient_def Let_def run_outside split: prod.split sum.split)

lemma build_good:
  assumes "good_cache N S view misled m" and "builds_good K N S ctx view misled sd"
    and "run_state (BuildNamingClient K N S ctx (Some sd)) (m, s) = (r, (m', s'))"
  shows "good_cache N S view misled m'" and "r = Inr c \<Longrightarrow> naming_registry N S c view misled"
proof -
  have "good_cache N S view misled m' \<and> (\<forall>c. r = Inr c \<longrightarrow> naming_registry N S c view misled)"
    using assms(3)
  proof (cases rule: BuildNamingClient_cases)
    case (hit c)
    then show ?thesis using assms(1) by (auto simp: good_cache_def dest!: map_of_SomeD)
  next
    case (built p nc h s1 s2)
    then have "naming_registry N S \<lparr>nnc_client = nc, nnc_servicesMap = [], nnc_httpSdk = h\<rparr> view misled"
      using assms(2,3) build_miss [OF built(1), of K N S ctx s] by (simp add: builds_good_def)
    then show ?thesis using built assms(1) by (auto simp: good_cache_def dest!: subsetD [OF set_mput])
  qed (use assms(1) in auto)
  then show "good_cache N S view misled m'" and "r = Inr c \<Longrightarrow> naming_registry N S c view misled" by blast+
qed

lemma sync_instance_cache:
  assumes "good_cache N S view misled m" and "builds_good K N S ctx view misled sd"
    and "run_state (SyncInstanceToNacos K E N S rng ctx es info sd) (m, s) = (Ok (e, info'), (m', s'))"
  shows "good_cache N S view misled m'" and "info' = label_metadata ctx sd info"
proof -
  obtain b m1 s1 where build: "run_state (BuildNamingClient K N S ctx (Some sd)) (m, s) = (b, (m1, s1))"
    by (metis prod.collapse)
  have "m' = m1 \<and> info' = label_metadata ctx sd info"
    using assms(3) build
    by (auto simp: SyncInstanceToNacos_def Let_def run_bindO run_outside split: outcome.splits sum.splits prod.splits if_splits)
  then show "good_cache N S view misled m'" and "info' = label_metadata ctx sd info"
    using build_good(1) [OF assms(1,2) build] by auto
qed

lemma wanted_label [simp]: "wanted_addresses es (label_metadata ctx sd info) = wanted_addresses es info"
  unfolding wanted_addresses_def label_metadata_sel by (rule refl)

lemma sync_to_each_exact:
  assumes apart: "registry_apart K E N S view misled" and order: "some_order rng"
  shows "good_cache N S view misled m \<Longrightarrow> \<forall>sd\<in>set sds. builds_good K N S ctx view misled sd \<Longrightarrow>
    mget (si_Metadata info) NamingSyncedMark = Some ''true'' \<Longrightarrow>
    run_state (sync_to_each K E N S rng ctx es info sds) (m, s) = (Ok None, (m', s')) \<Longrightarrow> \<not> misled s' \<Longrightarrow>
    view s' = (if \<exists>sd\<in>set sds. ns_ServerAddr (sd_NacosServer sd) \<noteq> []
               then (view s)(si_ServiceKey info := set (wanted_addresses es info)) else view s)"
proof (induction sds arbitrary: m s info)
  case (Cons sd sds)
  show ?case
  proof (cases "ns_ServerAddr (sd_NacosServer sd) = []")
    case False
    obtain info' m1 s1 where one: "run_state (SyncInstanceToNacos K E N S rng ctx es info sd) (m, s) = (Ok (None, info'), (m1, s1))"
      and rest: "run_state (sync_to_each K E N S rng ctx es info' sds) (m1, s1) = (Ok None, (m', s'))"
      using Cons.prems(4) False by (auto simp: run_bindO split: prod.splits outcome.splits option.splits)
    have good: "good_cache N S view misled m1" and info': "info' = label_metadata ctx sd info"
      using sync_instance_cache [OF Cons.prems(1) _ one] Cons.prems(2) by simp_all
    have "naming_registry N S c view misled" if "result (BuildNamingClient K N S ctx (Some sd)) (m, s) = Inr c" for c
      using build_good(2) [OF Cons.prems(1), of K ctx sd s] Cons.prems(2) that by (metis list.set_intros(1) prod.collapse)
    moreover have "\<not> misled s1"
      by (rule not_misled_before [OF keeps_reconciliations(4) [OF registry_apartD(3,4) [OF apart]] rest Cons.prems(5)])
    ultimately have "view s1 = (view s)(si_ServiceKey info := set (wanted_addresses es info))"
      using sync_instance_exact [OF _ Cons.prems(3) order apart one] by blast
    moreover have "mget (si_Metadata info') NamingSyncedMark = Some ''true''"
      using label_metadata_mark [OF Cons.prems(3)] info' by simp
    ultimately show ?thesis
      using Cons.IH [OF good _ _ rest Cons.prems(5)] Cons.prems(2) False info' by auto
  qed (use Cons in auto)
qed simp

lemma GenerateServiceInfo_mark:
  "GenerateServiceInfo svc = Ok (Inr info) \<Longrightarrow> mget (si_Metadata info) NamingSyncedMark = Some ''true''"
  by (auto simp: GenerateServiceInfo_def Let_def gomap split: sum.splits option.splits)

lemma endpoint_reconcile_exact:
  assumes apart: "registry_apart K E N S view misled" and order: "some_order rng"
    and cache: "good_cache N S view misled m"
    and ep: "run_state (Client_GetEndpoints E req) s = (r1, s1)" "endpoints_or_empty req r1 = Inr es"
    and sds: "run_state (Client_ListSD E (om_Namespace (ep_Meta es))) s1 = (Inr items, s2)"
      "\<forall>sd\<in>set items. builds_good K N S ctx view misled sd" "\<exists>sd\<in>set items. selects (om_Name (ep_Meta es)) sd"
    and svc: "run_state (Client_GetService E \<lparr>nn_Namespace = om_Namespace (ep_Meta es), nn_Name = om_Name (ep_Meta es)\<rparr>) s2 = (r3, s3)"
      "service_or_bare (ep_Meta es) r3 = Inr v" "GenerateServiceInfo v = Ok (Inr info)"
    and run: "run_state (EndpointReconciler_Reconcile K E N S rng ctx req) (m, s) = (Ok None, (m', s'))" and truth: "\<not> misled s'"
  shows "view s' = (if \<exists>sd\<in>set items. selects (om_Name (ep_Meta es)) sd \<and> ns_ServerAddr (sd_NacosServer sd) \<noteq> []
    then (view s)(si_ServiceKey info := set (wanted_addresses es info)) else view s)"
proof -
  let ?sds = "filter (selects (om_Name (ep_Meta es))) items"
  note quiet = registry_apartD [OF apart]
  have "view s3 = view s" using quiet(2) ep(1) sds(1) svc(1) unfolding kube_quiet_def by (metis snd_conv)
  moreover have "?sds \<noteq> []" using sds(3) by (auto simp: filter_empty_conv)
  then have "run_state (sync_to_each K E N S rng ctx es info ?sds) (m, s3) = (Ok None, (m', s'))"
    using run ep sds(1) svc by (simp add: EndpointReconciler_Reconcile_def run_outside Let_def)
  moreover have "\<forall>sd\<in>set ?sds. builds_good K N S ctx view misled sd" using sds(2) by simp
  ultimately show ?thesis
    using sync_to_each_exact [OF apart order cache _ GenerateServiceInfo_mark [OF svc(3)] _ truth] by (fastforce split: if_splits)
qed

text \<open>
  C9: when the Endpoints and the Service exist and a ServiceDiscovery with a server address selects them, a reconciliation
  that ends without an error, and in which no misleading answer was taken for a listing, leaves in Nacos exactly the addresses of the
  Endpoints as the marked instances of the service the annotations name, and every other service as it was, however many
  ServiceDiscoveries select it.  All of them work on one registry.
\<close>

theorem EndpointReconciler_converges:
  assumes "registry_apart K E N S view misled" and "some_order rng"
    and "good_cache N S view misled m"
    and "run_state (Client_GetEndpoints E req) s = (Inr es, s1)"
    and "run_state (Client_ListSD E (om_Namespace (ep_Meta es))) s1 = (Inr items, s2)"
    and "\<forall>sd\<in>set items. builds_good K N S ctx view misled sd"
    and "\<exists>sd\<in>set items. selects (om_Name (ep_Meta es)) sd \<and> ns_ServerAddr (sd_NacosServer sd) \<noteq> []"
    and "run_state (Client_GetService E \<lparr>nn_Namespace = om_Namespace (ep_Meta es), nn_Name = om_Name (ep_Meta es)\<rparr>) s2 = (Inr svc, s3)"
    and "GenerateServiceInfo svc = Ok (Inr info)"
    and "run_state (EndpointReconciler_Reconcile K E N S rng ctx req) (m, s) = (Ok None, (m', s'))" and "\<not> misled s'"
  shows "view s' = (view s)(si_ServiceKey info := set (wanted_addresses es info))"
proof -
  have "endpoints_or_empty req (Inr es) = Inr es" "service_or_bare (ep_Meta es) (Inr svc) = Inr svc"
    by (simp_all add: endpoints_or_empty_def service_or_bare_def)
  moreover have "\<exists>sd\<in>set items. selects (om_Name (ep_Meta es)) sd" using assms(7) by blast
  ultimately show ?thesis
    using endpoint_reconcile_exact [OF assms(1-4) _ assms(5,6) _ assms(8) _ assms(9-11)] assms(7) by simp
qed

text \<open>
  C40: when a Service and its Endpoints are both gone, a reconciliation that ends without an error, and in which no misleading answer was
  taken for a listing, withdraws all marked instances of the service with the resource's own name in the default group, if a
  ServiceDiscovery with a server address selects that name, and those of no other service: what was registered under an annotated
  name or group stays in Nacos.
\<close>

theorem deleted_service_leaves_instances:
  assumes "registry_apart K E N S view misled" and "some_order rng"
    and "good_cache N S view misled m"
    and "run_state (Client_GetEndpoints E req) s = (Inl e1, s1)" and "IsNotFound e1"
    and "run_state (Client_ListSD E (nn_Namespace req)) s1 = (Inr items, s2)"
    and "\<forall>sd\<in>set items. builds_good K N S ctx view misled sd"
    and "run_state (Client_GetService E req) s2 = (Inl e3, s3)" and "IsNotFound e3"
    and "run_state (EndpointReconciler_Reconcile K E N S rng ctx req) (m, s) = (Ok None, (m', s'))" and "\<not> misled s'"
  shows "view s' = (if \<exists>sd\<in>set items. selects (nn_Name req) sd \<and> ns_ServerAddr (sd_NacosServer sd) \<noteq> []
    then (view s)(\<lparr>sk_ServiceName = nn_Name req, sk_Group = NamingDefaultGroupName\<rparr> := {}) else view s)"
proof (cases "\<exists>sd\<in>set items. selects (nn_Name req) sd")
  case True
  let ?m = "zero_meta\<lparr>om_Name := nn_Name req, om_Namespace := nn_Namespace req\<rparr>"
  let ?es = "\<lparr>ep_Meta = ?m, ep_Subsets = []\<rparr>"
  let ?svc = "\<lparr>svc_Meta = ?m, svc_Annotations = []\<rparr>"
  have gone: "endpoints_or_empty req (Inl e1) = Inr ?es" "service_or_bare (ep_Meta ?es) (Inl e3) = Inr ?svc"
    using assms(5,9) by (simp_all add: endpoints_or_empty_def service_or_bare_def)
  obtain info where info: "GenerateServiceInfo ?svc = Ok (Inr info)"
    "si_ServiceKey info = \<lparr>sk_ServiceName = nn_Name req, sk_Group = NamingDefaultGroupName\<rparr>"
    by (simp add: GenerateServiceInfo_def mget0_def)
  have req: "\<lparr>nn_Namespace = nn_Namespace req, nn_Name = nn_Name req\<rparr> = req" by simp
  have "view s' = (if \<exists>sd\<in>set items. selects (om_Name (ep_Meta ?es)) sd \<and> ns_ServerAddr (sd_NacosServer sd) \<noteq> []
      then (view s)(si_ServiceKey info := set (wanted_addresses ?es info)) else view s)"
    by (rule endpoint_reconcile_exact [OF assms(1-4) gone(1) _ assms(7) _ _ gone(2) info(1) assms(10,11)])
       (use assms(6,8) True in \<open>simp_all add: req\<close>)
  moreover have "wanted_addresses ?es info = []" by (simp add: wanted_addresses_def)
  moreover have "om_Name (ep_Meta ?es) = nn_Name req" by simp
  ultimately show ?thesis unfolding info(2) by (simp only: list.set(1))
next
  case False
  then have "filter (selects (nn_Name req)) items = []" by (simp add: filter_empty_conv)
  then have "s' = s2"
    using assms(4,5,6,10) by (simp add: EndpointReconciler_Reconcile_def run_outside endpoints_or_empty_def Let_def)
  then have "view s' = view s"
    using registry_apartD(2) [OF assms(1)] assms(4,6) unfolding kube_quiet_def by (metis snd_conv)
  then show ?thesis using False by auto
qed

text \<open>The example registry with the ServiceDiscovery stored, and the same when the Service and its Endpoints are gone.\<close>

definition demo_gone :: "(bool \<times> ServiceDiscovery option) KubeSD" where
  "demo_gone = demo_kube_sd\<lparr>Client_GetEndpoints := (\<lambda>_. ret (Inl (ErrNotFound ''gone''))),
     Client_GetService := (\<lambda>_. ret (Inl (ErrNotFound ''gone'')))\<rparr>"

lemma demo_builds_good:
  "builds_good demo_naming_kube (demo_net :: (bool \<times> ServiceDiscovery option) Net) demo_naming_sdk ctx demo_registered (\<lambda>_. False) demo_sd_deleted"
  using demo_naming_registry by (simp add: builds_good_def demo_build_naming_any [OF demo_sd_deleted_sel(1)])

lemma never_misled_kube: "naming_keeps (\<lambda>_. False) K N S" "sd_keeps (\<lambda>_. False) E"
  by (simp_all add: naming_keeps_def build_keeps_def sd_keeps_def never_misled)

lemma demo_apart:
  "registry_apart demo_naming_kube demo_kube_sd (demo_net :: (bool \<times> ServiceDiscovery option) Net) demo_naming_sdk demo_registered (\<lambda>_. False)"
  "registry_apart demo_naming_kube demo_gone (demo_net :: (bool \<times> ServiceDiscovery option) Net) demo_naming_sdk demo_registered (\<lambda>_. False)"
  using demo_quiet(1) by (simp_all add: registry_apart_def never_misled_kube kube_quiet_def demo_kube_sd_def demo_gone_def demo_quiet(2))

lemma demo_selects: "selects n demo_sd_deleted" "ns_ServerAddr (sd_NacosServer demo_sd_deleted) \<noteq> []"
  by (simp_all add: selects_def demo_sd_deleted_def set_sync_status_def demo_sd_def)

lemma demo_order: "some_order (rev :: Address list \<Rightarrow> Address list)"
  by (simp add: some_order_def)

theorem EndpointReconciler_converges_witness:
  "run_state (EndpointReconciler_Reconcile demo_naming_kube demo_kube_sd demo_net demo_naming_sdk rev ''ctx''
       \<lparr>nn_Namespace = ''ns'', nn_Name = ''web''\<rparr>) ([], (False, Some demo_sd_deleted)) =
     (Ok None, ([(''h:8848-public'', demo_naming_client)], (True, Some demo_sd_synced))) \<and>
   demo_registered (True, Some demo_sd_synced) (si_ServiceKey demo_info) = {demo_address ''a''}"
proof -
  have calls: "run_state (Client_GetEndpoints demo_kube_sd k) s = (Inr demo_endpoints, s)"
    "run_state (Client_ListSD demo_kube_sd ns) (b, Some demo_sd_deleted) = (Inr [demo_sd_deleted], (b, Some demo_sd_deleted))"
    "run_state (Client_GetService demo_kube_sd k) s = (Inr (demo_service [(''nacos.io/service-group'', ''g''), (''team'', ''a'')]), s)"
    for k s ns b by (simp_all add: demo_kube_sd_def)
  have run: "run_state (EndpointReconciler_Reconcile demo_naming_kube demo_kube_sd demo_net demo_naming_sdk rev ''ctx''
       \<lparr>nn_Namespace = ''ns'', nn_Name = ''web''\<rparr>) ([], (False, Some demo_sd_deleted)) =
     (Ok None, ([(''h:8848-public'', demo_naming_client)], (True, Some demo_sd_synced)))"
    by (simp add: EndpointReconciler_Reconcile_def run_outside calls endpoints_or_empty_def service_or_bare_def demo_selects
        demo_service_info run_bindO demo_sync)
  have "demo_registered (True, Some demo_sd_synced) =
      (demo_registered (False, Some demo_sd_deleted))(si_ServiceKey demo_info := set (wanted_addresses demo_endpoints demo_info))"
    by (rule EndpointReconciler_converges [OF demo_apart(1) demo_order _ calls(1) calls(2) _ _ calls(3) demo_service_info run])
       (simp_all add: good_cache_def demo_builds_good demo_selects)
  then show ?thesis using run by (simp add: demo_wanted)
qed

lemma demo_instances_other:
  assumes "key \<noteq> si_ServiceKey demo_info"
  shows "run_state (Http_GetAllInstances demo_net demo_http key) s = (Ok (Inr []), s)"
proof -
  have "length (list_params demo_http key) > 0"
    by (simp add: list_params_def make_params_def Values_Add_def)
  moreover have "hs_isV3 demo_http = False" by (simp add: demo_http_def)
  moreover have "run_state (pick_address demo_net demo_http) s = (Ok ''h:8848'', s)"
    by (simp add: pick_address_def demo_net_def demo_http_def)
  ultimately show ?thesis
    using demo_listing_read(2) [of False] assms
    by (simp add: Http_GetAllInstances_def run_bindO Let_def demo_response read_listing_def demo_listing_read(1) list_query_iff)
qed

definition demo_bare_info :: ServiceInfo where
  "demo_bare_info = \<lparr>si_ServiceKey = \<lparr>sk_ServiceName = ''web'', sk_Group = NamingDefaultGroupName\<rparr>, si_Port = 0,
     si_Metadata = [(NamingSyncedMark, ''true'')]\<rparr>"

lemma demo_bare:
  "GenerateServiceInfo \<lparr>svc_Meta = zero_meta\<lparr>om_Name := ''web'', om_Namespace := ''ns''\<rparr>, svc_Annotations = []\<rparr> = Ok (Inr demo_bare_info)"
  "si_ServiceKey demo_bare_info \<noteq> si_ServiceKey demo_info"
  by (simp_all add: GenerateServiceInfo_def mget0_def ParseUint_def copy_annotations_def demo_bare_info_def demo_info_def NamingDefaultGroupName_def)

lemma demo_gone_registration:
  "run_state (RegisterServiceInstances demo_net demo_naming_sdk rev demo_naming_client (label_metadata ctx sd demo_bare_info) []) s = (Ok True, s)"
proof -
  have "nnc_httpSdk demo_naming_client = demo_http" by (simp add: demo_naming_client_def)
  then show ?thesis
    by (simp add: RegisterServiceInstances_def GetAllInstances_def run_bindO demo_health demo_instances_other demo_bare(2) diffAddresses_def)
qed

theorem deleted_service_leaves_instances_witness:
  "\<exists>m sd. run_state (EndpointReconciler_Reconcile demo_naming_kube demo_gone demo_net demo_naming_sdk rev ''ctx''
       \<lparr>nn_Namespace = ''ns'', nn_Name = ''web''\<rparr>) ([], (True, Some demo_sd_deleted)) = (Ok None, (m, (True, sd))) \<and>
     demo_registered (True, sd) (si_ServiceKey demo_info) = {demo_address ''a''}"
proof -
  let ?req = "\<lparr>nn_Namespace = ''ns'', nn_Name = ''web''\<rparr>"
  let ?es = "\<lparr>ep_Meta = zero_meta\<lparr>om_Name := ''web'', om_Namespace := ''ns''\<rparr>, ep_Subsets = []\<rparr>"
  have calls: "run_state (Client_GetEndpoints demo_gone k) s = (Inl (ErrNotFound ''gone''), s)"
    "run_state (Client_ListSD demo_gone ns) (b, Some demo_sd_deleted) = (Inr [demo_sd_deleted], (b, Some demo_sd_deleted))"
    "run_state (Client_GetService demo_gone k) s = (Inl (ErrNotFound ''gone''), s)"
    for k s ns b by (simp_all add: demo_gone_def demo_kube_sd_def)
  have "\<exists>sd. run_state (SyncInstanceToNacos demo_naming_kube demo_gone demo_net demo_naming_sdk rev ''ctx'' ?es demo_bare_info demo_sd_deleted)
      ([], (True, Some demo_sd_deleted)) =
    (Ok (None, label_metadata ''ctx'' demo_sd_deleted demo_bare_info), ([(''h:8848-public'', demo_naming_client)], (True, sd)))"
    by (simp add: SyncInstanceToNacos_def ConvertToAddresses_def Let_def demo_build_naming_any [OF demo_sd_deleted_sel(1)] run_bindO
        run_outside demo_gone_registration demo_gone_def demo_kube_sd_def store_sd_def)
  then obtain sd where run: "run_state (EndpointReconciler_Reconcile demo_naming_kube demo_gone demo_net demo_naming_sdk rev ''ctx'' ?req)
      ([], (True, Some demo_sd_deleted)) = (Ok None, ([(''h:8848-public'', demo_naming_client)], (True, sd)))"
    by (auto simp: EndpointReconciler_Reconcile_def run_outside calls endpoints_or_empty_def service_or_bare_def demo_selects demo_bare(1)
        run_bindO)
  have "demo_registered (True, sd) = (if \<exists>sd\<in>set [demo_sd_deleted]. selects (nn_Name ?req) sd \<and> ns_ServerAddr (sd_NacosServer sd) \<noteq> []
      then (demo_registered (True, Some demo_sd_deleted))(\<lparr>sk_ServiceName = nn_Name ?req, sk_Group = NamingDefaultGroupName\<rparr> := {})
      else demo_registered (True, Some demo_sd_deleted))"
    by (rule deleted_service_leaves_instances [OF demo_apart(2) demo_order _ calls(1) _ calls(2) _ calls(3) _ run])
       (simp_all add: good_cache_def demo_builds_good)
  then have "demo_registered (True, sd) (si_ServiceKey demo_info) = demo_registered (True, Some demo_sd_deleted) (si_ServiceKey demo_info)"
    using demo_bare(2) by (simp add: demo_bare_info_def)
  then show ?thesis using run by (auto simp: demo_registered_def)
qed

section \<open>The first synchronisation of a ServiceDiscovery\<close>

text \<open>The API server answers reads of Services and Endpoints from what it stores, if it answers, and nobody changes that meanwhile.\<close>

definition serves ::
  "'s KubeSD \<Rightarrow> (NamespacedName \<Rightarrow> Service) \<Rightarrow> (NamespacedName \<Rightarrow> Endpoints) \<Rightarrow> (string \<Rightarrow> Endpoints list) \<Rightarrow> bool" where
  "serves E svcs eps listed \<longleftrightarrow>
     (\<forall>k t v. result (Client_GetService E k) t = Inr v \<longrightarrow> v = svcs k) \<and>
     (\<forall>k t v. result (Client_GetEndpoints E k) t = Inr v \<longrightarrow> v = eps k) \<and>
     (\<forall>ns t v. result (Client_ListEndpoints E ns) t = Inr v \<longrightarrow> v = listed ns)"

text \<open>The Endpoints a ServiceDiscovery selects, and the registry with each of their services assigned in turn.\<close>

definition selected_endpoints ::
  "(NamespacedName \<Rightarrow> Endpoints) \<Rightarrow> (string \<Rightarrow> Endpoints list) \<Rightarrow> ServiceDiscovery \<Rightarrow> Endpoints list" where
  "selected_endpoints eps listed sd =
     (if sd_Services sd = [] then listed (sd_Namespace sd)
      else map (\<lambda>n. eps \<lparr>nn_Namespace = sd_Namespace sd, nn_Name = n\<rparr>) (sd_Services sd))"

fun assigned ::
  "(NamespacedName \<Rightarrow> Service) \<Rightarrow> Endpoints list \<Rightarrow> (ServiceKey \<Rightarrow> Address set) \<Rightarrow> ServiceKey \<Rightarrow> Address set" where
  "assigned svcs [] V = V"
| "assigned svcs (ep # eps) V =
     (case GenerateServiceInfo (svcs \<lparr>nn_Namespace = om_Namespace (ep_Meta ep), nn_Name = om_Name (ep_Meta ep)\<rparr>) of
        Ok (Inr info) \<Rightarrow> assigned svcs eps (V(si_ServiceKey info := set (wanted_addresses ep info)))
      | _ \<Rightarrow> assigned svcs eps V)"

lemma syncEndponits_exact:
  assumes reg: "naming_registry N S c view misled" and order: "some_order rng"
    and apart: "registry_apart K E N S view misled" and serves: "serves E svcs eps listed"
  shows "run_state (syncEndponits K E N S rng ctx es c sd) (m, s) = (Ok None, (m', s')) \<Longrightarrow> \<not> misled s' \<Longrightarrow>
    view s' = assigned svcs es (view s)"
proof (induction es arbitrary: sd s)
  case (Cons ep es)
  note quiet = registry_apartD [OF apart]
  let ?k = "\<lparr>nn_Namespace = om_Namespace (ep_Meta ep), nn_Name = om_Name (ep_Meta ep)\<rparr>"
  obtain r s1 where get: "run_state (Client_GetService E ?k) s = (r, s1)" by force
  then obtain svc where r: "r = Inr svc" using Cons.prems(1) by (cases r) (auto simp: run_outside)
  have svc: "svc = svcs ?k" using serves get r unfolding serves_def by (metis fst_conv)
  obtain info where info: "GenerateServiceInfo (svcs ?k) = Ok (Inr info)"
    using Cons.prems(1) get r svc by (auto simp: run_outside split: outcome.splits sum.splits)
  let ?info = "label_metadata ctx sd info"
  have "ConvertToAddresses ep ?info \<noteq> Panic" using Cons.prems(1) get r svc info by (auto simp: run_outside Let_def)
  then have conv: "ConvertToAddresses ep ?info = Ok (wanted_addresses ep info)"
    by (simp add: ConvertToAddresses_cases split: if_splits)
  obtain g s2 where reg2: "run_state (RegisterServiceInstances N S rng c ?info (wanted_addresses ep info)) s1 = (g, s2)" by force
  have g: "g = Ok True"
    using Cons.prems(1) get r svc info conv reg2 by (auto simp: run_outside Let_def run_bindO split: outcome.splits if_splits)
  obtain u s3 where upd: "run_state (Client_StatusUpdateSD E (set_sync_status ?info (Now K s2) sd)) s2 = (u, s3)" by force
  obtain sd' where u: "u = Inr sd'" and rest: "run_state (syncEndponits K E N S rng ctx es c sd') (m, s3) = (Ok None, (m', s'))"
    using Cons.prems(1) get r svc info conv reg2 g upd by (cases u) (auto simp: run_outside Let_def run_bindO)
  have "\<not> misled s3"
    by (rule not_misled_before [OF keeps_reconciliations(1) [OF quiet(3,4)] rest Cons.prems(2)])
  moreover have "keeps misled (Client_StatusUpdateSD E x)" for x using quiet(4) by (simp add: sd_keeps_def)
  ultimately have "\<not> misled s2" using not_before [OF _ upd] by blast
  then have "view s2 = (view s1)(si_ServiceKey ?info := set (wanted_addresses ep info))"
    by (rule registration_exact [OF reg order label_metadata_mark [OF GenerateServiceInfo_mark [OF info]] reg2 [unfolded g]])
  moreover have "view s1 = view s" "view s3 = view s2" using quiet(2) get upd unfolding kube_quiet_def by (metis snd_conv)+
  ultimately have v3: "view s3 = (view s)(si_ServiceKey info := set (wanted_addresses ep info))" by simp
  show ?case unfolding assigned.simps info sum.case outcome.case v3 [symmetric] by (rule Cons.IH [OF rest Cons.prems(2)])
qed simp

lemma get_endpoints_exact:
  assumes quiet: "kube_quiet E view" and serves: "serves E svcs eps listed"
  shows "run_state (get_endpoints E False ns names acc) (m, s) = (Inr es, (m', s')) \<Longrightarrow>
    es = acc @ map (\<lambda>n. eps \<lparr>nn_Namespace = ns, nn_Name = n\<rparr>) names \<and> view s' = view s \<and> m' = m"
proof (induction names arbitrary: acc s)
  case (Cons n names)
  let ?k = "\<lparr>nn_Namespace = ns, nn_Name = n\<rparr>"
  obtain r s1 where get: "run_state (Client_GetEndpoints E ?k) s = (r, s1)" by force
  then obtain ep where r: "r = Inr ep" using Cons.prems by (cases r) (auto simp: run_outside)
  have "ep = eps ?k" using serves get r unfolding serves_def by (metis fst_conv)
  moreover have "view s1 = view s" using quiet get unfolding kube_quiet_def by (metis snd_conv)
  ultimately show ?case using Cons.IH [of "acc @ [ep]" s1] Cons.prems get r by (simp add: run_outside)
qed simp

text \<open>
  C37: a first synchronisation that ends without an error, and in which no misleading answer was taken for a listing, has assigned, one
  after the other, each service that the ServiceDiscovery selects the addresses of its Endpoints, and touched no other.  Of two selected
  Services whose annotations name the same service in Nacos the later one counts.
\<close>

theorem syncExistedService_converges:
  assumes "registry_apart K E N S view misled" and "some_order rng"
    and "good_cache N S view misled m" and "builds_good K N S ctx view misled sd" and "serves E svcs eps listed"
    and "run_state (syncExistedService K E N S rng ctx sd) (m, s) = (Ok None, (m', s'))" and "\<not> misled s'"
  shows "view s' = assigned svcs (selected_endpoints eps listed sd) (view s)"
proof -
  obtain b m1 s1 where build: "run_state (BuildNamingClient K N S ctx (Some sd)) (m, s) = (b, (m1, s1))"
    by (metis prod.collapse)
  then obtain c where c: "b = Inr c" using assms(6) by (cases b) (auto simp: syncExistedService_def)
  have reg: "naming_registry N S c view misled" by (rule build_good(2) [OF assms(3,4) build c])
  have v1: "view s1 = view s"
    using keepsD [OF keeps_Build [OF registry_apartD(1) [OF assms(1)]], of "view s" "(m, s)" ctx "Some sd"] build by simp
  let ?read = "if length (sd_Services sd) > 0 then get_endpoints E False (sd_Namespace sd) (sd_Services sd) []
      else outside (Client_ListEndpoints E (sd_Namespace sd))"
  obtain r m2 s2 where read: "run_state ?read (m1, s1) = (r, (m2, s2))" by (metis prod.collapse)
  then obtain es where r: "r = Inr es"
    using assms(6) build c by (cases r) (auto simp: syncExistedService_def)
  have "es = selected_endpoints eps listed sd \<and> view s2 = view s1"
  proof (cases "sd_Services sd = []")
    case True
    then have "run_state (Client_ListEndpoints E (sd_Namespace sd)) s1 = (Inr es, s2)"
      using read r by (auto simp: run_outside split: prod.splits)
    then show ?thesis using registry_apartD(2) [OF assms(1)] assms(5) True unfolding serves_def kube_quiet_def selected_endpoints_def by (metis fst_conv snd_conv)
  next
    case False
    then show ?thesis using get_endpoints_exact [OF registry_apartD(2) [OF assms(1)] assms(5), of "sd_Namespace sd" "sd_Services sd" "[]" m1 s1 es m2 s2] read r
      by (simp add: selected_endpoints_def)
  qed
  moreover have "run_state (syncEndponits K E N S rng ctx es c sd) (m2, s2) = (Ok None, (m', s'))"
    using assms(6) build c read r by (simp add: syncExistedService_def)
  ultimately show ?thesis using syncEndponits_exact [OF reg assms(2,1,5) _ assms(7)] v1 by metis
qed

definition demo_new :: ServiceDiscovery where
  "demo_new = demo_sd ''sd'' []"

lemma demo_serves:
  "serves demo_kube_sd (\<lambda>_. demo_service [(''nacos.io/service-group'', ''g''), (''team'', ''a'')]) (\<lambda>_. demo_endpoints) (\<lambda>_. [demo_endpoints])"
  by (simp add: serves_def demo_kube_sd_def)

lemma demo_first_sync:
  "\<exists>sd. run_state (syncExistedService demo_naming_kube demo_kube_sd demo_net demo_naming_sdk rev ''ctx'' demo_new) ([], (False, None)) =
     (Ok None, ([(''h:8848-public'', demo_naming_client)], (True, sd)))"
proof -
  have sel: "sd_NacosServer demo_new = \<lparr>ns_Endpoint = [], ns_ServerAddr = ''h:8848'', ns_Namespace = ''public'', ns_AuthRef = None\<rparr>"
    "sd_Services demo_new = []" by (simp_all add: demo_new_def demo_sd_def)
  have "ConvertToAddresses demo_endpoints (label_metadata ctx sd demo_info) = Ok [demo_address ''a'']" for ctx sd
    using demo_wanted by (simp add: ConvertToAddresses_cases demo_endpoints_def)
  then show ?thesis
    by (simp add: syncExistedService_def demo_build_naming_any [OF sel(1)] sel(2) run_outside demo_kube_sd_def demo_service_info
        run_bindO demo_registration_labelled store_sd_def Let_def)
qed

theorem syncExistedService_converges_witness:
  "\<exists>sd. run_state (syncExistedService demo_naming_kube demo_kube_sd demo_net demo_naming_sdk rev ''ctx'' demo_new) ([], (False, None)) =
     (Ok None, ([(''h:8848-public'', demo_naming_client)], (True, sd))) \<and>
   demo_registered (True, sd) (si_ServiceKey demo_info) = {demo_address ''a''}"
proof -
  obtain sd where run: "run_state (syncExistedService demo_naming_kube demo_kube_sd demo_net demo_naming_sdk rev ''ctx'' demo_new) ([], (False, None)) =
     (Ok None, ([(''h:8848-public'', demo_naming_client)], (True, sd)))" using demo_first_sync by blast
  have "builds_good demo_naming_kube (demo_net :: (bool \<times> ServiceDiscovery option) Net) demo_naming_sdk ''ctx'' demo_registered (\<lambda>_. False) demo_new"
    using demo_naming_registry by (simp add: builds_good_def demo_new_def demo_build_naming)
  from syncExistedService_converges [OF demo_apart(1) demo_order _ this demo_serves run]
  have "demo_registered (True, sd) = assigned (\<lambda>_. demo_service [(''nacos.io/service-group'', ''g''), (''team'', ''a'')])
      (selected_endpoints (\<lambda>_. demo_endpoints) (\<lambda>_. [demo_endpoints]) demo_new) (demo_registered (False, None :: ServiceDiscovery option))"
    by (simp add: good_cache_def)
  then have "demo_registered (True, sd) (si_ServiceKey demo_info) = {demo_address ''a''}"
    by (simp add: selected_endpoints_def demo_new_def demo_sd_def demo_service_info demo_wanted)
  then show ?thesis using run by blast
qed

end
