(* ===== verification/SD_Lifecycle.thy ===== *)
theory SD_Lifecycle
  imports Service_Discovery
begin

text \<open>
  The life of one ServiceDiscovery, from its creation to the moment the API server drops it: reconciliations of the resource
  and of Endpoints, in any order, successful or not, and edits of its users.  What its status records is compared with
  what is registered in Nacos, to see which instances can be left behind.
\<close>

section \<open>Recorded services\<close>

definition recorded_services :: "ServiceDiscovery \<Rightarrow> ServiceKey set" where
  "recorded_services sd = {status_service st |k st. mget (sd_SyncStatuses sd) k = Some (Some st) \<and> sss_Ready st}"

text \<open>What synchronisation writes: each entry is ready and filed under the service it stands for, whose name has no \<^verbatim>\<open>@\<close>.\<close>

definition status_ok :: "ServiceDiscovery \<Rightarrow> bool" where
  "status_ok sd \<longleftrightarrow> distinct (mkeys (sd_SyncStatuses sd)) \<and>
     (\<forall>k x. mget (sd_SyncStatuses sd) k = Some x \<longrightarrow>
        (\<exists>st. x = Some st \<and> sss_Ready st \<and> k = ServiceKey_String (status_service st) \<and>
           CHR ''@'' \<notin> set (sk_ServiceName (status_service st))))"

lemma no_at_no_split: "CHR ''@'' \<notin> set s \<Longrightarrow> \<not> StrContains s ''@@''"
  by (induction s) (auto simp: HasPrefix_def)

lemma ServiceKey_String_inj:
  assumes "CHR ''@'' \<notin> set (sk_ServiceName a)" "CHR ''@'' \<notin> set (sk_ServiceName b)"
    and "ServiceKey_String a = ServiceKey_String b"
  shows "a = b"
  using assms(3) append_sep_eq [OF assms(1,2), of "''@'' @ sk_Group a" "''@'' @ sk_Group b"]
  by (cases a, cases b) (simp add: ServiceKey_String_def)

lemma status_ok_set_sync_status:
  assumes "status_ok sd" and "CHR ''@'' \<notin> set (si_ServiceName info)" and "si_Group info \<noteq> []"
  shows "status_ok (set_sync_status info now sd)"
    and "recorded_services (set_sync_status info now sd) = insert (si_ServiceKey info) (recorded_services sd)"
proof -
  define st where "st = \<lparr>sss_ServiceName = si_ServiceName info, sss_GroupName = si_Group info, sss_LastSyncFrom = [],
    sss_LastSyncTime = now, sss_Ready = True, sss_Message = []\<rparr>"
  have sts: "sd_SyncStatuses (set_sync_status info now sd) =
      mput (ServiceKey_String (si_ServiceKey info)) (Some st) (sd_SyncStatuses sd)"
    by (simp add: set_sync_status_def st_def)
  have new: "status_service st = si_ServiceKey info" "sss_Ready st"
    using assms(3) no_at_no_split [OF assms(2)] by (simp_all add: status_service_def st_def)
  have old: "status_service x = si_ServiceKey info"
    if "mget (sd_SyncStatuses sd) (ServiceKey_String (si_ServiceKey info)) = Some (Some x)" for x
    using assms(1,2) that ServiceKey_String_inj [of "status_service x" "si_ServiceKey info"] unfolding status_ok_def by fastforce
  show "status_ok (set_sync_status info now sd)"
    using assms(1,2) new unfolding status_ok_def sts by (auto simp: gomap distinct_update split: if_splits)
  show "recorded_services (set_sync_status info now sd) = insert (si_ServiceKey info) (recorded_services sd)"
  proof (intro set_eqI iffI)
    fix key assume "key \<in> recorded_services (set_sync_status info now sd)"
    then show "key \<in> insert (si_ServiceKey info) (recorded_services sd)"
      unfolding recorded_services_def sts using new by (auto simp: gomap split: if_splits)
  next
    fix key assume key: "key \<in> insert (si_ServiceKey info) (recorded_services sd)"
    show "key \<in> recorded_services (set_sync_status info now sd)"
    proof (cases "key = si_ServiceKey info")
      case True
      then show ?thesis unfolding recorded_services_def sts using new by (auto simp: gomap)
    next
      case False
      then obtain k x where k: "mget (sd_SyncStatuses sd) k = Some (Some x)" "sss_Ready x" "key = status_service x"
        using key by (auto simp: recorded_services_def)
      then have "k \<noteq> ServiceKey_String (si_ServiceKey info)" using old False by auto
      then show ?thesis unfolding recorded_services_def sts using k by (auto simp: gomap)
    qed
  qed
qed

section \<open>Calls that fail\<close>

text \<open>Whether or not it succeeds, a call of the SDK for one service leaves the instances of the others alone.\<close>

definition sdk_local :: "('c, 's) NamingSDK \<Rightarrow> ('s \<Rightarrow> ServiceKey \<Rightarrow> Address set) \<Rightarrow> bool" where
  "sdk_local S view \<longleftrightarrow>
     (\<forall>c p key v. key \<noteq> \<lparr>sk_ServiceName = rip_ServiceName p, sk_Group = rip_GroupName p\<rparr> \<longrightarrow>
        keeps (\<lambda>t. view t key = v) (sdk_RegisterInstance S c p)) \<and>
     (\<forall>c p key v. key \<noteq> \<lparr>sk_ServiceName = dip_ServiceName p, sk_Group = dip_GroupName p\<rparr> \<longrightarrow>
        keeps (\<lambda>t. view t key = v) (sdk_DeregisterInstance S c p))"

lemma net_keeps_view:
  assumes "\<forall>V. net_keeps (\<lambda>s. view s = V) N"
  shows "net_keeps (\<lambda>s. P (view s)) N"
  using assms unfolding net_keeps_def keeps_def by metis

lemma keeps_instance_calls:
  assumes "sdk_local S view" and "key \<noteq> si_ServiceKey info"
  shows "keeps (\<lambda>t. view t key = v) (register_instance S c info a)"
    and "keeps (\<lambda>t. view t key = v) (deregister_instance S c info a)"
proof -
  have "keeps (\<lambda>t. view t key = v) (sdk_RegisterInstance S (nnc_client c) p)"
    if "rip_ServiceName p = si_ServiceName info" "rip_GroupName p = si_Group info" for p
    using assms that by (simp add: sdk_local_def)
  then show "keeps (\<lambda>t. view t key = v) (register_instance S c info a)"
    unfolding register_instance_def by (auto intro!: keeps_rules)
  have "keeps (\<lambda>t. view t key = v) (sdk_DeregisterInstance S (nnc_client c) p)"
    if "dip_ServiceName p = si_ServiceName info" "dip_GroupName p = si_Group info" for p
    using assms that by (simp add: sdk_local_def)
  then show "keeps (\<lambda>t. view t key = v) (deregister_instance S c info a)"
    unfolding deregister_instance_def by (auto intro!: keeps_rules)
qed

lemma registration_frame:
  assumes reg: "naming_registry N S c view misled" and loc: "sdk_local S view" and key: "key \<noteq> si_ServiceKey info"
  shows "keeps (\<lambda>t. view t key = v) (RegisterServiceInstances N S rng c info addresses)"
    and "keeps (\<lambda>t. view t key = v) (UnregisterService N S c info)"
proof -
  have net: "net_keeps (\<lambda>t. view t key = v) N"
    using reg net_keeps_view [of view N "\<lambda>V. V key = v"] by (simp add: naming_registry_def)
  note calls = keeps_instance_calls [OF loc key]
  show "keeps (\<lambda>t. view t key = v) (RegisterServiceInstances N S rng c info addresses)"
    unfolding RegisterServiceInstances_def UpdateServiceHealthCheckType_def GetAllInstances_def Let_def
    by (intro keeps_rules net calls)
  show "keeps (\<lambda>t. view t key = v) (UnregisterService N S c info)"
    unfolding UnregisterService_def UnregisterServiceInstances_def
    by (intro keeps_rules net calls)
qed

lemma unregister_all_frame:
  assumes reg: "naming_registry N S c view misled" and loc: "sdk_local S view"
  shows "\<forall>(k, x)\<in>set sts. \<forall>st. x = Some st \<longrightarrow> sss_Ready st \<longrightarrow> status_service st \<noteq> key \<Longrightarrow>
    keeps (\<lambda>t. view t key = v) (unregister_all N S c sts)"
proof (induction sts)
  case (Cons e sts)
  obtain k x where e: "e = (k, x)" by (cases e)
  show ?case
  proof (cases x)
    case (Some st)
    have "keeps (\<lambda>t. view t key = v) (UnregisterService N S c \<lparr>si_ServiceKey = status_service st, si_Port = 0, si_Metadata = []\<rparr>)"
      if "sss_Ready st" using Cons.prems that by (intro registration_frame(2) [OF reg loc]) (auto simp: e Some)
    then show ?thesis using Cons by (auto simp: e Some intro!: keeps_rules)
  qed (simp add: e keeps_ret)
qed (simp add: keeps_ret)

section \<open>The cluster\<close>

text \<open>
  The API server holds the one ServiceDiscovery of its namespace, \<open>stored\<close>.  Reads do not change it and return it or fail; an accepted
  write of the status replaces the status, an accepted update the rest, and drops the resource only if it is being deleted and has
  no finalizer left; a refused call writes nothing.  None of this touches Nacos, and Nacos does not touch the cluster.  Names of Services
  and Endpoints have no \<^verbatim>\<open>@\<close>, nor have the names the annotations give.
\<close>

definition sd_api ::
  "'s KubeSD \<Rightarrow> ('s \<Rightarrow> ServiceDiscovery option) \<Rightarrow> bool" where
  "sd_api E stored \<longleftrightarrow>
     (\<forall>k s. stored (exec (Client_GetSD E k) s) = stored s) \<and> (\<forall>k s. stored (exec (Client_ListSD E k) s) = stored s) \<and>
     (\<forall>k s. stored (exec (Client_GetService E k) s) = stored s) \<and> (\<forall>k s. stored (exec (Client_GetEndpoints E k) s) = stored s) \<and>
     (\<forall>k s. stored (exec (Client_ListEndpoints E k) s) = stored s) \<and>
     (\<forall>k s sd. result (Client_GetSD E k) s = Inr sd \<longrightarrow> stored s = Some sd) \<and>
     (\<forall>k s sds. result (Client_ListSD E k) s = Inr sds \<longrightarrow> sds = [] \<or> (\<exists>sd. stored s = Some sd \<and> sds = [sd])) \<and>
     (\<forall>x s r s'. run_state (Client_StatusUpdateSD E x) s = (r, s') \<longrightarrow>
        (case r of
           Inl e \<Rightarrow> stored s' = stored s
         | Inr y \<Rightarrow> (\<exists>old. stored s = Some old \<and> stored s' = Some y \<and> sd_Status y = sd_Status x \<and> sd_Spec y = sd_Spec old))) \<and>
     (\<forall>x s r s'. run_state (Client_UpdateSD E x) s = (r, s') \<longrightarrow>
        (case r of
           Inl e \<Rightarrow> stored s' = stored s
         | Inr y \<Rightarrow> (\<exists>old. stored s = Some old \<and> sd_Status y = sd_Status old \<and> sd_Spec y = sd_Spec x \<and>
             (stored s' = Some y \<or> stored s' = None \<and> sd_Finalizers x = [] \<and> om_DeletionTimestamp (sd_Meta x) \<noteq> None))))"

definition plain_names :: "'s KubeSD \<Rightarrow> bool" where
  "plain_names E \<longleftrightarrow>
     (\<forall>k s v info. result (Client_GetService E k) s = Inr v \<longrightarrow> GenerateServiceInfo v = Ok (Inr info) \<longrightarrow>
        CHR ''@'' \<notin> set (si_ServiceName info)) \<and>
     (\<forall>k s ep. result (Client_GetEndpoints E k) s = Inr ep \<longrightarrow> CHR ''@'' \<notin> set (om_Name (ep_Meta ep)))"

definition sd_world ::
  "'s Kube \<Rightarrow> 's KubeSD \<Rightarrow> 's Net \<Rightarrow> ('c, 's) NamingSDK \<Rightarrow> string \<Rightarrow> ('s \<Rightarrow> ServiceKey \<Rightarrow> Address set) \<Rightarrow>
   ('s \<Rightarrow> bool) \<Rightarrow> ('s \<Rightarrow> ServiceDiscovery option) \<Rightarrow> NacosServerConfiguration \<Rightarrow> bool" where
  "sd_world K E N S ctx view misled stored server \<longleftrightarrow>
     sd_api E stored \<and> plain_names E \<and> registry_apart K E N S view misled \<and>
     (\<forall>x t. view (exec (Client_UpdateSD E x) t) = view t) \<and> (\<forall>k t. view (exec (Client_GetSD E k) t) = view t) \<and>
     (\<forall>x. naming_keeps (\<lambda>t. stored t = x) K N S) \<and> sdk_local S view \<and>
     (\<forall>sd. sd_NacosServer sd = server \<longrightarrow> builds_good K N S ctx view misled sd)"

section \<open>What is left behind\<close>

text \<open>
  Every service is as it was before the ServiceDiscovery existed, or has no marked instance, or is recorded; but for
  the services in \<open>X\<close>.
\<close>

definition tracked ::
  "('s \<Rightarrow> ServiceKey \<Rightarrow> Address set) \<Rightarrow> ('s \<Rightarrow> ServiceDiscovery option) \<Rightarrow> NacosServerConfiguration \<Rightarrow>
   (ServiceKey \<Rightarrow> Address set) \<Rightarrow> ServiceKey set \<Rightarrow> 's \<Rightarrow> bool" where
  "tracked view stored server V X s \<longleftrightarrow>
     (\<forall>key. key \<in> X \<or> view s key = V key \<or> view s key = {} \<or> (\<exists>sd. stored s = Some sd \<and> key \<in> recorded_services sd)) \<and>
     (\<forall>sd. stored s = Some sd \<longrightarrow> status_ok sd \<and> sd_NacosServer sd = server)"

lemma tracked_same:
  "tracked view stored server V X s \<Longrightarrow> view s' = view s \<Longrightarrow> stored s' = stored s \<Longrightarrow> tracked view stored server V X s'"
  by (simp add: tracked_def)

lemma tracked_mono: "tracked view stored server V X s \<Longrightarrow> X \<subseteq> Y \<Longrightarrow> tracked view stored server V Y s"
  unfolding tracked_def by blast

text \<open>After a registration that may have failed, the service may be unaccounted for.\<close>

lemma tracked_register:
  assumes "tracked view stored server V X s" and "\<And>k. k \<noteq> key \<Longrightarrow> view s' k = view s k" and "stored s' = stored s"
  shows "tracked view stored server V (insert key X) s'"
  using assms unfolding tracked_def by (metis insertCI)

text \<open>Once the status with its entry is stored, it is accounted for.\<close>

lemma tracked_record:
  assumes "tracked view stored server V (insert key X) s" and "stored s = Some sd" and "view s' = view s"
    and "stored s' = Some y" "sd_Status y = sd_Status (set_sync_status info now sd)" "sd_Spec y = sd_Spec sd"
    and "si_ServiceKey info = key" "CHR ''@'' \<notin> set (si_ServiceName info)" "si_Group info \<noteq> []"
  shows "tracked view stored server V X s'"
proof -
  have ok: "status_ok sd" "sd_NacosServer sd = server" using assms(1,2) by (simp_all add: tracked_def)
  have y: "status_ok y = status_ok (set_sync_status info now sd)"
    "recorded_services y = recorded_services (set_sync_status info now sd)"
    using assms(5) by (simp_all add: status_ok_def recorded_services_def)
  have "status_ok y" "recorded_services y = insert key (recorded_services sd)" "sd_NacosServer y = server"
    using status_ok_set_sync_status [OF ok(1) assms(8,9)] y ok(2) assms(6,7) by simp_all
  then show ?thesis using assms(1-4) unfolding tracked_def by auto
qed

section \<open>Synchronisation\<close>

text \<open>What a run that may fail leaves: on success as before, otherwise with at most one service more that is unaccounted for.\<close>

definition left_by ::
  "('s \<Rightarrow> ServiceKey \<Rightarrow> Address set) \<Rightarrow> ('s \<Rightarrow> ServiceDiscovery option) \<Rightarrow> NacosServerConfiguration \<Rightarrow>
   (ServiceKey \<Rightarrow> Address set) \<Rightarrow> ServiceKey set \<Rightarrow> bool \<Rightarrow> 's \<Rightarrow> bool" where
  "left_by view stored server V X ok s \<longleftrightarrow>
     (if ok then tracked view stored server V X s else \<exists>key. tracked view stored server V (insert key X) s)"

lemma left_by_tracked: "tracked view stored server V X s \<Longrightarrow> left_by view stored server V X b s"
  using tracked_mono [of view stored server V X s "insert key X" for key] by (auto simp: left_by_def)

lemma left_by_UNIV: "left_by view stored server V X b s \<Longrightarrow> left_by view stored server V UNIV b s"
  unfolding left_by_def by (metis UNIV_I insert_absorb subset_UNIV tracked_mono)

lemma left_by_failed: "tracked view stored server V (insert key X) s \<Longrightarrow> left_by view stored server V X False s"
  unfolding left_by_def by auto

lemma world_reads:
  assumes "sd_world K E N S ctx view misled stored server"
  shows "view (exec (Client_GetService E k) s) = view s" "stored (exec (Client_GetService E k) s) = stored s"
    "view (exec (Client_GetEndpoints E k) s) = view s" "stored (exec (Client_GetEndpoints E k) s) = stored s"
    "view (exec (Client_ListEndpoints E ns) s) = view s" "stored (exec (Client_ListEndpoints E ns) s) = stored s"
    "view (exec (Client_GetSD E k) s) = view s" "stored (exec (Client_GetSD E k) s) = stored s"
    "view (exec (Client_ListSD E ns) s) = view s" "stored (exec (Client_ListSD E ns) s) = stored s"
  using assms by (simp_all add: sd_world_def sd_api_def registry_apart_def kube_quiet_def)

lemma world_names:
  assumes "sd_world K E N S ctx view misled stored server"
  shows "result (Client_GetService E k) s = Inr v \<Longrightarrow> GenerateServiceInfo v = Ok (Inr info) \<Longrightarrow> CHR ''@'' \<notin> set (si_ServiceName info)"
    and "result (Client_GetEndpoints E k) s = Inr ep \<Longrightarrow> CHR ''@'' \<notin> set (om_Name (ep_Meta ep))"
  using assms unfolding sd_world_def plain_names_def by blast+

lemma world_build:
  assumes w: "sd_world K E N S ctx view misled stored server" and cache: "good_cache N S view misled m" and sd: "sd_NacosServer sd = server"
    and run: "run_state (BuildNamingClient K N S ctx (Some sd)) (m, s) = (b, (m1, s1))"
  shows "view s1 = view s" "stored s1 = stored s" "good_cache N S view misled m1" "b = Inr c \<Longrightarrow> naming_registry N S c view misled"
proof -
  have "builds_good K N S ctx view misled sd" using w sd by (simp add: sd_world_def)
  from build_good [OF cache this run] show "good_cache N S view misled m1" "b = Inr c \<Longrightarrow> naming_registry N S c view misled" by simp_all
  have "build_keeps (\<lambda>t. view t = view s) K N S" using w by (simp add: sd_world_def registry_apart_def)
  from keepsD [OF keeps_Build [OF this], of "(m, s)" ctx "Some sd"] show "view s1 = view s" using run by simp
  have "build_keeps (\<lambda>t. stored t = stored s) K N S" using w by (simp add: sd_world_def naming_keeps_def)
  from keepsD [OF keeps_Build [OF this], of "(m, s)" ctx "Some sd"] show "stored s1 = stored s" using run by simp
qed

lemma world_register:
  assumes w: "sd_world K E N S ctx view misled stored server" and reg: "naming_registry N S c view misled"
    and tr: "tracked view stored server V X s"
    and run: "run_state (RegisterServiceInstances N S rng c info addresses) s = (g, s2)"
  shows "tracked view stored server V (insert (si_ServiceKey info) X) s2" "stored s2 = stored s"
proof -
  have "naming_keeps (\<lambda>t. stored t = stored s) K N S" and loc: "sdk_local S view" using w by (simp_all add: sd_world_def)
  from keepsD [OF keeps_RegisterServiceInstances [OF this(1)], of s rng c info addresses] show st: "stored s2 = stored s" using run by simp
  have "view s2 k = view s k" if "k \<noteq> si_ServiceKey info" for k
    using keepsD [OF registration_frame(1) [OF reg loc that, of "view s k"], of s rng addresses] run by simp
  from tracked_register [OF tr this st] show "tracked view stored server V (insert (si_ServiceKey info) X) s2" by simp
qed

lemma world_record:
  assumes w: "sd_world K E N S ctx view misled stored server"
    and tr: "tracked view stored server V (insert (si_ServiceKey info) X) s" and sd: "stored s = Some sd"
    and names: "CHR ''@'' \<notin> set (si_ServiceName info)" "si_Group info \<noteq> []"
    and run: "run_state (Client_StatusUpdateSD E (set_sync_status info now sd)) s = (u, s')"
  shows "u = Inl e \<Longrightarrow> tracked view stored server V (insert (si_ServiceKey info) X) s'"
    and "u = Inr y \<Longrightarrow> tracked view stored server V X s' \<and> stored s' = Some y"
proof -
  have "view (exec (Client_StatusUpdateSD E x) s) = view s" for x using w by (simp add: sd_world_def registry_apart_def kube_quiet_def)
  from this [of "set_sync_status info now sd"] have v: "view s' = view s" using run by simp
  have law: "case u of Inl e \<Rightarrow> stored s' = stored s
      | Inr y \<Rightarrow> (\<exists>old. stored s = Some old \<and> stored s' = Some y \<and>
          sd_Status y = sd_Status (set_sync_status info now sd) \<and> sd_Spec y = sd_Spec old)"
    using w run by (simp add: sd_world_def sd_api_def)
  show "tracked view stored server V (insert (si_ServiceKey info) X) s'" if "u = Inl e"
    using law that by (intro tracked_same [OF tr v]) simp
  show "tracked view stored server V X s' \<and> stored s' = Some y" if "u = Inr y"
    using law that sd tracked_record [OF tr sd v _ _ _ refl names, of y now] by auto
qed

lemma GenerateServiceInfo_group: "GenerateServiceInfo svc = Ok (Inr info) \<Longrightarrow> si_Group info \<noteq> []"
  by (auto simp: GenerateServiceInfo_def Let_def NamingDefaultGroupName_def split: sum.splits option.splits if_splits)

text \<open>The loop of the ServiceDiscovery controller.\<close>

lemma syncEndponits_left_by:
  assumes w: "sd_world K E N S ctx view misled stored server" and reg: "naming_registry N S c view misled"
  shows "tracked view stored server V X s \<Longrightarrow> stored s = Some sd \<Longrightarrow>
    run_state (syncEndponits K E N S rng ctx es c sd) (m, s) = (r, (m', s')) \<Longrightarrow>
    left_by view stored server V X (r = Ok None) s' \<and> m' = m"
proof (induction es arbitrary: sd s)
  case (Cons ep es)
  let ?k = "\<lparr>nn_Namespace = om_Namespace (ep_Meta ep), nn_Name = om_Name (ep_Meta ep)\<rparr>"
  obtain g s1 where get: "run_state (Client_GetService E ?k) s = (g, s1)" by force
  have s1: "view s1 = view s" "stored s1 = stored s" using world_reads(1,2) [OF w, of ?k s] get by simp_all
  have t1: "tracked view stored server V X s1" by (rule tracked_same [OF Cons.prems(1) s1])
  show ?case
  proof (cases "\<exists>svc info. g = Inr svc \<and> GenerateServiceInfo svc = Ok (Inr info) \<and> ConvertToAddresses ep (label_metadata ctx sd info) \<noteq> Panic")
    case False
    then have "s' = s1 \<and> m' = m" using Cons.prems(3) get
      by (auto simp: run_outside Let_def split: sum.splits outcome.splits)
    then show ?thesis using left_by_tracked [OF t1] by simp
  next
    case True
    then obtain svc info addresses where g: "g = Inr svc" and info: "GenerateServiceInfo svc = Ok (Inr info)"
      and conv: "ConvertToAddresses ep (label_metadata ctx sd info) = Ok addresses"
      by (metis outcome.exhaust)
    let ?info = "label_metadata ctx sd info"
    obtain b s2 where regs: "run_state (RegisterServiceInstances N S rng c ?info addresses) s1 = (b, s2)" by force
    note two = world_register [OF w reg t1 regs]
    obtain u s3 where upd: "run_state (Client_StatusUpdateSD E (set_sync_status ?info (Now K s2) sd)) s2 = (u, s3)" by force
    have names: "CHR ''@'' \<notin> set (si_ServiceName ?info)" "si_Group ?info \<noteq> []"
      using world_names(1) [OF w _ info, of ?k s] get g GenerateServiceInfo_group [OF info] by simp_all
    note rec = world_record [OF w two(1) _ names upd]
    have st2: "stored s2 = Some sd" using two(2) s1(2) Cons.prems(2) by simp
    show ?thesis
    proof (cases "b = Ok True")
      case False
      then have "r \<noteq> Ok None \<and> s' = s2 \<and> m' = m"
        using Cons.prems(3) get g info conv regs by (auto simp: run_outside Let_def run_bindO split: outcome.splits if_splits)
      then show ?thesis using left_by_failed [OF two(1)] by simp
    next
      case b: True
      show ?thesis
      proof (cases u)
        case (Inl e)
        then have "r \<noteq> Ok None \<and> s' = s3 \<and> m' = m"
          using Cons.prems(3) get g info conv regs b upd by (auto simp: run_outside Let_def run_bindO)
        then show ?thesis using left_by_failed [OF rec(1) [OF st2 Inl]] by simp
      next
        case (Inr y)
        then have "run_state (syncEndponits K E N S rng ctx es c y) (m, s3) = (r, (m', s'))"
          using Cons.prems(3) get g info conv regs b upd by (auto simp: run_outside Let_def run_bindO)
        then show ?thesis using Cons.IH [of s3 y] rec(2) [OF st2 Inr] by simp
      qed
    qed
  qed
qed (simp add: left_by_def)

lemma get_endpoints_same:
  assumes w: "sd_world K E N S ctx view misled stored server"
  shows "run_state (get_endpoints E skip ns names acc) (m, s) = (r, (m', s')) \<Longrightarrow>
    view s' = view s \<and> stored s' = stored s \<and> m' = m"
proof (induction names arbitrary: acc s)
  case (Cons n names)
  obtain g s1 where get: "run_state (Client_GetEndpoints E \<lparr>nn_Namespace = ns, nn_Name = n\<rparr>) s = (g, s1)" by force
  have "view s1 = view s" "stored s1 = stored s"
    using world_reads(3,4) [OF w, of "\<lparr>nn_Namespace = ns, nn_Name = n\<rparr>" s] get by simp_all
  then show ?case
    using Cons.prems get Cons.IH [of acc s1] Cons.IH [of _ s1] by (auto simp: run_outside split: sum.splits if_splits)
qed simp

lemma syncExistedService_left_by:
  assumes w: "sd_world K E N S ctx view misled stored server" and cache: "good_cache N S view misled m"
    and tr: "tracked view stored server V X s" and sd: "stored s = Some sd"
    and run: "run_state (syncExistedService K E N S rng ctx sd) (m, s) = (r, (m', s'))"
  shows "left_by view stored server V X (r = Ok None) s' \<and> good_cache N S view misled m'"
proof -
  have server: "sd_NacosServer sd = server" using tr sd by (simp add: tracked_def)
  obtain b m1 s1 where build: "run_state (BuildNamingClient K N S ctx (Some sd)) (m, s) = (b, (m1, s1))" by (metis prod.collapse)
  note b1 = world_build [OF w cache server build]
  have t1: "tracked view stored server V X s1" by (rule tracked_same [OF tr b1(1,2)])
  show ?thesis
  proof (cases b)
    case (Inl e)
    then have "s' = s1 \<and> m' = m1" using run build by (simp add: syncExistedService_def)
    then show ?thesis using left_by_tracked [OF t1] b1(3) by simp
  next
    case (Inr c)
    let ?read = "if length (sd_Services sd) > 0 then get_endpoints E False (sd_Namespace sd) (sd_Services sd) []
      else outside (Client_ListEndpoints E (sd_Namespace sd))"
    obtain q m2 s2 where read: "run_state ?read (m1, s1) = (q, (m2, s2))" by (metis prod.collapse)
    have s2: "view s2 = view s1 \<and> stored s2 = stored s1 \<and> m2 = m1"
      using read get_endpoints_same [OF w, of False "sd_Namespace sd" "sd_Services sd" "[]" m1 s1 q m2 s2]
        world_reads(5,6) [OF w, of "sd_Namespace sd" s1]
      by (auto simp: run_outside split: if_splits prod.splits)
    have t2: "tracked view stored server V X s2" using s2 by (intro tracked_same [OF t1]) simp_all
    show ?thesis
    proof (cases q)
      case (Inl e)
      then have "s' = s2 \<and> m' = m2" using run build Inr read by (simp add: syncExistedService_def)
      then show ?thesis using left_by_tracked [OF t2] b1(3) s2 by simp
    next
      case q: (Inr es)
      then have "run_state (syncEndponits K E N S rng ctx es c sd) (m2, s2) = (r, (m', s'))"
        using run build Inr read by (simp add: syncExistedService_def)
      from syncEndponits_left_by [OF w b1(4) [OF Inr] t2 _ this] show ?thesis using s2 b1(2,3) sd by simp
    qed
  qed
qed

section \<open>Finalization\<close>

lemma status_ok_recorded:
  assumes "status_ok sd" and "(k, Some st) \<in> set (sd_SyncStatuses sd)" and "sss_Ready st"
  shows "status_service st \<in> recorded_services sd"
  using assms mget_Some_iff [of "sd_SyncStatuses sd" k "Some st"] by (auto simp: status_ok_def recorded_services_def)

lemma finalization_tracked:
  assumes w: "sd_world K E N S ctx view misled stored server" and cache: "good_cache N S view misled m"
    and tr: "tracked view stored server V X s" and sd: "stored s = Some sd"
    and run: "run_state (SD_doFinalization K E N S ctx sd) (m, s) = (r, (m', s'))"
  shows "tracked view stored server V (if misled s' then UNIV else X) s' \<and> good_cache N S view misled m'"
proof -
  have server: "sd_NacosServer sd = server" and ok: "status_ok sd" using tr sd by (simp_all add: tracked_def)
  obtain b m1 s1 where build: "run_state (BuildNamingClient K N S ctx (Some sd)) (m, s) = (b, (m1, s1))" by (metis prod.collapse)
  note b1 = world_build [OF w cache server build]
  have t1: "tracked view stored server V X s1" by (rule tracked_same [OF tr b1(1,2)])
  have settled: ?thesis if "tracked view stored server V X s'" "m' = m1"
    using that b1(3) tracked_mono [OF that(1), of UNIV] by simp
  show ?thesis
  proof (cases b)
    case (Inl e)
    then show ?thesis using run build t1 by (intro settled) (simp_all add: SD_doFinalization_def)
  next
    case (Inr c)
    note reg = b1(4) [OF Inr]
    obtain u s2 where un: "run_state (unregister_all N S c (sd_SyncStatuses sd)) s1 = (u, s2)" by force
    have "naming_keeps (\<lambda>t. stored t = stored s1) K N S" and loc: "sdk_local S view" using w by (simp_all add: sd_world_def)
    from keepsD [OF keeps_unregister_all [OF this(1)], of s1 c "sd_SyncStatuses sd"]
    have st2: "stored s2 = stored s1" using un by simp
    have "view s2 key = view s1 key" if "key \<notin> recorded_services sd" for key
    proof -
      have "\<forall>(k, x)\<in>set (sd_SyncStatuses sd). \<forall>st. x = Some st \<longrightarrow> sss_Ready st \<longrightarrow> status_service st \<noteq> key"
        using that status_ok_recorded [OF ok] by blast
      from keepsD [OF unregister_all_frame [OF reg loc this, of "view s1 key"], of s1] show ?thesis using un by simp
    qed
    then have t2: "tracked view stored server V X s2"
      using t1 st2 b1(2) sd unfolding tracked_def by (metis option.inject)
    show ?thesis
    proof (cases "u = Ok None")
      case False
      then have "s' = s2 \<and> m' = m1" using run build Inr un
        by (auto simp: SD_doFinalization_def run_bindO run_outside split: outcome.splits option.splits)
      then show ?thesis using t2 by (intro settled) simp_all
    next
      case True
      have clear: "view s2 key = {}" if "key \<in> recorded_services sd" and "\<not> misled s2" for key
        using unregister_all_clears(1) [OF reg un [unfolded True] that(2)] that(1)
        by (force simp: recorded_services_def dest: map_of_SomeD)
      have rem: "run_state (SD_removeFinalizer E sd) (m1, s2) = (r, (m', s'))"
        using run build Inr un True by (simp add: SD_doFinalization_def run_bindO run_outside)
      show ?thesis
      proof (cases "\<exists>fs y. run_state (Client_UpdateSD E (sd\<lparr>sd_Meta := (sd_Meta sd)\<lparr>om_Finalizers := fs\<rparr>\<rparr>)) s2 = (Inr y, s')")
        case False
        then have "view s' = view s2 \<and> stored s' = stored s2 \<and> m' = m1"
          using rem w unfolding sd_world_def sd_api_def
          by (auto simp: SD_removeFinalizer_def run_outside split: if_splits outcome.splits prod.splits sum.splits)
             (metis snd_conv, metis sum.simps(5))+
        then show ?thesis using tracked_same [OF t2] by (intro settled) simp_all
      next
        case True
        then obtain fs y where upd: "run_state (Client_UpdateSD E (sd\<lparr>sd_Meta := (sd_Meta sd)\<lparr>om_Finalizers := fs\<rparr>\<rparr>)) s2 = (Inr y, s')"
          by blast
        have st: "stored s2 = Some sd" using st2 b1(2) sd by simp
        then have y: "sd_Status y = sd_Status sd" "sd_Spec y = sd_Spec sd" "stored s' = Some y \<or> stored s' = None"
          using w upd unfolding sd_world_def sd_api_def by fastforce+
        have v: "view s' = view s2" using w upd unfolding sd_world_def by (metis snd_conv)
        have "m' = m1" using rem by (auto simp: SD_removeFinalizer_def run_outside split: if_splits outcome.splits prod.splits)
        moreover have "status_ok y" "sd_NacosServer y = server" using ok server y by (simp_all add: status_ok_def)
        then have "tracked view stored server V (if misled s2 then UNIV else X) s'"
          using t2 clear y(3) v st unfolding tracked_def by (metis UNIV_I option.inject option.distinct(1))
        moreover have "keeps misled (Client_UpdateSD E (sd\<lparr>sd_Meta := (sd_Meta sd)\<lparr>om_Finalizers := fs\<rparr>\<rparr>))"
          using w by (simp add: sd_world_def registry_apart_def sd_keeps_def)
        from keepsD [OF this, of s2] have "misled s2 \<Longrightarrow> misled s'" using upd by simp
        ultimately show ?thesis using b1(3) tracked_mono [of view stored server V X s' UNIV] by (auto split: if_splits)
      qed
    qed
  qed
qed

section \<open>Reconciliations\<close>

lemma ensureFinalizer_same:
  assumes w: "sd_world K E N S ctx view misled stored server"
    and tr: "tracked view stored server V X s" and sd: "stored s = Some sd"
    and run: "run_state (SD_ensureFinalizer E sd) (m, s) = (r, (m', s'))"
  shows "tracked view stored server V X s' \<and> m' = m \<and> (\<forall>y. r = Inr y \<longrightarrow> stored s' = Some y)"
proof (cases "StringSliceContains (sd_Finalizers sd) sd_finalizer")
  case True
  then show ?thesis using run tr sd by (auto simp: SD_ensureFinalizer_def)
next
  case False
  let ?x = "sd\<lparr>sd_Meta := (sd_Meta sd)\<lparr>om_Finalizers := sd_Finalizers sd @ [sd_finalizer]\<rparr>\<rparr>"
  have upd: "run_state (Client_UpdateSD E ?x) s = (r, s')" and m: "m' = m"
    using run False by (auto simp: SD_ensureFinalizer_def run_outside split: prod.splits)
  have "view (exec (Client_UpdateSD E ?x) s) = view s" using w unfolding sd_world_def by blast
  then have v: "view s' = view s" using upd by simp
  have law: "case r of Inl e \<Rightarrow> stored s' = stored s
      | Inr y \<Rightarrow> (\<exists>old. stored s = Some old \<and> sd_Status y = sd_Status old \<and> sd_Spec y = sd_Spec ?x \<and>
          (stored s' = Some y \<or> stored s' = None \<and> sd_Finalizers ?x = [] \<and> om_DeletionTimestamp (sd_Meta ?x) \<noteq> None))"
    using w upd unfolding sd_world_def sd_api_def by blast
  show ?thesis
  proof (cases r)
    case (Inl e)
    then show ?thesis using law tracked_same [OF tr v] m by simp
  next
    case (Inr y)
    then have y: "sd_Status y = sd_Status sd" "sd_Spec y = sd_Spec sd" "stored s' = Some y" using law sd by auto
    then have "status_ok y = status_ok sd" "recorded_services y = recorded_services sd"
      by (simp_all add: status_ok_def recorded_services_def)
    then have "tracked view stored server V X s'" using tr sd v y unfolding tracked_def by simp
    then show ?thesis using y(3) m Inr by simp
  qed
qed

lemma SD_Reconcile_left_by:
  assumes w: "sd_world K E N S ctx view misled stored server" and cache: "good_cache N S view misled m"
    and tr: "tracked view stored server V X s"
    and run: "run_state (SD_Reconcile K E N S rng ctx req) (m, s) = (r, (m', s'))"
  shows "left_by view stored server V (if misled s' then UNIV else X) (r = Ok None) s' \<and> good_cache N S view misled m'"
proof -
  obtain g s1 where get: "run_state (Client_GetSD E req) s = (g, s1)" by force
  have s1: "view s1 = view s" "stored s1 = stored s" using world_reads(7,8) [OF w, of req s] get by simp_all
  note t1 = tracked_same [OF tr s1]
  have settled: ?thesis if "left_by view stored server V X (r = Ok None) s' \<and> good_cache N S view misled m'"
    using that left_by_UNIV [of view stored server V X] by simp
  show ?thesis
  proof (cases g)
    case (Inl e)
    then have "s' = s1 \<and> m' = m" using run get by (simp add: SD_Reconcile_def run_outside)
    then show ?thesis using left_by_tracked [OF t1] cache by (intro settled) simp
  next
    case (Inr sd)
    have "stored s = Some sd" using w get Inr unfolding sd_world_def sd_api_def by (metis fst_conv)
    then have sd: "stored s1 = Some sd" using s1 by simp
    then have server: "sd_NacosServer sd = server" using t1 by (simp add: tracked_def)
    consider (new) "\<not> StringSliceContains (sd_Finalizers sd) sd_finalizer"
      | (deleted) "StringSliceContains (sd_Finalizers sd) sd_finalizer" "om_DeletionTimestamp (sd_Meta sd) \<noteq> None"
      | (updated) "StringSliceContains (sd_Finalizers sd) sd_finalizer" "om_DeletionTimestamp (sd_Meta sd) = None" by blast
    then show ?thesis
    proof cases
      case new
      obtain e m2 s2 where ens: "run_state (SD_ensureFinalizer E sd) (m, s1) = (e, (m2, s2))" by (metis prod.collapse)
      note two = ensureFinalizer_same [OF w t1 sd ens]
      show ?thesis
      proof (cases e)
        case e: (Inl err)
        then have "s' = s2 \<and> m' = m2" using run get Inr new ens by (simp add: SD_Reconcile_def run_outside)
        then show ?thesis using two cache by (intro settled) (simp add: left_by_tracked)
      next
        case e: (Inr y)
        then have "run_state (syncExistedService K E N S rng ctx y) (m2, s2) = (r, (m', s'))"
          using run get Inr new ens by (simp add: SD_Reconcile_def run_outside)
        from syncExistedService_left_by [OF w _ _ _ this] show ?thesis using two cache e by (intro settled) blast
      qed
    next
      case deleted
      then have "run_state (SD_doFinalization K E N S ctx sd) (m, s1) = (r, (m', s'))"
        using run get Inr by (simp add: SD_Reconcile_def run_outside)
      from finalization_tracked [OF w cache t1 sd this] show ?thesis using left_by_tracked [of view stored server V _ s'] by simp
    next
      case updated
      let ?read = "if length (sd_Services sd) > 0 then get_endpoints E True (sd_Namespace sd) (sd_Services sd) [] else ret (Inr [])"
      obtain q m2 s2 where read: "run_state ?read (m, s1) = (q, (m2, s2))" by (metis prod.collapse)
      have s2: "view s2 = view s1 \<and> stored s2 = stored s1 \<and> m2 = m"
        using read get_endpoints_same [OF w, of True "sd_Namespace sd" "sd_Services sd" "[]" m s1 q m2 s2] by (auto split: if_splits)
      have t2: "tracked view stored server V X s2" using s2 by (intro tracked_same [OF t1]) simp_all
      show ?thesis
      proof (cases q)
        case q: (Inl e)
        then have "s' = s2 \<and> m' = m2" using run get Inr updated read by (simp add: SD_Reconcile_def run_outside)
        then show ?thesis using left_by_tracked [OF t2] cache s2 by (intro settled) simp
      next
        case q: (Inr es)
        obtain b m3 s3 where build: "run_state (BuildNamingClient K N S ctx (Some sd)) (m2, s2) = (b, (m3, s3))" by (metis prod.collapse)
        have "good_cache N S view misled m2" using cache s2 by simp
        note b3 = world_build [OF w this server build]
        note t3 = tracked_same [OF t2 b3(1,2)]
        show ?thesis
        proof (cases b)
          case b: (Inl e)
          then have "s' = s3 \<and> m' = m3" using run get Inr updated read q build by (simp add: SD_Reconcile_def run_outside)
          then show ?thesis using left_by_tracked [OF t3] b3(3) by (intro settled) simp
        next
          case b: (Inr c)
          then have "run_state (syncEndponits K E N S rng ctx es c sd) (m3, s3) = (r, (m', s'))"
            using run get Inr updated read q build by (simp add: SD_Reconcile_def run_outside)
          from syncEndponits_left_by [OF w b3(4) [OF b] t3 _ this] show ?thesis using s2 sd b3(2,3) by (intro settled) simp
        qed
      qed
    qed
  qed
qed

text \<open>The Endpoints controller: at most one ServiceDiscovery is listed, and one service is registered for it.\<close>

lemma sync_to_each_left_by:
  assumes w: "sd_world K E N S ctx view misled stored server" and cache: "good_cache N S view misled m"
    and tr: "tracked view stored server V X s" and sds: "sds = [] \<or> (\<exists>sd. stored s = Some sd \<and> sds = [sd])"
    and names: "CHR ''@'' \<notin> set (si_ServiceName info)" "si_Group info \<noteq> []"
    and run: "run_state (sync_to_each K E N S rng ctx es info sds) (m, s) = (r, (m', s'))"
  shows "left_by view stored server V X (r = Ok None) s' \<and> good_cache N S view misled m'"
proof (cases "\<exists>sd addresses. sds = [sd] \<and> ns_ServerAddr (sd_NacosServer sd) \<noteq> [] \<and> ConvertToAddresses es info = Ok addresses")
  case False
  then have "s' = s \<and> m' = m" using run sds
    by (auto simp: SyncInstanceToNacos_def split: if_splits outcome.splits)
  then show ?thesis using left_by_tracked [OF tr] cache by simp
next
  case True
  then obtain sd addresses where sd: "sds = [sd]" "stored s = Some sd" "ns_ServerAddr (sd_NacosServer sd) \<noteq> []"
    and conv: "ConvertToAddresses es info = Ok addresses" using sds by auto
  have server: "sd_NacosServer sd = server" using tr sd(2) by (simp add: tracked_def)
  let ?info = "label_metadata ctx sd info"
  have names': "CHR ''@'' \<notin> set (si_ServiceName ?info)" "si_Group ?info \<noteq> []" using names by simp_all
  obtain b m1 s1 where build: "run_state (BuildNamingClient K N S ctx (Some sd)) (m, s) = (b, (m1, s1))" by (metis prod.collapse)
  note b1 = world_build [OF w cache server build]
  note t1 = tracked_same [OF tr b1(1,2)]
  show ?thesis
  proof (cases b)
    case (Inl e)
    then have "s' = s1 \<and> m' = m1" using run build sd(1,3) conv by (simp add: SyncInstanceToNacos_def Let_def run_bindO)
    then show ?thesis using left_by_tracked [OF t1] b1(3) by simp
  next
    case (Inr c)
    obtain g s2 where regs: "run_state (RegisterServiceInstances N S rng c ?info addresses) s1 = (g, s2)" by force
    note two = world_register [OF w b1(4) [OF Inr] t1 regs]
    have st2: "stored s2 = Some sd" using two(2) b1(2) sd(2) by simp
    obtain u s3 where upd: "run_state (Client_StatusUpdateSD E (set_sync_status ?info (Now K s2) sd)) s2 = (u, s3)" by force
    note rec = world_record [OF w two(1) st2 names' upd]
    show ?thesis
    proof (cases "g = Ok True")
      case False
      then have "r \<noteq> Ok None \<and> s' = s2 \<and> m' = m1"
        using run build sd(1,3) conv Inr regs
        by (auto simp: SyncInstanceToNacos_def Let_def run_bindO run_outside split: outcome.splits if_splits)
      then show ?thesis using left_by_failed [OF two(1)] b1(3) by simp
    next
      case g: True
      have "s' = s3 \<and> m' = m1 \<and> r = Ok (case u of Inl e \<Rightarrow> Some e | Inr _ \<Rightarrow> None)"
        using run build sd(1,3) conv Inr regs g upd
        by (auto simp: SyncInstanceToNacos_def Let_def run_bindO run_outside split: sum.splits)
      then show ?thesis using rec b1(3) left_by_failed [OF rec(1)] by (cases u) (auto simp: left_by_def)
    qed
  qed
qed

lemma EndpointReconciler_left_by:
  assumes w: "sd_world K E N S ctx view misled stored server" and cache: "good_cache N S view misled m"
    and tr: "tracked view stored server V X s" and req: "CHR ''@'' \<notin> set (nn_Name req)"
    and run: "run_state (EndpointReconciler_Reconcile K E N S rng ctx req) (m, s) = (r, (m', s'))"
  shows "left_by view stored server V X (r = Ok None) s' \<and> good_cache N S view misled m'"
proof -
  obtain g s1 where get: "run_state (Client_GetEndpoints E req) s = (g, s1)" by force
  note t1 = tracked_same [OF tr, of s1]
  have s1: "view s1 = view s" "stored s1 = stored s" using world_reads(3,4) [OF w, of req s] get by simp_all
  show ?thesis
  proof (cases "endpoints_or_empty req g")
    case (Inl e)
    then have "s' = s1 \<and> m' = m" using run get by (simp add: EndpointReconciler_Reconcile_def run_outside)
    then show ?thesis using left_by_tracked [OF t1 [OF s1]] cache by simp
  next
    case (Inr es)
    have es: "CHR ''@'' \<notin> set (om_Name (ep_Meta es))"
      using Inr req world_names(2) [OF w, of req s] get by (auto simp: endpoints_or_empty_def split: sum.splits if_splits)
    obtain l s2 where list: "run_state (Client_ListSD E (om_Namespace (ep_Meta es))) s1 = (l, s2)" by force
    have s2: "view s2 = view s1" "stored s2 = stored s1" using world_reads(9,10) [OF w, of "om_Namespace (ep_Meta es)" s1] list by simp_all
    note t2 = tracked_same [OF t1 [OF s1] s2]
    let ?k = "\<lparr>nn_Namespace = om_Namespace (ep_Meta es), nn_Name = om_Name (ep_Meta es)\<rparr>"
    obtain v s3 where svc: "run_state (Client_GetService E ?k) s2 = (v, s3)" by force
    have s3: "view s3 = view s2" "stored s3 = stored s2" using world_reads(1,2) [OF w, of ?k s2] svc by simp_all
    note t3 = tracked_same [OF t2 s3]
    show ?thesis
    proof (cases "\<exists>items w info. l = Inr items \<and> filter (selects (om_Name (ep_Meta es))) items \<noteq> [] \<and>
        service_or_bare (ep_Meta es) v = Inr w \<and> GenerateServiceInfo w = Ok (Inr info)")
      case False
      then have "(s' = s2 \<or> s' = s3) \<and> m' = m" using run get Inr list svc
        by (auto simp: EndpointReconciler_Reconcile_def run_outside Let_def split: sum.splits outcome.splits if_splits)
      then show ?thesis using left_by_tracked [OF t2] left_by_tracked [OF t3] cache by auto
    next
      case True
      then obtain items x info where l: "l = Inr items" "filter (selects (om_Name (ep_Meta es))) items \<noteq> []"
        and x: "service_or_bare (ep_Meta es) v = Inr x" "GenerateServiceInfo x = Ok (Inr info)" by blast
      have names: "CHR ''@'' \<notin> set (si_ServiceName info)"
      proof (cases v)
        case v: (Inr y)
        then have "x = y" using x(1) by (simp add: service_or_bare_def)
        then show ?thesis using world_names(1) [OF w _ x(2), of ?k s2] svc v by simp
      next
        case v: (Inl e)
        then have "si_ServiceName info = om_Name (ep_Meta es)" using x
          by (auto simp: service_or_bare_def GenerateServiceInfo_def mget0_def split: if_splits)
        then show ?thesis using es by simp
      qed
      have "items = [] \<or> (\<exists>sd. stored s1 = Some sd \<and> items = [sd])"
        using w list l(1) unfolding sd_world_def sd_api_def by (metis fst_conv)
      then have sds: "filter (selects (om_Name (ep_Meta es))) items = [] \<or>
          (\<exists>sd. stored s3 = Some sd \<and> filter (selects (om_Name (ep_Meta es))) items = [sd])"
        using s2 s3 by (auto split: if_splits)
      have "run_state (sync_to_each K E N S rng ctx es info (filter (selects (om_Name (ep_Meta es))) items)) (m, s3) = (r, (m', s'))"
        using run get Inr list l svc x by (simp add: EndpointReconciler_Reconcile_def run_outside Let_def)
      from sync_to_each_left_by [OF w cache t3 sds names GenerateServiceInfo_group [OF x(2)] this] show ?thesis .
    qed
  qed
qed

section \<open>The life of a ServiceDiscovery\<close>

text \<open>
  \<open>life n w\<close>: the state \<open>w\<close> can be reached from the creation of the resource with \<open>n\<close> reconciliations that did not end well.
  Its users may edit the resource, all but its status and its server.
\<close>

inductive life ::
  "'s Kube \<Rightarrow> 's KubeSD \<Rightarrow> 's Net \<Rightarrow> ('c, 's) NamingSDK \<Rightarrow> (Address list \<Rightarrow> Address list) \<Rightarrow> string \<Rightarrow>
   ('s \<Rightarrow> ServiceKey \<Rightarrow> Address set) \<Rightarrow> ('s \<Rightarrow> bool) \<Rightarrow> ('s \<Rightarrow> ServiceDiscovery option) \<Rightarrow> NacosServerConfiguration \<Rightarrow>
   (ServiceKey \<Rightarrow> Address set) \<Rightarrow> nat \<Rightarrow> 'c NacosNamingClient client_cache \<times> 's \<Rightarrow> bool"
  for K E N S rng ctx view misled stored server V where
  created: "stored s = Some sd \<Longrightarrow> sd_SyncStatuses sd = [] \<Longrightarrow> sd_NacosServer sd = server \<Longrightarrow> view s = V \<Longrightarrow> good_cache N S view misled m \<Longrightarrow>
    life K E N S rng ctx view misled stored server V 0 (m, s)"
| edited: "life K E N S rng ctx view misled stored server V n (m, s) \<Longrightarrow> stored s = Some sd \<Longrightarrow> stored s' = Some sd' \<Longrightarrow>
    sd_Status sd' = sd_Status sd \<Longrightarrow> sd_NacosServer sd' = server \<Longrightarrow> view s' = view s \<Longrightarrow> (misled s \<longrightarrow> misled s') \<Longrightarrow>
    life K E N S rng ctx view misled stored server V n (m, s')"
| resource: "life K E N S rng ctx view misled stored server V n w \<Longrightarrow>
    run_state (SD_Reconcile K E N S rng ctx req) w = (r, w') \<Longrightarrow>
    life K E N S rng ctx view misled stored server V (if r = Ok None then n else Suc n) w'"
| endpoints: "life K E N S rng ctx view misled stored server V n w \<Longrightarrow> CHR ''@'' \<notin> set (nn_Name req) \<Longrightarrow>
    run_state (EndpointReconciler_Reconcile K E N S rng ctx req) w = (r, w') \<Longrightarrow>
    life K E N S rng ctx view misled stored server V (if r = Ok None then n else Suc n) w'"

lemma left_by_count:
  assumes "left_by view stored server V X ok s" and "finite X" "card X \<le> n"
  shows "\<exists>Y. finite Y \<and> card Y \<le> (if ok then n else Suc n) \<and> tracked view stored server V Y s"
proof (cases ok)
  case True
  then show ?thesis using assms by (auto simp: left_by_def)
next
  case False
  then obtain key where "tracked view stored server V (insert key X) s" using assms(1) by (auto simp: left_by_def)
  moreover have "card (insert key X) \<le> Suc n" using card_insert_le_m1 [of "Suc n" X key] assms(3) by simp
  ultimately show ?thesis using assms(2) False by auto
qed

lemma life_step:
  assumes "misled s \<or> finite X \<and> card X \<le> n" and "left_by view stored server V (if misled s then UNIV else X) ok s"
  shows "\<exists>Y. (misled s \<or> finite Y \<and> card Y \<le> (if ok then n else Suc n)) \<and> tracked view stored server V Y s"
proof (cases "misled s")
  case True
  then show ?thesis using assms(2) by (auto simp: left_by_def split: if_splits)
next
  case False
  then show ?thesis using left_by_count [of view stored server V X ok s n] assms by auto
qed

lemma world_misled:
  "sd_world K E N S ctx view misled stored server \<Longrightarrow> naming_keeps misled K N S"
  "sd_world K E N S ctx view misled stored server \<Longrightarrow> sd_keeps misled E"
  by (simp_all add: sd_world_def registry_apart_def)

lemma life_tracked:
  assumes w: "sd_world K E N S ctx view misled stored server"
  shows "life K E N S rng ctx view misled stored server V n st \<Longrightarrow>
    (\<exists>X. (misled (snd st) \<or> finite X \<and> card X \<le> n) \<and> tracked view stored server V X (snd st)) \<and> good_cache N S view misled (fst st)"
proof (induction rule: life.induct)
  case (created s sd m)
  then have "tracked view stored server V {} s" by (simp add: tracked_def status_ok_def)
  then show ?case using created by (auto intro!: exI [of _ "{}"])
next
  case (edited n m s sd s' sd')
  have "status_ok sd' = status_ok sd" "recorded_services sd' = recorded_services sd"
    using edited.hyps by (simp_all add: status_ok_def recorded_services_def)
  then have "tracked view stored server V X s'" if "tracked view stored server V X s" for X
    using that edited.hyps unfolding tracked_def by simp
  then show ?case using edited by auto
next
  case (resource n w' req r w'')
  obtain ma sa mb sb where ww: "w' = (ma, sa)" "w'' = (mb, sb)" by (cases w', cases w'')
  then have run: "run_state (SD_Reconcile K E N S rng ctx req) (ma, sa) = (r, (mb, sb))" using resource by simp
  have "misled sa \<Longrightarrow> misled sb"
    using not_misled_before [OF keeps_reconciliations(6) [OF world_misled(1) [OF w] world_misled(2) [OF w]] run] by blast
  then obtain X where X: "misled sb \<or> finite X \<and> card X \<le> n" "tracked view stored server V X sa" and m: "good_cache N S view misled ma"
    using resource.IH ww by auto
  show ?case using life_step [of misled sb, OF X(1)] SD_Reconcile_left_by [OF w m X(2) run] ww by simp
next
  case (endpoints n w' req r w'')
  obtain ma sa mb sb where ww: "w' = (ma, sa)" "w'' = (mb, sb)" by (cases w', cases w'')
  then have run: "run_state (EndpointReconciler_Reconcile K E N S rng ctx req) (ma, sa) = (r, (mb, sb))" using endpoints by simp
  have "misled sa \<Longrightarrow> misled sb"
    using not_misled_before [OF keeps_reconciliations(5) [OF world_misled(1) [OF w] world_misled(2) [OF w]] run] by blast
  then obtain X where X: "misled sb \<or> finite X \<and> card X \<le> n" "tracked view stored server V X sa" and m: "good_cache N S view misled ma"
    using endpoints.IH ww by auto
  have "left_by view stored server V (if misled sb then UNIV else X) (r = Ok None) sb \<and> good_cache N S view misled mb"
    using EndpointReconciler_left_by [OF w m X(2) endpoints.hyps(2) run] left_by_UNIV [of view stored server V X] by simp
  then show ?case using life_step [of misled sb, OF X(1)] ww by simp
qed

text \<open>
  C29: over the life of the one ServiceDiscovery of its namespace, for Services whose names have no \<^verbatim>\<open>@\<close>: whatever sequence of
  reconciliations of the resource and of Endpoints, and of edits that leave its status and its server alone, it goes through, once the
  API server has dropped it, and unless a misleading answer was ever taken for a listing, every service is as it was before or has no
  marked instance left, but for at most as many services as there were reconciliations that ended with an error or a panic; after a
  life without failures nothing is left behind.
\<close>

theorem dropped_ServiceDiscovery_leaves_nothing:
  assumes "sd_world K E N S ctx view misled stored server"
    and "life K E N S rng ctx view misled stored server V n (m, s)" and "stored s = None" and "\<not> misled s"
  shows "\<exists>X. finite X \<and> card X \<le> n \<and> (\<forall>key. key \<notin> X \<longrightarrow> view s key = V key \<or> view s key = {})"
proof -
  obtain X where "finite X" "card X \<le> n" "tracked view stored server V X s" using life_tracked [OF assms(1,2)] assms(4) by auto
  then show ?thesis using assms(3) unfolding tracked_def by auto
qed

subsection \<open>An example\<close>

text \<open>An API server for one ServiceDiscovery, with the status as a subresource.\<close>

definition life_kube :: "(bool \<times> ServiceDiscovery option) KubeSD" where
  "life_kube = demo_kube_sd\<lparr>
     Client_UpdateSD := (\<lambda>x. State (\<lambda>s. case snd s of
        None \<Rightarrow> (Inl (ErrNotFound ''gone''), s)
      | Some old \<Rightarrow> (Inr (x\<lparr>sd_Status := sd_Status old\<rparr>), (fst s,
          if sd_Finalizers x = [] \<and> om_DeletionTimestamp (sd_Meta x) \<noteq> None then None else Some (x\<lparr>sd_Status := sd_Status old\<rparr>))))),
     Client_StatusUpdateSD := (\<lambda>x. State (\<lambda>s. case snd s of
        None \<Rightarrow> (Inl (ErrNotFound ''gone''), s)
      | Some old \<Rightarrow> (Inr (old\<lparr>sd_Status := sd_Status x\<rparr>), (fst s, Some (old\<lparr>sd_Status := sd_Status x\<rparr>)))))\<rparr>"

lemma life_kube_api: "sd_api life_kube snd"
  by (auto simp: sd_api_def life_kube_def demo_kube_sd_def split: option.splits if_splits)

abbreviation life_server :: NacosServerConfiguration where
  "life_server \<equiv> \<lparr>ns_Endpoint = [], ns_ServerAddr = ''h:8848'', ns_Namespace = ''public'', ns_AuthRef = None\<rparr>"

lemma life_world:
  "sd_world demo_naming_kube life_kube (demo_net :: (bool \<times> ServiceDiscovery option) Net) demo_naming_sdk ''ctx'' demo_registered (\<lambda>_. False) snd life_server"
proof -
  have "plain_names life_kube"
    by (auto simp: plain_names_def life_kube_def demo_kube_sd_def demo_service_info demo_info_def demo_endpoints_def)
  moreover have "kube_quiet life_kube demo_registered" "demo_registered (exec (Client_UpdateSD life_kube x) t) = demo_registered t"
    "demo_registered (exec (Client_GetSD life_kube k) t) = demo_registered t" for x k t
    by (auto simp: kube_quiet_def life_kube_def demo_kube_sd_def demo_registered_def fun_eq_iff split: option.split)
  moreover have "naming_keeps (\<lambda>t. snd t = x) demo_naming_kube (demo_net :: (bool \<times> ServiceDiscovery option) Net) demo_naming_sdk" for x
    by (auto simp: naming_keeps_def build_keeps_def net_keeps_def demo_net_def keeps_def api_server_def on_part_def
        demo_naming_sdk_def split: prod.split)
  moreover have "sdk_local (demo_naming_sdk :: (unit, bool \<times> ServiceDiscovery option) NamingSDK) demo_registered"
    by (auto simp: sdk_local_def keeps_def demo_naming_sdk_def demo_registered_def)
  moreover have "builds_good demo_naming_kube (demo_net :: (bool \<times> ServiceDiscovery option) Net) demo_naming_sdk ''ctx'' demo_registered (\<lambda>_. False) sd"
    if "sd_NacosServer sd = life_server" for sd
    using demo_naming_registry by (simp add: builds_good_def demo_build_naming_any [OF that])
  ultimately show ?thesis using life_kube_api demo_quiet(1) by (simp add: sd_world_def registry_apart_def never_misled_kube)
qed

text \<open>Created, synchronised, deleted by its user, finalized.\<close>

definition life_synced :: ServiceDiscovery where
  "life_synced = set_sync_status (label_metadata ''ctx'' (demo_new\<lparr>sd_Meta := (sd_Meta demo_new)\<lparr>om_Finalizers := [sd_finalizer]\<rparr>\<rparr>) demo_info) 0
     (demo_new\<lparr>sd_Meta := (sd_Meta demo_new)\<lparr>om_Finalizers := [sd_finalizer]\<rparr>\<rparr>)"

definition life_deleted :: ServiceDiscovery where
  "life_deleted = life_synced\<lparr>sd_Meta := (sd_Meta life_synced)\<lparr>om_DeletionTimestamp := Some 1\<rparr>\<rparr>"

lemma life_sel:
  "sd_NacosServer demo_new = life_server" "sd_Finalizers demo_new = []" "sd_Services demo_new = []" "sd_SyncStatuses demo_new = []"
  "sd_NacosServer life_deleted = life_server" "sd_Finalizers life_deleted = [sd_finalizer]" "om_DeletionTimestamp (sd_Meta life_deleted) = Some 1"
  "sd_SyncStatuses life_deleted = [(''web@@g'', Some \<lparr>sss_ServiceName = ''web'', sss_GroupName = ''g'', sss_LastSyncFrom = [],
     sss_LastSyncTime = 0, sss_Ready = True, sss_Message = []\<rparr>)]"
  by (simp_all add: demo_new_def demo_sd_def zero_meta_def life_deleted_def life_synced_def set_sync_status_def demo_info_def ServiceKey_String_def)

lemma life_deleted_edit: "sd_Status life_deleted = sd_Status life_synced" "sd_Spec life_deleted = sd_Spec life_synced"
  by (simp_all add: life_deleted_def)

lemma life_first:
  "run_state (SD_Reconcile demo_naming_kube life_kube demo_net demo_naming_sdk rev ''ctx'' demo_key) ([], (False, Some demo_new)) =
     (Ok None, ([(''h:8848-public'', demo_naming_client)], (True, Some life_synced)))"
proof -
  have "ConvertToAddresses demo_endpoints (label_metadata ctx sd demo_info) = Ok [demo_address ''a'']" for ctx sd
    using demo_wanted by (simp add: ConvertToAddresses_cases demo_endpoints_def)
  moreover have "Now (demo_naming_kube :: (bool \<times> ServiceDiscovery option) Kube) = (\<lambda>_. 0)" by (simp add: api_server_def demo_cluster_def)
  ultimately show ?thesis
    by (simp add: SD_Reconcile_def SD_ensureFinalizer_def run_outside life_kube_def demo_kube_sd_def life_sel syncExistedService_def
        demo_build_naming_any demo_service_info run_bindO demo_registration_labelled Let_def life_synced_def set_sync_status_def)
qed

lemma life_last:
  "run_state (SD_Reconcile demo_naming_kube life_kube demo_net demo_naming_sdk rev ''ctx'' demo_key)
     ([(''h:8848-public'', demo_naming_client)], (True, Some life_deleted)) =
     (Ok None, ([(''h:8848-public'', demo_naming_client)], (False, None)))"
proof -
  have "naming_cacheKey life_server = ''h:8848-public''" by (simp add: naming_cacheKey_def)
  then have "run_state (BuildNamingClient demo_naming_kube demo_net demo_naming_sdk ''ctx'' (Some life_deleted))
      ([(''h:8848-public'', demo_naming_client)], (True, Some life_deleted)) =
     (Inr demo_naming_client, ([(''h:8848-public'', demo_naming_client)], (True, Some life_deleted)))"
    by (simp add: BuildNamingClient_def Let_def life_sel)
  then show ?thesis
    by (simp add: SD_Reconcile_def SD_doFinalization_def run_outside life_kube_def demo_kube_sd_def life_sel
        run_bindO demo_service_key demo_unregistration SD_removeFinalizer_def)
qed

theorem dropped_ServiceDiscovery_leaves_nothing_witness:
  "demo_registered (True, Some life_synced) (si_ServiceKey demo_info) = {demo_address ''a''} \<and>
   (\<forall>key. demo_registered (False, None :: ServiceDiscovery option) key = {})"
proof -
  let ?life = "life demo_naming_kube life_kube demo_net demo_naming_sdk rev ''ctx'' demo_registered (\<lambda>_. False) snd life_server
    (demo_registered (False, Some demo_new))"
  have "?life 0 ([], (False, Some demo_new))"
    by (rule life.created [where sd = demo_new]) (simp_all add: life_sel good_cache_def)
  from life.resource [OF this life_first] have "?life 0 ([(''h:8848-public'', demo_naming_client)], (True, Some life_synced))" by simp
  from life.edited [OF this, of life_synced "(True, Some life_deleted)" life_deleted]
  have "?life 0 ([(''h:8848-public'', demo_naming_client)], (True, Some life_deleted))"
    using life_sel(5) by (simp add: life_deleted_edit demo_registered_def fun_eq_iff)
  from life.resource [OF this life_last] have "?life 0 ([(''h:8848-public'', demo_naming_client)], (False, None))" by simp
  from dropped_ServiceDiscovery_leaves_nothing [OF life_world this]
  have "demo_registered (False, None :: ServiceDiscovery option) key = demo_registered (False, Some demo_new) key \<or>
    demo_registered (False, None :: ServiceDiscovery option) key = {}" for key by auto
  then show ?thesis by (auto simp: demo_registered_def)
qed

section \<open>What a failure leaves\<close>

text \<open>
  The bound is reached: when the status of the resource is not accepted after the registration, the service is not recorded;
  if the user deletes the resource then, finalization finds nothing to do, the finalizer goes, and the instance stays.
\<close>

definition life_conflict :: "(bool \<times> ServiceDiscovery option) KubeSD" where
  "life_conflict = life_kube\<lparr>Client_StatusUpdateSD := (\<lambda>x. ret (Inl (ErrConflict ''stale'')))\<rparr>"

definition life_unrecorded :: ServiceDiscovery where
  "life_unrecorded = demo_new\<lparr>sd_Meta := (sd_Meta demo_new)\<lparr>om_Finalizers := [sd_finalizer], om_DeletionTimestamp := Some 1\<rparr>\<rparr>"

lemma unrecorded_instance_stays:
  "\<exists>m sd. run_state (SD_Reconcile demo_naming_kube life_conflict demo_net demo_naming_sdk rev ''ctx'' demo_key) ([], (False, Some demo_new)) =
       (Ok (Some (ErrConflict ''stale'')), (m, (True, Some sd))) \<and>
     sd\<lparr>sd_Meta := (sd_Meta sd)\<lparr>om_DeletionTimestamp := Some 1\<rparr>\<rparr> = life_unrecorded"
  "run_state (SD_Reconcile demo_naming_kube life_kube demo_net demo_naming_sdk rev ''ctx'' demo_key) ([], (True, Some life_unrecorded)) =
     (Ok None, ([(''h:8848-public'', demo_naming_client)], (True, None)))"
  "demo_registered (True, None :: ServiceDiscovery option) (si_ServiceKey demo_info) = {demo_address ''a''}"
proof -
  have sel: "sd_NacosServer life_unrecorded = life_server" "sd_Finalizers life_unrecorded = [sd_finalizer]"
    "om_DeletionTimestamp (sd_Meta life_unrecorded) = Some 1" "sd_SyncStatuses life_unrecorded = []"
    using life_sel by (simp_all add: life_unrecorded_def)
  have "ConvertToAddresses demo_endpoints (label_metadata ctx sd demo_info) = Ok [demo_address ''a'']" for ctx sd
    using demo_wanted by (simp add: ConvertToAddresses_cases demo_endpoints_def)
  then show "\<exists>m sd. run_state (SD_Reconcile demo_naming_kube life_conflict demo_net demo_naming_sdk rev ''ctx'' demo_key) ([], (False, Some demo_new)) =
       (Ok (Some (ErrConflict ''stale'')), (m, (True, Some sd))) \<and>
     sd\<lparr>sd_Meta := (sd_Meta sd)\<lparr>om_DeletionTimestamp := Some 1\<rparr>\<rparr> = life_unrecorded"
    by (simp add: SD_Reconcile_def SD_ensureFinalizer_def run_outside life_conflict_def life_kube_def demo_kube_sd_def life_sel syncExistedService_def
        demo_build_naming_any demo_service_info run_bindO demo_registration_labelled Let_def life_unrecorded_def)
  show "run_state (SD_Reconcile demo_naming_kube life_kube demo_net demo_naming_sdk rev ''ctx'' demo_key) ([], (True, Some life_unrecorded)) =
     (Ok None, ([(''h:8848-public'', demo_naming_client)], (True, None)))"
    by (simp add: SD_Reconcile_def SD_doFinalization_def run_outside life_kube_def demo_kube_sd_def sel demo_build_naming_any run_bindO
        SD_removeFinalizer_def)
  show "demo_registered (True, None :: ServiceDiscovery option) (si_ServiceKey demo_info) = {demo_address ''a''}"
    by (simp add: demo_registered_def)
qed

end
