(* ===== verification/Go_Heap.thy ===== *)
theory Go_Heap
  imports Go_Prelude
begin

text \<open>
  The memory of a Go program, for the code whose point is what it shares: cells at addresses, slices as windows of an
  array, nil pointers as \<open>None\<close>.  What a value means in a memory is a reading, a partial function that follows the
  pointers; the locale \<open>copying\<close> is the contract of a deep copy, that the result reads the same in the new
  cells alone, and the lemmas on pointers, slices and maps build such copies from copies of the parts.
\<close>

section \<open>Memory\<close>

type_synonym addr = nat

record 'c mem =
  m_cells :: "addr \<rightharpoonup> 'c"
  m_next :: addr

definition wf_mem :: "'c mem \<Rightarrow> bool" where
  "wf_mem h \<longleftrightarrow> dom (m_cells h) \<subseteq> {..<m_next h}"

text \<open>\<open>new\<close> places a value in a new cell, \<open>store\<close> overwrites one; reading a cell that is not there, or holds
  another type, is the invalid memory access that Go answers with a panic.\<close>

definition new :: "'c \<Rightarrow> ('c mem, addr) state" where
  "new c = State (\<lambda>h. (m_next h, \<lparr>m_cells = (m_cells h)(m_next h \<mapsto> c), m_next = Suc (m_next h)\<rparr>))"

definition store :: "addr \<Rightarrow> 'c \<Rightarrow> ('c mem, unit) state" where
  "store a c = State (\<lambda>h. ((), h\<lparr>m_cells := (m_cells h)(a \<mapsto> c)\<rparr>))"

definition lookup :: "('c \<Rightarrow> 'x option) \<Rightarrow> (addr \<rightharpoonup> 'c) \<Rightarrow> addr \<Rightarrow> 'x option" where
  "lookup get m a = Option.bind (m a) get"

definition deref :: "('c \<Rightarrow> 'x option) \<Rightarrow> addr \<Rightarrow> ('c mem, 'x outcome) state" where
  "deref get a = gets (\<lambda>h. case lookup get (m_cells h) a of None \<Rightarrow> Panic | Some x \<Rightarrow> Ok x)"

lemma run_new [simp]:
  "run_state (new c) h = (m_next h, \<lparr>m_cells = (m_cells h)(m_next h \<mapsto> c), m_next = Suc (m_next h)\<rparr>)"
  by (simp add: new_def)

lemma run_store [simp]: "run_state (store a c) h = ((), h\<lparr>m_cells := (m_cells h)(a \<mapsto> c)\<rparr>)"
  by (simp add: store_def)

lemma run_deref [simp]:
  "run_state (deref get a) h = (case lookup get (m_cells h) a of None \<Rightarrow> Panic | Some x \<Rightarrow> Ok x, h)"
  by (simp add: deref_def)

lemma lookup_mono: "m \<subseteq>\<^sub>m m' \<Longrightarrow> lookup get m a = Some x \<Longrightarrow> lookup get m' a = Some x"
  by (auto simp: lookup_def map_le_def bind_eq_Some_conv dom_def)

lemma lookup_upd: "lookup get (m(a \<mapsto> c)) b = (if b = a then get c else lookup get m b)"
  by (simp add: lookup_def)

text \<open>The cells from an address on, and the memories that only differ in cells allocated since.\<close>

definition cells_from :: "addr \<Rightarrow> (addr \<rightharpoonup> 'c) \<Rightarrow> addr \<rightharpoonup> 'c" where
  "cells_from n m = m |` {n..}"

definition extends :: "'c mem \<Rightarrow> 'c mem \<Rightarrow> bool" where
  "extends h h' \<longleftrightarrow> wf_mem h' \<and> m_next h \<le> m_next h' \<and> m_cells h \<subseteq>\<^sub>m m_cells h'"

lemma extends_refl: "wf_mem h \<Longrightarrow> extends h h"
  by (simp add: extends_def)

lemma extends_trans: "extends h h' \<Longrightarrow> extends h' h'' \<Longrightarrow> extends h h''"
  by (auto simp: extends_def intro: map_le_trans)

lemma extends_wf: "extends h h' \<Longrightarrow> wf_mem h'"
  by (simp add: extends_def)

lemma extends_cells: "extends h h' \<Longrightarrow> m_cells h \<subseteq>\<^sub>m m_cells h'"
  by (simp add: extends_def)

lemma from_mono: "m \<subseteq>\<^sub>m m' \<Longrightarrow> cells_from n m \<subseteq>\<^sub>m cells_from n m'"
  by (auto simp: cells_from_def map_le_def restrict_map_def dom_def)

lemma from_le: "n \<le> k \<Longrightarrow> cells_from k m \<subseteq>\<^sub>m cells_from n m"
  by (auto simp: cells_from_def map_le_def restrict_map_def dom_def)

lemma from_sub: "cells_from n m \<subseteq>\<^sub>m m"
  by (auto simp: cells_from_def map_le_def restrict_map_def dom_def)

lemma from_upd: "a < n \<Longrightarrow> cells_from n (m(a \<mapsto> c)) = cells_from n m"
  by (auto simp: cells_from_def restrict_map_def fun_eq_iff)

lemma lookup_from: "n \<le> a \<Longrightarrow> lookup get (cells_from n m) a = lookup get m a"
  by (simp add: lookup_def cells_from_def)

text \<open>Everything but one cell.\<close>

definition without :: "addr \<Rightarrow> (addr \<rightharpoonup> 'c) \<Rightarrow> addr \<rightharpoonup> 'c" where
  "without a m = m(a := None)"

lemma without_sub: "without a m \<subseteq>\<^sub>m m"
  by (auto simp: without_def map_le_def)

lemma without_upd [simp]: "without a (m(a \<mapsto> c)) = without a m"
  by (simp add: without_def)

lemma without_mono: "m \<subseteq>\<^sub>m m' \<Longrightarrow> without a m \<subseteq>\<^sub>m without a m'"
  by (auto simp: without_def map_le_def dom_def)

lemma without_new: "m a = None \<Longrightarrow> without a m = m"
  by (auto simp: without_def)

lemma from_without: "without a m \<subseteq>\<^sub>m without a m' \<Longrightarrow> cells_from (Suc a) m \<subseteq>\<^sub>m cells_from (Suc a) m'"
  unfolding map_le_def without_def cells_from_def restrict_map_def dom_def
  by (auto split: if_splits) (metis Suc_n_not_le_n option.distinct(1))

lemma wf_fresh: "wf_mem h \<Longrightarrow> m_next h \<le> a \<Longrightarrow> m_cells h a = None"
  by (auto simp: wf_mem_def dom_def)

section \<open>The contract of a deep copy\<close>

text \<open>A program that only allocates and whose result reads \<open>v\<close> in the cells from \<open>n\<close> on.\<close>

definition produces ::
  "addr \<Rightarrow> ((addr \<rightharpoonup> 'c) \<Rightarrow> 'a \<Rightarrow> 'v option) \<Rightarrow> ('c mem, 'a outcome) state \<Rightarrow> 'c mem \<Rightarrow> 'v \<Rightarrow> bool" where
  "produces n rd p h v \<longleftrightarrow>
     (\<exists>y h'. run_state p h = (Ok y, h') \<and> extends h h' \<and> rd (cells_from n (m_cells h')) y = Some v)"

locale copying =
  fixes copy :: "'a \<Rightarrow> ('c mem, 'a outcome) state"
    and reads :: "(addr \<rightharpoonup> 'c) \<Rightarrow> 'a \<Rightarrow> 'v option"
  assumes reads_mono: "m \<subseteq>\<^sub>m m' \<Longrightarrow> reads m x = Some v \<Longrightarrow> reads m' x = Some v"
    and copy_new: "wf_mem h \<Longrightarrow> reads (m_cells h) x = Some v \<Longrightarrow> produces (m_next h) reads (copy x) h v"
begin

lemma reads_later: "extends h h' \<Longrightarrow> reads (m_cells h) x = Some v \<Longrightarrow> reads (m_cells h') x = Some v"
  by (rule reads_mono [OF extends_cells])

lemma cells_later: "extends h h' \<Longrightarrow> reads (cells_from n (m_cells h)) x = Some v \<Longrightarrow> reads (cells_from n (m_cells h')) x = Some v"
  by (rule reads_mono [OF from_mono [OF extends_cells]])

lemma copy_from:
  assumes "wf_mem h" and "n \<le> m_next h" and "reads (m_cells h) x = Some v"
  shows "produces n reads (copy x) h v"
  using copy_new [OF assms(1,3)] reads_mono [OF from_le [OF assms(2)]] unfolding produces_def by blast

text \<open>
  What a deep copy is for: the copy keeps its meaning whatever happens to the cells that were there before, and the original
  its own whatever happens to the new ones.
\<close>

lemma isolated:
  assumes "wf_mem h" and "reads (m_cells h) x = Some v"
  shows "\<exists>y h'. run_state (copy x) h = (Ok y, h') \<and>
    (\<forall>g. (\<forall>a\<ge>m_next h. g a = m_cells h' a) \<longrightarrow> reads g y = Some v) \<and>
    (\<forall>g. (\<forall>a<m_next h. g a = m_cells h' a) \<longrightarrow> reads g x = Some v)"
proof -
  obtain y h' where run: "run_state (copy x) h = (Ok y, h')" and ext: "extends h h'"
    and y: "reads (cells_from (m_next h) (m_cells h')) y = Some v"
    using copy_new [OF assms] unfolding produces_def by blast
  have "reads g y = Some v" if "\<forall>a\<ge>m_next h. g a = m_cells h' a" for g
    using that by (intro reads_mono [OF _ y]) (auto simp: cells_from_def map_le_def restrict_map_def dom_def)
  moreover have "reads g x = Some v" if "\<forall>a<m_next h. g a = m_cells h' a" for g
    using that assms(1) extends_cells [OF ext]
    by (intro reads_mono [OF _ assms(2)]) (auto simp: map_le_def wf_mem_def dom_def subset_iff)
  ultimately show ?thesis using run by blast
qed

end

lemma produces_ret: "wf_mem h \<Longrightarrow> rd (cells_from n (m_cells h)) y = Some v \<Longrightarrow> produces n rd (ret (Ok y)) h v"
  by (simp add: produces_def extends_refl)

lemma produces_bindO:
  assumes "produces n rd1 p h v1"
    and "\<And>y h'. extends h h' \<Longrightarrow> rd1 (cells_from n (m_cells h')) y = Some v1 \<Longrightarrow> produces n rd (f y) h' v"
  shows "produces n rd (bindO p f) h v"
proof -
  obtain y h' where "run_state p h = (Ok y, h')" "extends h h'" "rd1 (cells_from n (m_cells h')) y = Some v1"
    using assms(1) by (auto simp: produces_def)
  moreover from this obtain z h'' where "run_state (f y) h' = (Ok z, h'')" "extends h' h''"
    "rd (cells_from n (m_cells h'')) z = Some v" using assms(2) unfolding produces_def by blast
  ultimately show ?thesis by (auto simp: produces_def run_bindO intro: extends_trans)
qed

text \<open>A value without pointers is copied by assignment.\<close>

lemma copying_plain: "copying (\<lambda>x. ret (Ok x)) (\<lambda>_ x. Some (f x))"
  by unfold_locales (simp_all add: produces_ret)

text \<open>One field of a struct: its copy, then the rest in the memory that has it.\<close>

lemma produces_field:
  assumes "copying copy rd1" "wf_mem h" "n \<le> m_next h" "rd1 (m_cells h) x = Some v1"
    and "\<And>y h'. extends h h' \<Longrightarrow> wf_mem h' \<Longrightarrow> n \<le> m_next h' \<Longrightarrow> rd1 (cells_from n (m_cells h')) y = Some v1 \<Longrightarrow>
      produces n rd (f y) h' v"
  shows "produces n rd (bindO (copy x) f) h v"
proof (rule produces_bindO [where ?rd1.0 = rd1 and ?v1.0 = v1])
  show "produces n rd1 (copy x) h v1" by (rule copying.copy_from [OF assms(1-4)])
  show "produces n rd (f y) h' v" if "extends h h'" "rd1 (cells_from n (m_cells h')) y = Some v1" for y h'
    by (rule assms(5) [OF that(1) extends_wf [OF that(1)] _ that(2)]) (use that(1) assms(3) in \<open>simp add: extends_def\<close>)
qed

interpretation plain: copying "\<lambda>x. ret (Ok x)" "\<lambda>_ x. Some x"
  by (rule copying_plain)

section \<open>Pointers, slices and maps\<close>

text \<open>How the values of one Go type are laid in cells.\<close>

record ('c, 'x) kind =
  k_put :: "'x \<Rightarrow> 'c"
  k_get :: "'c \<Rightarrow> 'x option"

definition cell_kind :: "('c, 'x) kind \<Rightarrow> bool" where
  "cell_kind K \<longleftrightarrow> (\<forall>x. k_get K (k_put K x) = Some x)"

text \<open>A slice is a window of an array; the capacity plays no part here.\<close>

record slice =
  sl_array :: addr
  sl_off :: nat
  sl_len :: nat

definition window :: "slice \<Rightarrow> 'a list \<Rightarrow> 'a list" where
  "window s xs = take (sl_len s) (drop (sl_off s) xs)"

definition reads_ptr ::
  "('c, 'x) kind \<Rightarrow> ((addr \<rightharpoonup> 'c) \<Rightarrow> 'x \<Rightarrow> 'v option) \<Rightarrow> (addr \<rightharpoonup> 'c) \<Rightarrow> addr option \<Rightarrow> 'v option option" where
  "reads_ptr K rd m p =
     (case p of
        None \<Rightarrow> Some None
      | Some a \<Rightarrow> (case lookup (k_get K) m a of None \<Rightarrow> None | Some x \<Rightarrow> map_option Some (rd m x)))"

definition reads_slice ::
  "('c, 'x list) kind \<Rightarrow> ((addr \<rightharpoonup> 'c) \<Rightarrow> 'x \<Rightarrow> 'v option) \<Rightarrow> (addr \<rightharpoonup> 'c) \<Rightarrow> slice option \<Rightarrow> 'v list option option" where
  "reads_slice K rd m s =
     (case s of
        None \<Rightarrow> Some None
      | Some sl \<Rightarrow>
          (case lookup (k_get K) m (sl_array sl) of
             None \<Rightarrow> None
           | Some xs \<Rightarrow>
               if sl_off sl + sl_len sl \<le> length xs then map_option Some (those (map (rd m) (window sl xs))) else None))"

definition reads_map ::
  "('c, ('k, 'x) gomap) kind \<Rightarrow> ((addr \<rightharpoonup> 'c) \<Rightarrow> 'x \<Rightarrow> 'v option) \<Rightarrow> (addr \<rightharpoonup> 'c) \<Rightarrow> addr option \<Rightarrow>
   ('k, 'v) gomap option option" where
  "reads_map K rd m p =
     (case p of
        None \<Rightarrow> Some None
      | Some a \<Rightarrow>
          (case lookup (k_get K) m a of
             None \<Rightarrow> None
           | Some xs \<Rightarrow>
               if distinct (mkeys xs)
               then map_option Some (those (map (\<lambda>(k, x). map_option (Pair k) (rd m x)) xs)) else None))"

text \<open>\<^verbatim>\<open>*out = new(T)\<close>, then the fields of \<^verbatim>\<open>*in\<close> into \<^verbatim>\<open>*out\<close>.\<close>

definition copy_ptr ::
  "('c, 'x) kind \<Rightarrow> 'x \<Rightarrow> ('x \<Rightarrow> ('c mem, 'x outcome) state) \<Rightarrow> addr option \<Rightarrow> ('c mem, addr option outcome) state" where
  "copy_ptr K zero deepCopyInto p =
     (case p of
        None \<Rightarrow> ret (Ok None)
      | Some a \<Rightarrow> do {
          out \<leftarrow> new (k_put K zero);
          bindO (deref (k_get K) a) (\<lambda>x. bindO (deepCopyInto x) (\<lambda>y. do {
            _ \<leftarrow> store out (k_put K y);
            ret (Ok (Some out)) }))
        })"

text \<open>The loops that fill a new array or map, one element after the other.\<close>

fun fill ::
  "('c, 'x) kind \<Rightarrow> addr \<Rightarrow> ('e \<Rightarrow> ('c mem, 'y outcome) state) \<Rightarrow> ('e \<Rightarrow> 'y \<Rightarrow> 'x \<Rightarrow> 'x) \<Rightarrow> 'e list \<Rightarrow>
   ('c mem, unit outcome) state" where
  "fill K out copyElem assign [] = ret (Ok ())"
| "fill K out copyElem assign (e # es) =
     bindO (copyElem e) (\<lambda>y. bindO (deref (k_get K) out) (\<lambda>c. do {
       _ \<leftarrow> store out (k_put K (assign e y c));
       fill K out copyElem assign es }))"

text \<open>\<^verbatim>\<open>*out = make([]T, len(*in))\<close>, then \<^verbatim>\<open>(*out)[i]\<close> from \<^verbatim>\<open>(*in)[i]\<close> for each \<^verbatim>\<open>i\<close>.\<close>

definition copy_slice ::
  "('c, 'x list) kind \<Rightarrow> 'x \<Rightarrow> ('x \<Rightarrow> ('c mem, 'x outcome) state) \<Rightarrow> slice option \<Rightarrow> ('c mem, slice option outcome) state" where
  "copy_slice K zero copyElem s =
     (case s of
        None \<Rightarrow> ret (Ok None)
      | Some sl \<Rightarrow> do {
          out \<leftarrow> new (k_put K (replicate (sl_len sl) zero));
          bindO (deref (k_get K) (sl_array sl)) (\<lambda>xs.
            bindO (fill K out (\<lambda>(i, x). copyElem x) (\<lambda>(i, x) y ys. ys[i := y]) (List.enumerate 0 (window sl xs))) (\<lambda>_.
              ret (Ok (Some \<lparr>sl_array = out, sl_off = 0, sl_len = sl_len sl\<rparr>))))
        })"

text \<open>\<^verbatim>\<open>*out = make(map[K]V, len(*in))\<close>, then \<^verbatim>\<open>(*out)[key]\<close> for each \<^verbatim>\<open>key\<close>.\<close>

definition copy_map ::
  "('c, ('k, 'x) gomap) kind \<Rightarrow> ('x \<Rightarrow> ('c mem, 'x outcome) state) \<Rightarrow> addr option \<Rightarrow> ('c mem, addr option outcome) state" where
  "copy_map K copyElem p =
     (case p of
        None \<Rightarrow> ret (Ok None)
      | Some a \<Rightarrow> do {
          out \<leftarrow> new (k_put K []);
          bindO (deref (k_get K) a) (\<lambda>xs.
            bindO (fill K out (\<lambda>(k, x). copyElem x) (\<lambda>(k, x) y ys. mput k y ys) xs) (\<lambda>_. ret (Ok (Some out))))
        })"

subsection \<open>The loop\<close>

lemma those_map_eq: "those (map f xs) = Some vs \<longleftrightarrow> list_all2 (\<lambda>x v. f x = Some v) xs vs"
proof (induction xs arbitrary: vs)
  case (Cons x xs)
  then show ?case by (cases vs) (auto split: option.split)
qed auto

lemma fill_produces:
  fixes part :: "'e \<Rightarrow> 'a"
  assumes copying: "copying copy rd" and kind: "cell_kind K"
  shows "wf_mem h \<Longrightarrow> out < m_next h \<Longrightarrow> lookup (k_get K) (m_cells h) out = Some c \<Longrightarrow>
    list_all2 (\<lambda>e v. rd (without out (m_cells h)) (part e) = Some v) es vs \<Longrightarrow>
    \<exists>ys h'. run_state (fill K out (\<lambda>e. copy (part e)) assign es) h = (Ok (), h') \<and>
      wf_mem h' \<and> m_next h \<le> m_next h' \<and> without out (m_cells h) \<subseteq>\<^sub>m without out (m_cells h') \<and>
      list_all2 (\<lambda>y v. rd (cells_from (Suc out) (m_cells h')) y = Some v) ys vs \<and>
      lookup (k_get K) (m_cells h') out = Some (fold (\<lambda>(e, y). assign e y) (zip es ys) c)"
proof (induction es arbitrary: h c vs)
  case Nil
  then show ?case by auto
next
  case (Cons e es)
  note mono = copying.reads_mono [OF copying]
  obtain v vs' where vs: "vs = v # vs'" and e: "rd (without out (m_cells h)) (part e) = Some v"
    and es: "list_all2 (\<lambda>e v. rd (without out (m_cells h)) (part e) = Some v) es vs'"
    using Cons.prems(4) by (cases vs) simp_all
  obtain y h1 where run: "run_state (copy (part e)) h = (Ok y, h1)" and ext: "extends h h1"
    and y: "rd (cells_from (Suc out) (m_cells h1)) y = Some v"
    using copying.copy_from [OF copying Cons.prems(1) _ mono [OF without_sub e], of "Suc out"] Cons.prems(2)
    by (auto simp: produces_def)
  let ?h2 = "h1\<lparr>m_cells := (m_cells h1)(out \<mapsto> k_put K (assign e y c))\<rparr>"
  have out: "lookup (k_get K) (m_cells h1) out = Some c" by (rule lookup_mono [OF extends_cells [OF ext] Cons.prems(3)])
  have next1: "m_next h \<le> m_next h1" using ext by (simp add: extends_def)
  have wf2: "wf_mem ?h2" using extends_wf [OF ext] Cons.prems(2) next1 by (auto simp: wf_mem_def)
  have le2: "without out (m_cells h) \<subseteq>\<^sub>m without out (m_cells ?h2)"
    using without_mono [OF extends_cells [OF ext]] by simp
  have es2: "list_all2 (\<lambda>e v. rd (without out (m_cells ?h2)) (part e) = Some v) es vs'"
    using es by (rule list_all2_mono) (rule mono [OF le2])
  have cell2: "lookup (k_get K) (m_cells ?h2) out = Some (assign e y c)"
    using kind by (simp add: lookup_upd cell_kind_def)
  have out2: "out < m_next ?h2" using Cons.prems(2) next1 by simp
  obtain ys h' where rest: "run_state (fill K out (\<lambda>e. copy (part e)) assign es) ?h2 = (Ok (), h')"
      "wf_mem h'" "m_next ?h2 \<le> m_next h'" and le': "without out (m_cells ?h2) \<subseteq>\<^sub>m without out (m_cells h')"
    and ys: "list_all2 (\<lambda>y v. rd (cells_from (Suc out) (m_cells h')) y = Some v) ys vs'"
    and cell: "lookup (k_get K) (m_cells h') out = Some (fold (\<lambda>(e, y). assign e y) (zip es ys) (assign e y c))"
    using Cons.IH [OF wf2 out2 cell2 es2] by blast
  have "cells_from (Suc out) (m_cells h1) \<subseteq>\<^sub>m cells_from (Suc out) (m_cells h')"
    using from_without [OF le'] by (simp add: from_upd)
  then have "rd (cells_from (Suc out) (m_cells h')) y = Some v" by (rule mono [OF _ y])
  moreover have "without out (m_cells h) \<subseteq>\<^sub>m without out (m_cells h')" by (rule map_le_trans [OF le2 le'])
  ultimately show ?case
    using run out rest ys cell next1
    by (intro exI [of _ "y # ys"] exI [of _ h']) (auto simp: vs run_bindO)
qed

subsection \<open>Copies of compound values\<close>

lemma fill_array:
  "length ys = length xs \<Longrightarrow> k + length xs = length c \<Longrightarrow>
   fold (\<lambda>(e, y). (\<lambda>(i, x) y ys. ys[i := y]) e y) (zip (List.enumerate k xs) ys) c = take k c @ ys"
proof (induction xs arbitrary: k ys c)
  case (Cons x xs)
  then obtain y ys' where ys: "ys = y # ys'" by (cases ys) auto
  have "take (Suc k) (c[k := y]) = take k c @ [y]" using Cons.prems(2) by (simp add: take_Suc_conv_app_nth)
  then show ?case using Cons.IH [of ys' "Suc k" "c[k := y]"] Cons.prems by (simp add: ys)
qed auto

lemma update_new: "k \<notin> set (mkeys c) \<Longrightarrow> mput k y c = c @ [(k, y)]"
  by (induction c) auto

lemma fill_map:
  "length ys = length xs \<Longrightarrow> distinct (mkeys (c @ xs)) \<Longrightarrow>
   fold (\<lambda>(e, y). (\<lambda>(k, x) y ys. mput k y ys) e y) (zip xs ys) c = c @ zip (mkeys xs) ys"
proof (induction xs arbitrary: ys c)
  case (Cons e xs)
  obtain k x where e: "e = (k, x)" by (cases e)
  obtain y ys' where ys: "ys = y # ys'" using Cons.prems by (cases ys) auto
  have "mput k y c = c @ [(k, y)]" using Cons.prems(2) by (intro update_new) (auto simp: e)
  then show ?case using Cons.IH [of ys' "c @ [(k, y)]"] Cons.prems by (simp add: e ys)
qed simp

text \<open>The memory once the new container is allocated.\<close>

lemma after_new:
  assumes "wf_mem h" "run_state (new c) h = (out, h1)"
  shows "out = m_next h" "wf_mem h1" "out < m_next h1" "m_cells h1 = (m_cells h)(out \<mapsto> c)"
    "without out (m_cells h1) = m_cells h" "m_cells h \<subseteq>\<^sub>m m_cells h1" "extends h h1"
proof -
  have h1: "out = m_next h" "h1 = \<lparr>m_cells = (m_cells h)(out \<mapsto> c), m_next = Suc (m_next h)\<rparr>" using assms(2) by auto
  have free: "m_cells h out = None" using wf_fresh [OF assms(1)] h1(1) by simp
  show "out = m_next h" "out < m_next h1" "m_cells h1 = (m_cells h)(out \<mapsto> c)" using h1 by simp_all
  show "without out (m_cells h1) = m_cells h" using h1(2) free by (simp add: without_new)
  show wf1: "wf_mem h1" using assms(1) h1 by (auto simp: wf_mem_def)
  show le: "m_cells h \<subseteq>\<^sub>m m_cells h1" using h1(2) free by (auto simp: map_le_def)
  show "extends h h1" using wf1 le h1 by (simp add: extends_def)
qed

lemma copying_ptr:
  assumes copying: "copying copy rd" and kind: "cell_kind K"
  shows "copying (copy_ptr K zero copy) (reads_ptr K rd)"
proof
  fix m m' x v assume "m \<subseteq>\<^sub>m m'" "reads_ptr K rd m x = Some v"
  then show "reads_ptr K rd m' x = Some v"
    using copying.reads_mono [OF copying, of m m']
    by (auto simp: reads_ptr_def lookup_mono split: option.splits)
next
  fix h p v assume wf: "wf_mem h" and p: "reads_ptr K rd (m_cells h) p = Some v"
  show "produces (m_next h) (reads_ptr K rd) (copy_ptr K zero copy p) h v"
  proof (cases p)
    case None
    then show ?thesis using wf p by (simp add: copy_ptr_def reads_ptr_def produces_ret)
  next
    case (Some a)
    obtain x w where x: "lookup (k_get K) (m_cells h) a = Some x" "rd (m_cells h) x = Some w" and v: "v = Some w"
      using p Some by (auto simp: reads_ptr_def split: option.splits)
    obtain out h1 where alloc: "run_state (new (k_put K zero)) h = (out, h1)" by force
    note h1 = after_new [OF wf alloc]
    have "rd (m_cells h1) x = Some w" by (rule copying.reads_mono [OF copying h1(6) x(2)])
    then have "produces (Suc out) rd (copy x) h1 w"
      by (intro copying.copy_from [OF copying h1(2)]) (use h1(3) in simp)
    then obtain y h2 where run: "run_state (copy x) h1 = (Ok y, h2)" and ext: "extends h1 h2"
      and y: "rd (cells_from (Suc out) (m_cells h2)) y = Some w"
      unfolding produces_def by blast
    let ?h3 = "h2\<lparr>m_cells := (m_cells h2)(out \<mapsto> k_put K y)\<rparr>"
    have "extends h ?h3"
      using extends_trans [OF h1(7) ext] h1(1,3) ext wf_fresh [OF wf, of "m_next h"]
      by (auto simp: extends_def wf_mem_def map_le_def)
    moreover have "rd (cells_from (m_next h) (m_cells ?h3)) y = Some w"
      by (rule copying.reads_mono [OF copying from_le [of _ "Suc out"]]) (use y h1(1) in \<open>simp_all add: from_upd\<close>)
    moreover have "lookup (k_get K) (cells_from (m_next h) (m_cells ?h3)) out = Some y"
      using kind h1(1) by (simp add: lookup_from lookup_upd cell_kind_def)
    ultimately show ?thesis
      using lookup_mono [OF h1(6) x(1)] run
      by (simp add: produces_def copy_ptr_def Some run_bindO reads_ptr_def v alloc del: run_new)
  qed
qed

text \<open>Slices and maps share the loop.\<close>

lemma fill_container:
  fixes part :: "'e \<Rightarrow> 'a"
  assumes copying: "copying copy rd" and kind: "cell_kind K" and wf: "wf_mem h"
    and alloc: "run_state (new (k_put K c)) h = (out, h1)"
    and es: "list_all2 (\<lambda>e v. rd (m_cells h) (part e) = Some v) es vs"
  obtains ys h' where "run_state (fill K out (\<lambda>e. copy (part e)) assign es) h1 = (Ok (), h')" "extends h h'"
    "list_all2 (\<lambda>y v. rd (cells_from (m_next h) (m_cells h')) y = Some v) ys vs"
    "lookup (k_get K) (cells_from (m_next h) (m_cells h')) out = Some (fold (\<lambda>(e, y). assign e y) (zip es ys) c)"
proof -
  note h1 = after_new [OF wf alloc]
  have "lookup (k_get K) (m_cells h1) out = Some c" using kind h1(4) by (simp add: lookup_upd cell_kind_def)
  moreover have "list_all2 (\<lambda>e v. rd (without out (m_cells h1)) (part e) = Some v) es vs" unfolding h1(5) by (rule es)
  ultimately obtain ys h' where run: "run_state (fill K out (\<lambda>e. copy (part e)) assign es) h1 = (Ok (), h')"
      and wf': "wf_mem h'" "m_next h1 \<le> m_next h'" and le: "without out (m_cells h1) \<subseteq>\<^sub>m without out (m_cells h')"
    and ys: "list_all2 (\<lambda>y v. rd (cells_from (Suc out) (m_cells h')) y = Some v) ys vs"
    and cell: "lookup (k_get K) (m_cells h') out = Some (fold (\<lambda>(e, y). assign e y) (zip es ys) c)"
    using fill_produces [OF copying kind h1(2,3)] by blast
  have "m_cells h \<subseteq>\<^sub>m m_cells h'" using map_le_trans [OF le without_sub] unfolding h1(5) .
  then have "extends h h'" using wf' h1(7) by (simp add: extends_def)
  moreover have "list_all2 (\<lambda>y v. rd (cells_from (m_next h) (m_cells h')) y = Some v) ys vs"
    using ys by (rule list_all2_mono) (rule copying.reads_mono [OF copying from_le], simp_all add: h1(1))
  ultimately show thesis using that run cell h1(1) by (simp add: lookup_from)
qed

lemma copying_slice:
  assumes copying: "copying copy rd" and kind: "cell_kind K"
  shows "copying (copy_slice K zero copy) (reads_slice K rd)"
proof
  fix m m' x v assume le: "m \<subseteq>\<^sub>m m'" and x: "reads_slice K rd m x = Some v"
  have "list_all2 (\<lambda>x v. rd m x = Some v) xs vs \<Longrightarrow> list_all2 (\<lambda>x v. rd m' x = Some v) xs vs" for xs vs
    by (erule list_all2_mono) (rule copying.reads_mono [OF copying le])
  then show "reads_slice K rd m' x = Some v" using x
    by (auto simp: reads_slice_def lookup_mono [OF le] those_map_eq split: option.splits if_splits)
next
  fix h s v assume wf: "wf_mem h" and s: "reads_slice K rd (m_cells h) s = Some v"
  show "produces (m_next h) (reads_slice K rd) (copy_slice K zero copy s) h v"
  proof (cases s)
    case None
    then show ?thesis using wf s by (simp add: copy_slice_def reads_slice_def produces_ret)
  next
    case (Some sl)
    obtain xs vs where xs: "lookup (k_get K) (m_cells h) (sl_array sl) = Some xs" "sl_off sl + sl_len sl \<le> length xs"
      and vs: "list_all2 (\<lambda>x v. rd (m_cells h) x = Some v) (window sl xs) vs" and v: "v = Some vs"
      using s Some by (auto simp: reads_slice_def those_map_eq split: option.splits if_splits)
    have len: "length (window sl xs) = sl_len sl" using xs(2) by (simp add: window_def)
    obtain out h1 where alloc: "run_state (new (k_put K (replicate (sl_len sl) zero))) h = (out, h1)" by force
    have "list_all2 (\<lambda>e v. rd (m_cells h) (snd e) = Some v) (List.enumerate 0 (window sl xs)) vs"
      using vs by (simp add: list_all2_conv_all_nth nth_enumerate_eq)
    then obtain ys h' where run: "run_state (fill K out (\<lambda>e. copy (snd e)) (\<lambda>(i, x) y ys. ys[i := y]) (List.enumerate 0 (window sl xs))) h1 = (Ok (), h')"
      and ext: "extends h h'" and ys: "list_all2 (\<lambda>y v. rd (cells_from (m_next h) (m_cells h')) y = Some v) ys vs"
      and cell: "lookup (k_get K) (cells_from (m_next h) (m_cells h')) out =
        Some (fold (\<lambda>(e, y). (\<lambda>(i, x) y ys. ys[i := y]) e y) (zip (List.enumerate 0 (window sl xs)) ys) (replicate (sl_len sl) zero))"
      using fill_container [OF copying kind wf alloc, where part = snd and es = "List.enumerate 0 (window sl xs)" and vs = vs
          and assign = "\<lambda>(i, x) y ys. ys[i := y]"] by blast
    have "length ys = length (window sl xs)" using ys vs by (simp add: list_all2_lengthD)
    then have "lookup (k_get K) (cells_from (m_next h) (m_cells h')) out = Some ys" "length ys = sl_len sl"
      using cell fill_array [of ys "window sl xs" 0 "replicate (sl_len sl) zero"] len by simp_all
    then have "reads_slice K rd (cells_from (m_next h) (m_cells h')) (Some \<lparr>sl_array = out, sl_off = 0, sl_len = sl_len sl\<rparr>) = Some v"
      using ys by (simp add: reads_slice_def window_def v those_map_eq)
    moreover have "lookup (k_get K) (m_cells h1) (sl_array sl) = Some xs"
      by (rule lookup_mono [OF after_new(6) [OF wf alloc] xs(1)])
    ultimately show ?thesis
      using run ext unfolding produces_def copy_slice_def Some
      by (simp add: run_bindO alloc case_prod_unfold del: run_new)
  qed
qed

lemma copying_map:
  assumes copying: "copying copy rd" and kind: "cell_kind K"
  shows "copying (copy_map K copy) (reads_map K rd)"
proof
  fix m m' x v assume le: "m \<subseteq>\<^sub>m m'" and x: "reads_map K rd m x = Some v"
  have "list_all2 (\<lambda>(k, x) v. map_option (Pair k) (rd m x) = Some v) xs vs \<Longrightarrow>
      list_all2 (\<lambda>(k, x) v. map_option (Pair k) (rd m' x) = Some v) xs vs" for xs vs
    by (erule list_all2_mono) (auto intro: copying.reads_mono [OF copying le])
  then show "reads_map K rd m' x = Some v" using x
    by (auto simp: reads_map_def lookup_mono [OF le] those_map_eq case_prod_unfold split: option.splits if_splits)
next
  fix h p v assume wf: "wf_mem h" and p: "reads_map K rd (m_cells h) p = Some v"
  show "produces (m_next h) (reads_map K rd) (copy_map K copy p) h v"
  proof (cases p)
    case None
    then show ?thesis using wf p by (simp add: copy_map_def reads_map_def produces_ret)
  next
    case (Some a)
    obtain xs vs where xs: "lookup (k_get K) (m_cells h) a = Some xs" "distinct (mkeys xs)"
      and vs: "list_all2 (\<lambda>e v. map_option (Pair (fst e)) (rd (m_cells h) (snd e)) = Some v) xs vs" and v: "v = Some vs"
      using p Some by (auto simp: reads_map_def those_map_eq case_prod_unfold split: option.splits if_splits)
    have keys: "mkeys vs = mkeys xs" using vs by induction auto
    have "list_all2 (\<lambda>e w. rd (m_cells h) (snd e) = Some w) xs (map snd vs)"
      using vs by induction auto
    obtain out h1 where alloc: "run_state (new (k_put K [])) h = (out, h1)" by force
    then obtain ys h' where run: "run_state (fill K out (\<lambda>e. copy (snd e)) (\<lambda>(k, x) y ys. mput k y ys) xs) h1 = (Ok (), h')"
      and ext: "extends h h'" and ys: "list_all2 (\<lambda>y v. rd (cells_from (m_next h) (m_cells h')) y = Some v) ys (map snd vs)"
      and cell: "lookup (k_get K) (cells_from (m_next h) (m_cells h')) out =
        Some (fold (\<lambda>(e, y). (\<lambda>(k, x) y ys. mput k y ys) e y) (zip xs ys) [])"
      using fill_container [OF copying kind wf alloc, where part = snd and es = xs and vs = "map snd vs"
          and assign = "\<lambda>(k, x) y ys. mput k y ys"] \<open>list_all2 (\<lambda>e w. rd (m_cells h) (snd e) = Some w) xs (map snd vs)\<close> by blast
    have len: "length ys = length xs" using ys vs by (simp add: list_all2_lengthD)
    then have "lookup (k_get K) (cells_from (m_next h) (m_cells h')) out = Some (zip (mkeys xs) ys)"
      using cell fill_map [of ys xs "[]"] xs(2) by simp
    moreover have "list_all2 (\<lambda>e v. map_option (Pair (fst e)) (rd (cells_from (m_next h) (m_cells h')) (snd e)) = Some v) (zip (mkeys xs) ys) vs"
      using ys len unfolding keys [symmetric]
      by (auto simp: list_all2_conv_all_nth)
    ultimately have "reads_map K rd (cells_from (m_next h) (m_cells h')) (Some out) = Some v"
      using xs(2) len by (simp add: reads_map_def v those_map_eq case_prod_unfold)
    moreover have "lookup (k_get K) (m_cells h1) a = Some xs"
      by (rule lookup_mono [OF after_new(6) [OF wf alloc] xs(1)])
    ultimately show ?thesis
      using run ext unfolding produces_def copy_map_def Some
      by (simp add: run_bindO alloc case_prod_unfold del: run_new)
  qed
qed

section \<open>Structs\<close>

text \<open>The fields of a struct are copied one after the other, the others are assigned with \<^verbatim>\<open>*out = *in\<close>.\<close>

definition copy_pair ::
  "('a \<Rightarrow> ('c mem, 'a outcome) state) \<Rightarrow> ('b \<Rightarrow> ('c mem, 'b outcome) state) \<Rightarrow> 'a \<times> 'b \<Rightarrow> ('c mem, ('a \<times> 'b) outcome) state" where
  "copy_pair copy1 copy2 p = bindO (copy1 (fst p)) (\<lambda>x. bindO (copy2 (snd p)) (\<lambda>y. ret (Ok (x, y))))"

definition reads_pair ::
  "((addr \<rightharpoonup> 'c) \<Rightarrow> 'a \<Rightarrow> 'v option) \<Rightarrow> ((addr \<rightharpoonup> 'c) \<Rightarrow> 'b \<Rightarrow> 'w option) \<Rightarrow> (addr \<rightharpoonup> 'c) \<Rightarrow> 'a \<times> 'b \<Rightarrow> ('v \<times> 'w) option" where
  "reads_pair rd1 rd2 m p =
     (case (rd1 m (fst p), rd2 m (snd p)) of (Some v, Some w) \<Rightarrow> Some (v, w) | _ \<Rightarrow> None)"

lemma reads_pair_iff:
  "reads_pair rd1 rd2 m p = Some z \<longleftrightarrow> rd1 m (fst p) = Some (fst z) \<and> rd2 m (snd p) = Some (snd z)"
  by (cases z) (auto simp: reads_pair_def split: option.splits)

lemma bindO_assoc: "bindO (bindO m f) g = bindO m (\<lambda>x. bindO (f x) g)"
  by (rule state_ext) (simp add: run_bindO split: prod.splits outcome.splits)

lemma copying_pair:
  assumes c1: "copying copy1 rd1" and c2: "copying copy2 rd2"
  shows "copying (copy_pair copy1 copy2) (reads_pair rd1 rd2)"
proof
  show "reads_pair rd1 rd2 m' x = Some v" if "m \<subseteq>\<^sub>m m'" "reads_pair rd1 rd2 m x = Some v" for m m' x v
    using that copying.reads_mono [OF c1 that(1)] copying.reads_mono [OF c2 that(1)] by (simp add: reads_pair_iff)
next
  fix h p z assume wf: "wf_mem h" and p: "reads_pair rd1 rd2 (m_cells h) p = Some z"
  then have p1: "rd1 (m_cells h) (fst p) = Some (fst z)" and p2: "rd2 (m_cells h) (snd p) = Some (snd z)"
    by (simp_all add: reads_pair_iff)
  show "produces (m_next h) (reads_pair rd1 rd2) (copy_pair copy1 copy2 p) h z"
    unfolding copy_pair_def
  proof (rule produces_field [OF c1 wf order_refl p1])
    fix y h' assume h': "extends h h'" "wf_mem h'" "m_next h \<le> m_next h'" "rd1 (cells_from (m_next h) (m_cells h')) y = Some (fst z)"
    show "produces (m_next h) (reads_pair rd1 rd2) (bindO (copy2 (snd p)) (\<lambda>y'. ret (Ok (y, y')))) h' z"
    proof (rule produces_field [OF c2 h'(2,3) copying.reads_later [OF c2 h'(1) p2]])
      fix y' h'' assume "extends h' h''" "wf_mem h''" "rd2 (cells_from (m_next h) (m_cells h'')) y' = Some (snd z)"
      then show "produces (m_next h) (reads_pair rd1 rd2) (ret (Ok (y, y'))) h'' z"
        using copying.cells_later [OF c1 _ h'(4)] by (intro produces_ret) (simp_all add: reads_pair_iff)
    qed
  qed
qed

lemma copying_struct:
  assumes copying: "copying copy rd"
    and upd: "\<And>p x. parts (upd p x) = p" "\<And>p x. value_of (upd p x) = value_of x"
  shows "copying (\<lambda>x. bindO (copy (parts x)) (\<lambda>p. ret (Ok (upd p x)))) (\<lambda>m x. map_option (value_of x) (rd m (parts x)))"
proof
  show "map_option (value_of x) (rd m' (parts x)) = Some v"
    if "m \<subseteq>\<^sub>m m'" "map_option (value_of x) (rd m (parts x)) = Some v" for m m' x v
    using that(2) copying.reads_mono [OF copying that(1)] by auto
next
  fix h x v assume wf: "wf_mem h" and "map_option (value_of x) (rd (m_cells h) (parts x)) = Some v"
  then obtain w where w: "rd (m_cells h) (parts x) = Some w" "v = value_of x w" by auto
  show "produces (m_next h) (\<lambda>m x. map_option (value_of x) (rd m (parts x))) (bindO (copy (parts x)) (\<lambda>p. ret (Ok (upd p x)))) h v"
    by (rule produces_field [OF copying wf order_refl w(1)]) (simp add: produces_ret upd w(2))
qed

end
