(* ===== verification/Deep_Copy.thy ===== *)
theory Deep_Copy
  imports Go_Heap Naming_Types
begin

text \<open>
  The generated deep copies of \<^verbatim>\<open>api/v1/zz_generated.deepcopy.go\<close>, on the memory of theory \<open>Go_Heap\<close>.  A struct with fields
  that refer to memory is a record over the types of these fields: pointers, slices and maps where it lies in memory, what they
  hold where it is read.  \<^verbatim>\<open>DeepCopyInto\<close> takes the struct \<^verbatim>\<open>*in\<close> and returns what it leaves in \<^verbatim>\<open>*out\<close>.  The copies of \<^verbatim>\<open>metav1.ObjectMeta\<close>
  and \<^verbatim>\<open>metav1.ListMeta\<close> are parameters; a \<^verbatim>\<open>metav1.Time\<close> is an immutable value, copied by assignment.
\<close>

section \<open>Structs\<close>

record TypeMeta =
  tm_Kind :: string
  tm_APIVersion :: string

record 'map AdditionalConfigurationOf =
  aco_Labels :: 'map
  aco_Properties :: 'map
  aco_Tags :: 'map

record 'ref NacosServerConfigurationOf =
  nso_Endpoint :: string
  nso_ServerAddr :: string
  nso_Namespace :: string
  nso_AuthRef :: 'ref

record ('ac, 'server, 'refs) DynamicConfigurationSpecOf =
  dso_AdditionalConf :: 'ac
  dso_Strategy :: SyncStrategy
  dso_NacosServer :: 'server
  dso_ObjectRefs :: 'refs

record ('statuses, 'listened) DynamicConfigurationStatusOf =
  dto_Phase :: string
  dto_Message :: string
  dto_ObservedGeneration :: int
  dto_SyncStatuses :: 'statuses
  dto_ListenConfigs :: 'listened
  dto_NacosServerStatus :: NacosServerStatus
  dto_SyncStrategyStatus :: SyncStrategy

record ('meta, 'spec, 'status) ResourceOf =
  ro_TypeMeta :: TypeMeta
  ro_ObjectMeta :: 'meta
  ro_Spec :: 'spec
  ro_Status :: 'status

record ('meta, 'items) ListOf =
  lo_TypeMeta :: TypeMeta
  lo_ListMeta :: 'meta
  lo_Items :: 'items

record ('strings, 'server, 'ref) ServiceDiscoverySpecOf =
  sso_Services :: 'strings
  sso_SyncDirect :: string
  sso_NacosServer :: 'server
  sso_ObjectRef :: 'ref

record ('statuses, 'ref) ServiceDiscoveryStatusOf =
  sto_Message :: string
  sto_SyncStatuses :: 'statuses
  sto_ObjectRef :: 'ref

text \<open>In memory.\<close>

type_synonym AC_mem = "addr option AdditionalConfigurationOf"
type_synonym Server_mem = "addr option NacosServerConfigurationOf"
type_synonym DCSpec_mem = "(addr option, Server_mem, slice option) DynamicConfigurationSpecOf"
type_synonym DCStatus_mem = "(addr option, addr option) DynamicConfigurationStatusOf"
type_synonym 'm DC_mem = "('m, DCSpec_mem, DCStatus_mem) ResourceOf"
type_synonym 'l DCList_mem = "('l, slice option) ListOf"
type_synonym SDSpec_mem = "(slice option, Server_mem, addr option) ServiceDiscoverySpecOf"
type_synonym SDStatus_mem = "(addr option, addr option) ServiceDiscoveryStatusOf"
type_synonym 'm SD_mem = "('m, SDSpec_mem, SDStatus_mem) ResourceOf"
type_synonym 'l SDList_mem = "('l, slice option) ListOf"

text \<open>As read.\<close>

type_synonym AC_val = "(string, string) gomap option AdditionalConfigurationOf"
type_synonym Server_val = "ObjectReference option NacosServerConfigurationOf"
type_synonym DCSpec_val = "(AC_val option, Server_val, ObjectReference option list option) DynamicConfigurationSpecOf"
type_synonym DCStatus_val =
  "((string, SyncStatus list option) gomap option, (string, string list option) gomap option) DynamicConfigurationStatusOf"
type_synonym 'v DC_val = "('v, DCSpec_val, DCStatus_val) ResourceOf"
type_synonym SDSpec_val = "(string list option, Server_val, ObjectReference option) ServiceDiscoverySpecOf"
type_synonym SDStatus_val = "((string, ServiceSyncStatus option) gomap option, ObjectReference option) ServiceDiscoveryStatusOf"
type_synonym 'v SD_val = "('v, SDSpec_val, SDStatus_val) ResourceOf"

text \<open>What a cell can hold: a struct, an array or a map of the API, or something of the library.\<close>

datatype ('m, 'l, 'b) cell =
    CStringMap "(string, string) gomap"
  | CStrings "string list"
  | CReference ObjectReference
  | CReferences "addr option list"
  | CAdditional AC_mem
  | CServer Server_mem
  | CServerStatus NacosServerStatus
  | CStrategy SyncStrategy
  | CSyncStatus SyncStatus
  | CSyncStatuses "SyncStatus list"
  | CStatusMap "(string, slice option) gomap"
  | CListenMap "(string, slice option) gomap"
  | CDCSpec DCSpec_mem
  | CDCStatus DCStatus_mem
  | CDC "'m DC_mem"
  | CDCs "'m DC_mem list"
  | CDCList "'l DCList_mem"
  | CServiceStatus ServiceSyncStatus
  | CServiceMap "(string, addr option) gomap"
  | CSDSpec SDSpec_mem
  | CSDStatus SDStatus_mem
  | CSD "'m SD_mem"
  | CSDs "addr option list"
  | CSDList "'l SDList_mem"
  | CLibrary 'b

text \<open>The cells by what they hold.\<close>

definition in_string_map :: "(('m, 'l, 'b) cell, (string, string) gomap) kind" where
  "in_string_map = \<lparr>k_put = CStringMap, k_get = (\<lambda>c. case c of CStringMap x \<Rightarrow> Some x | _ \<Rightarrow> None)\<rparr>"

definition in_strings :: "(('m, 'l, 'b) cell, string list) kind" where
  "in_strings = \<lparr>k_put = CStrings, k_get = (\<lambda>c. case c of CStrings x \<Rightarrow> Some x | _ \<Rightarrow> None)\<rparr>"

definition in_reference :: "(('m, 'l, 'b) cell, ObjectReference) kind" where
  "in_reference = \<lparr>k_put = CReference, k_get = (\<lambda>c. case c of CReference x \<Rightarrow> Some x | _ \<Rightarrow> None)\<rparr>"

definition in_references :: "(('m, 'l, 'b) cell, addr option list) kind" where
  "in_references = \<lparr>k_put = CReferences, k_get = (\<lambda>c. case c of CReferences x \<Rightarrow> Some x | _ \<Rightarrow> None)\<rparr>"

definition in_additional :: "(('m, 'l, 'b) cell, AC_mem) kind" where
  "in_additional = \<lparr>k_put = CAdditional, k_get = (\<lambda>c. case c of CAdditional x \<Rightarrow> Some x | _ \<Rightarrow> None)\<rparr>"

definition in_server :: "(('m, 'l, 'b) cell, Server_mem) kind" where
  "in_server = \<lparr>k_put = CServer, k_get = (\<lambda>c. case c of CServer x \<Rightarrow> Some x | _ \<Rightarrow> None)\<rparr>"

definition in_server_status :: "(('m, 'l, 'b) cell, NacosServerStatus) kind" where
  "in_server_status = \<lparr>k_put = CServerStatus, k_get = (\<lambda>c. case c of CServerStatus x \<Rightarrow> Some x | _ \<Rightarrow> None)\<rparr>"

definition in_strategy :: "(('m, 'l, 'b) cell, SyncStrategy) kind" where
  "in_strategy = \<lparr>k_put = CStrategy, k_get = (\<lambda>c. case c of CStrategy x \<Rightarrow> Some x | _ \<Rightarrow> None)\<rparr>"

definition in_sync_status :: "(('m, 'l, 'b) cell, SyncStatus) kind" where
  "in_sync_status = \<lparr>k_put = CSyncStatus, k_get = (\<lambda>c. case c of CSyncStatus x \<Rightarrow> Some x | _ \<Rightarrow> None)\<rparr>"

definition in_sync_statuses :: "(('m, 'l, 'b) cell, SyncStatus list) kind" where
  "in_sync_statuses = \<lparr>k_put = CSyncStatuses, k_get = (\<lambda>c. case c of CSyncStatuses x \<Rightarrow> Some x | _ \<Rightarrow> None)\<rparr>"

definition in_status_map :: "(('m, 'l, 'b) cell, (string, slice option) gomap) kind" where
  "in_status_map = \<lparr>k_put = CStatusMap, k_get = (\<lambda>c. case c of CStatusMap x \<Rightarrow> Some x | _ \<Rightarrow> None)\<rparr>"

definition in_listen_map :: "(('m, 'l, 'b) cell, (string, slice option) gomap) kind" where
  "in_listen_map = \<lparr>k_put = CListenMap, k_get = (\<lambda>c. case c of CListenMap x \<Rightarrow> Some x | _ \<Rightarrow> None)\<rparr>"

definition in_dc_spec :: "(('m, 'l, 'b) cell, DCSpec_mem) kind" where
  "in_dc_spec = \<lparr>k_put = CDCSpec, k_get = (\<lambda>c. case c of CDCSpec x \<Rightarrow> Some x | _ \<Rightarrow> None)\<rparr>"

definition in_dc_status :: "(('m, 'l, 'b) cell, DCStatus_mem) kind" where
  "in_dc_status = \<lparr>k_put = CDCStatus, k_get = (\<lambda>c. case c of CDCStatus x \<Rightarrow> Some x | _ \<Rightarrow> None)\<rparr>"

definition in_dc :: "(('m, 'l, 'b) cell, 'm DC_mem) kind" where
  "in_dc = \<lparr>k_put = CDC, k_get = (\<lambda>c. case c of CDC x \<Rightarrow> Some x | _ \<Rightarrow> None)\<rparr>"

definition in_dcs :: "(('m, 'l, 'b) cell, 'm DC_mem list) kind" where
  "in_dcs = \<lparr>k_put = CDCs, k_get = (\<lambda>c. case c of CDCs x \<Rightarrow> Some x | _ \<Rightarrow> None)\<rparr>"

definition in_dc_list :: "(('m, 'l, 'b) cell, 'l DCList_mem) kind" where
  "in_dc_list = \<lparr>k_put = CDCList, k_get = (\<lambda>c. case c of CDCList x \<Rightarrow> Some x | _ \<Rightarrow> None)\<rparr>"

definition in_service_status :: "(('m, 'l, 'b) cell, ServiceSyncStatus) kind" where
  "in_service_status = \<lparr>k_put = CServiceStatus, k_get = (\<lambda>c. case c of CServiceStatus x \<Rightarrow> Some x | _ \<Rightarrow> None)\<rparr>"

definition in_service_map :: "(('m, 'l, 'b) cell, (string, addr option) gomap) kind" where
  "in_service_map = \<lparr>k_put = CServiceMap, k_get = (\<lambda>c. case c of CServiceMap x \<Rightarrow> Some x | _ \<Rightarrow> None)\<rparr>"

definition in_sd_spec :: "(('m, 'l, 'b) cell, SDSpec_mem) kind" where
  "in_sd_spec = \<lparr>k_put = CSDSpec, k_get = (\<lambda>c. case c of CSDSpec x \<Rightarrow> Some x | _ \<Rightarrow> None)\<rparr>"

definition in_sd_status :: "(('m, 'l, 'b) cell, SDStatus_mem) kind" where
  "in_sd_status = \<lparr>k_put = CSDStatus, k_get = (\<lambda>c. case c of CSDStatus x \<Rightarrow> Some x | _ \<Rightarrow> None)\<rparr>"

definition in_sd :: "(('m, 'l, 'b) cell, 'm SD_mem) kind" where
  "in_sd = \<lparr>k_put = CSD, k_get = (\<lambda>c. case c of CSD x \<Rightarrow> Some x | _ \<Rightarrow> None)\<rparr>"

definition in_sds :: "(('m, 'l, 'b) cell, addr option list) kind" where
  "in_sds = \<lparr>k_put = CSDs, k_get = (\<lambda>c. case c of CSDs x \<Rightarrow> Some x | _ \<Rightarrow> None)\<rparr>"

definition in_sd_list :: "(('m, 'l, 'b) cell, 'l SDList_mem) kind" where
  "in_sd_list = \<lparr>k_put = CSDList, k_get = (\<lambda>c. case c of CSDList x \<Rightarrow> Some x | _ \<Rightarrow> None)\<rparr>"

lemmas in_defs =
  in_string_map_def in_strings_def in_reference_def in_references_def in_additional_def in_server_def
  in_server_status_def in_strategy_def in_sync_status_def in_sync_statuses_def in_status_map_def in_listen_map_def
  in_dc_spec_def in_dc_status_def in_dc_def in_dcs_def in_dc_list_def in_service_status_def
  in_service_map_def in_sd_spec_def in_sd_status_def in_sd_def in_sds_def in_sd_list_def

lemma in_kinds:
  "cell_kind in_string_map" "cell_kind in_strings" "cell_kind in_reference" "cell_kind in_references"
  "cell_kind in_additional" "cell_kind in_server" "cell_kind in_server_status" "cell_kind in_strategy"
  "cell_kind in_sync_status" "cell_kind in_sync_statuses" "cell_kind in_status_map" "cell_kind in_listen_map"
  "cell_kind in_dc_spec" "cell_kind in_dc_status" "cell_kind in_dc" "cell_kind in_dcs"
  "cell_kind in_dc_list" "cell_kind in_service_status" "cell_kind in_service_map" "cell_kind in_sd_spec"
  "cell_kind in_sd_status" "cell_kind in_sd" "cell_kind in_sds" "cell_kind in_sd_list"
  by (simp_all add: cell_kind_def in_defs)

section \<open>The copies\<close>

text \<open>The library's part: the copies of the metadata, and their zero values.\<close>

record ('m, 'l, 'b) metadata =
  ObjectMeta_DeepCopyInto :: "'m \<Rightarrow> (('m, 'l, 'b) cell mem, 'm outcome) state"
  ListMeta_DeepCopyInto :: "'l \<Rightarrow> (('m, 'l, 'b) cell mem, 'l outcome) state"
  zero_ObjectMeta :: 'm
  zero_ListMeta :: 'l

abbreviation assign :: "'a \<Rightarrow> ('c mem, 'a outcome) state" where
  "assign x \<equiv> ret (Ok x)"

text \<open>Zero values, what \<^verbatim>\<open>new\<close> and \<^verbatim>\<open>make\<close> put in memory.\<close>

definition zero_type :: TypeMeta where "zero_type = \<lparr>tm_Kind = [], tm_APIVersion = []\<rparr>"
definition zero_reference :: ObjectReference where
  "zero_reference = \<lparr>or_Kind = [], or_Namespace = [], or_Name = [], or_APIVersion = []\<rparr>"
definition zero_additional :: AC_mem where "zero_additional = \<lparr>aco_Labels = None, aco_Properties = None, aco_Tags = None\<rparr>"
definition zero_server :: Server_mem where
  "zero_server = \<lparr>nso_Endpoint = [], nso_ServerAddr = [], nso_Namespace = [], nso_AuthRef = None\<rparr>"
definition zero_sync_status :: SyncStatus where
  "zero_sync_status = \<lparr>st_DataId = [], st_LastSyncTime = 0, st_LastSyncFrom = [], st_Md5 = [], st_Ready = False, st_Message = []\<rparr>"
definition zero_dc_spec :: DCSpec_mem where
  "zero_dc_spec = \<lparr>dso_AdditionalConf = None, dso_Strategy = zero_strategy, dso_NacosServer = zero_server, dso_ObjectRefs = None\<rparr>"
definition zero_dc_status :: DCStatus_mem where
  "zero_dc_status = \<lparr>dto_Phase = [], dto_Message = [], dto_ObservedGeneration = 0, dto_SyncStatuses = None, dto_ListenConfigs = None,
     dto_NacosServerStatus = zero_server_status, dto_SyncStrategyStatus = zero_strategy\<rparr>"
definition zero_service_status :: ServiceSyncStatus where
  "zero_service_status = \<lparr>sss_ServiceName = [], sss_GroupName = [], sss_LastSyncFrom = [], sss_LastSyncTime = 0, sss_Ready = False,
     sss_Message = []\<rparr>"
definition zero_sd_spec :: SDSpec_mem where
  "zero_sd_spec = \<lparr>sso_Services = None, sso_SyncDirect = [], sso_NacosServer = zero_server, sso_ObjectRef = None\<rparr>"
definition zero_sd_status :: SDStatus_mem where
  "zero_sd_status = \<lparr>sto_Message = [], sto_SyncStatuses = None, sto_ObjectRef = None\<rparr>"

subsection \<open>Parts of both resources\<close>

definition AdditionalConfiguration_DeepCopyInto :: "AC_mem \<Rightarrow> (('m, 'l, 'b) cell mem, AC_mem outcome) state" where
  "AdditionalConfiguration_DeepCopyInto x =
     bindO (copy_map in_string_map assign (aco_Labels x)) (\<lambda>labels.
     bindO (copy_map in_string_map assign (aco_Properties x)) (\<lambda>properties.
     bindO (copy_map in_string_map assign (aco_Tags x)) (\<lambda>tags.
       ret (Ok (x\<lparr>aco_Labels := labels, aco_Properties := properties, aco_Tags := tags\<rparr>)))))"

definition AdditionalConfiguration_DeepCopy :: "addr option \<Rightarrow> (('m, 'l, 'b) cell mem, addr option outcome) state" where
  "AdditionalConfiguration_DeepCopy = copy_ptr in_additional zero_additional AdditionalConfiguration_DeepCopyInto"

definition NacosServerConfiguration_DeepCopyInto :: "Server_mem \<Rightarrow> (('m, 'l, 'b) cell mem, Server_mem outcome) state" where
  "NacosServerConfiguration_DeepCopyInto x =
     bindO (copy_ptr in_reference zero_reference assign (nso_AuthRef x)) (\<lambda>authRef. ret (Ok (x\<lparr>nso_AuthRef := authRef\<rparr>)))"

definition NacosServerConfiguration_DeepCopy :: "addr option \<Rightarrow> (('m, 'l, 'b) cell mem, addr option outcome) state" where
  "NacosServerConfiguration_DeepCopy = copy_ptr in_server zero_server NacosServerConfiguration_DeepCopyInto"

definition NacosServerStatus_DeepCopyInto :: "NacosServerStatus \<Rightarrow> (('m, 'l, 'b) cell mem, NacosServerStatus outcome) state" where
  "NacosServerStatus_DeepCopyInto x = ret (Ok x)"

definition NacosServerStatus_DeepCopy :: "addr option \<Rightarrow> (('m, 'l, 'b) cell mem, addr option outcome) state" where
  "NacosServerStatus_DeepCopy = copy_ptr in_server_status zero_server_status NacosServerStatus_DeepCopyInto"

definition SyncStrategy_DeepCopyInto :: "SyncStrategy \<Rightarrow> (('m, 'l, 'b) cell mem, SyncStrategy outcome) state" where
  "SyncStrategy_DeepCopyInto x = ret (Ok x)"

definition SyncStrategy_DeepCopy :: "addr option \<Rightarrow> (('m, 'l, 'b) cell mem, addr option outcome) state" where
  "SyncStrategy_DeepCopy = copy_ptr in_strategy zero_strategy SyncStrategy_DeepCopyInto"

definition SyncStatus_DeepCopyInto :: "SyncStatus \<Rightarrow> (('m, 'l, 'b) cell mem, SyncStatus outcome) state" where
  "SyncStatus_DeepCopyInto x = bindO (assign (st_LastSyncTime x)) (\<lambda>t. ret (Ok (x\<lparr>st_LastSyncTime := t\<rparr>)))"

definition SyncStatus_DeepCopy :: "addr option \<Rightarrow> (('m, 'l, 'b) cell mem, addr option outcome) state" where
  "SyncStatus_DeepCopy = copy_ptr in_sync_status zero_sync_status SyncStatus_DeepCopyInto"

definition ServiceSyncStatus_DeepCopyInto :: "ServiceSyncStatus \<Rightarrow> (('m, 'l, 'b) cell mem, ServiceSyncStatus outcome) state" where
  "ServiceSyncStatus_DeepCopyInto x = bindO (assign (sss_LastSyncTime x)) (\<lambda>t. ret (Ok (x\<lparr>sss_LastSyncTime := t\<rparr>)))"

definition ServiceSyncStatus_DeepCopy :: "addr option \<Rightarrow> (('m, 'l, 'b) cell mem, addr option outcome) state" where
  "ServiceSyncStatus_DeepCopy = copy_ptr in_service_status zero_service_status ServiceSyncStatus_DeepCopyInto"

subsection \<open>DynamicConfiguration\<close>

definition DynamicConfigurationSpec_DeepCopyInto :: "DCSpec_mem \<Rightarrow> (('m, 'l, 'b) cell mem, DCSpec_mem outcome) state" where
  "DynamicConfigurationSpec_DeepCopyInto x =
     bindO (copy_ptr in_additional zero_additional AdditionalConfiguration_DeepCopyInto (dso_AdditionalConf x)) (\<lambda>additional.
     bindO (NacosServerConfiguration_DeepCopyInto (dso_NacosServer x)) (\<lambda>nacosServer.
     bindO (copy_slice in_references None (copy_ptr in_reference zero_reference assign) (dso_ObjectRefs x)) (\<lambda>refs.
       ret (Ok (x\<lparr>dso_AdditionalConf := additional, dso_NacosServer := nacosServer, dso_ObjectRefs := refs\<rparr>)))))"

definition DynamicConfigurationSpec_DeepCopy :: "addr option \<Rightarrow> (('m, 'l, 'b) cell mem, addr option outcome) state" where
  "DynamicConfigurationSpec_DeepCopy = copy_ptr in_dc_spec zero_dc_spec DynamicConfigurationSpec_DeepCopyInto"

text \<open>
  A nil slice under a key is stored as nil; the generated code does so twice, once in the branch and once after it.
  \<^verbatim>\<open>copy\<close> on strings is the element-wise assignment.
\<close>

definition DynamicConfigurationStatus_DeepCopyInto :: "DCStatus_mem \<Rightarrow> (('m, 'l, 'b) cell mem, DCStatus_mem outcome) state" where
  "DynamicConfigurationStatus_DeepCopyInto x =
     bindO (copy_map in_status_map (copy_slice in_sync_statuses zero_sync_status SyncStatus_DeepCopyInto) (dto_SyncStatuses x)) (\<lambda>statuses.
     bindO (copy_map in_listen_map (copy_slice in_strings [] assign) (dto_ListenConfigs x)) (\<lambda>listened.
       ret (Ok (x\<lparr>dto_SyncStatuses := statuses, dto_ListenConfigs := listened\<rparr>))))"

definition DynamicConfigurationStatus_DeepCopy :: "addr option \<Rightarrow> (('m, 'l, 'b) cell mem, addr option outcome) state" where
  "DynamicConfigurationStatus_DeepCopy = copy_ptr in_dc_status zero_dc_status DynamicConfigurationStatus_DeepCopyInto"

definition zero_dc :: "('m, 'l, 'b) metadata \<Rightarrow> 'm DC_mem" where
  "zero_dc M = \<lparr>ro_TypeMeta = zero_type, ro_ObjectMeta = zero_ObjectMeta M, ro_Spec = zero_dc_spec, ro_Status = zero_dc_status\<rparr>"

definition DynamicConfiguration_DeepCopyInto ::
  "('m, 'l, 'b) metadata \<Rightarrow> 'm DC_mem \<Rightarrow> (('m, 'l, 'b) cell mem, 'm DC_mem outcome) state" where
  "DynamicConfiguration_DeepCopyInto M x =
     bindO (ObjectMeta_DeepCopyInto M (ro_ObjectMeta x)) (\<lambda>objectMeta.
     bindO (DynamicConfigurationSpec_DeepCopyInto (ro_Spec x)) (\<lambda>spec.
     bindO (DynamicConfigurationStatus_DeepCopyInto (ro_Status x)) (\<lambda>status.
       ret (Ok (x\<lparr>ro_ObjectMeta := objectMeta, ro_Spec := spec, ro_Status := status\<rparr>)))))"

definition DynamicConfiguration_DeepCopy ::
  "('m, 'l, 'b) metadata \<Rightarrow> addr option \<Rightarrow> (('m, 'l, 'b) cell mem, addr option outcome) state" where
  "DynamicConfiguration_DeepCopy M = copy_ptr in_dc (zero_dc M) (DynamicConfiguration_DeepCopyInto M)"

text \<open>A \<^verbatim>\<open>runtime.Object\<close> is nil or a pointer with its type; a nil pointer would be an object that is not nil.\<close>

datatype object_type = TDynamicConfiguration | TDynamicConfigurationList | TServiceDiscovery | TServiceDiscoveryList

type_synonym runtime_object = "(object_type \<times> addr option) option"

definition as_object :: "object_type \<Rightarrow> ('c mem, addr option outcome) state \<Rightarrow> ('c mem, runtime_object outcome) state" where
  "as_object t deepCopy = bindO deepCopy (\<lambda>c. if c \<noteq> None then ret (Ok (Some (t, c))) else ret (Ok None))"

definition DynamicConfiguration_DeepCopyObject ::
  "('m, 'l, 'b) metadata \<Rightarrow> addr option \<Rightarrow> (('m, 'l, 'b) cell mem, runtime_object outcome) state" where
  "DynamicConfiguration_DeepCopyObject M p = as_object TDynamicConfiguration (DynamicConfiguration_DeepCopy M p)"

definition DynamicConfigurationList_DeepCopyInto ::
  "('m, 'l, 'b) metadata \<Rightarrow> 'l DCList_mem \<Rightarrow> (('m, 'l, 'b) cell mem, 'l DCList_mem outcome) state" where
  "DynamicConfigurationList_DeepCopyInto M x =
     bindO (ListMeta_DeepCopyInto M (lo_ListMeta x)) (\<lambda>listMeta.
     bindO (copy_slice in_dcs (zero_dc M) (DynamicConfiguration_DeepCopyInto M) (lo_Items x)) (\<lambda>items.
       ret (Ok (x\<lparr>lo_ListMeta := listMeta, lo_Items := items\<rparr>))))"

definition zero_list :: "('m, 'l, 'b) metadata \<Rightarrow> ('l, slice option) ListOf" where
  "zero_list M = \<lparr>lo_TypeMeta = zero_type, lo_ListMeta = zero_ListMeta M, lo_Items = None\<rparr>"

definition DynamicConfigurationList_DeepCopy ::
  "('m, 'l, 'b) metadata \<Rightarrow> addr option \<Rightarrow> (('m, 'l, 'b) cell mem, addr option outcome) state" where
  "DynamicConfigurationList_DeepCopy M = copy_ptr in_dc_list (zero_list M) (DynamicConfigurationList_DeepCopyInto M)"

definition DynamicConfigurationList_DeepCopyObject ::
  "('m, 'l, 'b) metadata \<Rightarrow> addr option \<Rightarrow> (('m, 'l, 'b) cell mem, runtime_object outcome) state" where
  "DynamicConfigurationList_DeepCopyObject M p = as_object TDynamicConfigurationList (DynamicConfigurationList_DeepCopy M p)"

subsection \<open>ServiceDiscovery\<close>

definition ServiceDiscoverySpec_DeepCopyInto :: "SDSpec_mem \<Rightarrow> (('m, 'l, 'b) cell mem, SDSpec_mem outcome) state" where
  "ServiceDiscoverySpec_DeepCopyInto x =
     bindO (copy_slice in_strings [] assign (sso_Services x)) (\<lambda>services.
     bindO (NacosServerConfiguration_DeepCopyInto (sso_NacosServer x)) (\<lambda>nacosServer.
     bindO (copy_ptr in_reference zero_reference assign (sso_ObjectRef x)) (\<lambda>ref.
       ret (Ok (x\<lparr>sso_Services := services, sso_NacosServer := nacosServer, sso_ObjectRef := ref\<rparr>)))))"

definition ServiceDiscoverySpec_DeepCopy :: "addr option \<Rightarrow> (('m, 'l, 'b) cell mem, addr option outcome) state" where
  "ServiceDiscoverySpec_DeepCopy = copy_ptr in_sd_spec zero_sd_spec ServiceDiscoverySpec_DeepCopyInto"

definition ServiceDiscoveryStatus_DeepCopyInto :: "SDStatus_mem \<Rightarrow> (('m, 'l, 'b) cell mem, SDStatus_mem outcome) state" where
  "ServiceDiscoveryStatus_DeepCopyInto x =
     bindO (copy_map in_service_map (copy_ptr in_service_status zero_service_status ServiceSyncStatus_DeepCopyInto) (sto_SyncStatuses x)) (\<lambda>statuses.
     bindO (copy_ptr in_reference zero_reference assign (sto_ObjectRef x)) (\<lambda>ref.
       ret (Ok (x\<lparr>sto_SyncStatuses := statuses, sto_ObjectRef := ref\<rparr>))))"

definition ServiceDiscoveryStatus_DeepCopy :: "addr option \<Rightarrow> (('m, 'l, 'b) cell mem, addr option outcome) state" where
  "ServiceDiscoveryStatus_DeepCopy = copy_ptr in_sd_status zero_sd_status ServiceDiscoveryStatus_DeepCopyInto"

definition ServiceDiscovery_DeepCopyInto ::
  "('m, 'l, 'b) metadata \<Rightarrow> 'm SD_mem \<Rightarrow> (('m, 'l, 'b) cell mem, 'm SD_mem outcome) state" where
  "ServiceDiscovery_DeepCopyInto M x =
     bindO (ObjectMeta_DeepCopyInto M (ro_ObjectMeta x)) (\<lambda>objectMeta.
     bindO (ServiceDiscoverySpec_DeepCopyInto (ro_Spec x)) (\<lambda>spec.
     bindO (ServiceDiscoveryStatus_DeepCopyInto (ro_Status x)) (\<lambda>status.
       ret (Ok (x\<lparr>ro_ObjectMeta := objectMeta, ro_Spec := spec, ro_Status := status\<rparr>)))))"

definition zero_sd :: "('m, 'l, 'b) metadata \<Rightarrow> 'm SD_mem" where
  "zero_sd M = \<lparr>ro_TypeMeta = zero_type, ro_ObjectMeta = zero_ObjectMeta M, ro_Spec = zero_sd_spec, ro_Status = zero_sd_status\<rparr>"

definition ServiceDiscovery_DeepCopy ::
  "('m, 'l, 'b) metadata \<Rightarrow> addr option \<Rightarrow> (('m, 'l, 'b) cell mem, addr option outcome) state" where
  "ServiceDiscovery_DeepCopy M = copy_ptr in_sd (zero_sd M) (ServiceDiscovery_DeepCopyInto M)"

definition ServiceDiscovery_DeepCopyObject ::
  "('m, 'l, 'b) metadata \<Rightarrow> addr option \<Rightarrow> (('m, 'l, 'b) cell mem, runtime_object outcome) state" where
  "ServiceDiscovery_DeepCopyObject M p = as_object TServiceDiscovery (ServiceDiscovery_DeepCopy M p)"

definition ServiceDiscoveryList_DeepCopyInto ::
  "('m, 'l, 'b) metadata \<Rightarrow> 'l SDList_mem \<Rightarrow> (('m, 'l, 'b) cell mem, 'l SDList_mem outcome) state" where
  "ServiceDiscoveryList_DeepCopyInto M x =
     bindO (ListMeta_DeepCopyInto M (lo_ListMeta x)) (\<lambda>listMeta.
     bindO (copy_slice in_sds None (copy_ptr in_sd (zero_sd M) (ServiceDiscovery_DeepCopyInto M)) (lo_Items x)) (\<lambda>items.
       ret (Ok (x\<lparr>lo_ListMeta := listMeta, lo_Items := items\<rparr>))))"

definition ServiceDiscoveryList_DeepCopy ::
  "('m, 'l, 'b) metadata \<Rightarrow> addr option \<Rightarrow> (('m, 'l, 'b) cell mem, addr option outcome) state" where
  "ServiceDiscoveryList_DeepCopy M = copy_ptr in_sd_list (zero_list M) (ServiceDiscoveryList_DeepCopyInto M)"

definition ServiceDiscoveryList_DeepCopyObject ::
  "('m, 'l, 'b) metadata \<Rightarrow> addr option \<Rightarrow> (('m, 'l, 'b) cell mem, runtime_object outcome) state" where
  "ServiceDiscoveryList_DeepCopyObject M p = as_object TServiceDiscoveryList (ServiceDiscoveryList_DeepCopy M p)"

section \<open>What the structs say\<close>

abbreviation plainly :: "(addr \<rightharpoonup> 'c) \<Rightarrow> 'a \<Rightarrow> 'a option" where
  "plainly m x \<equiv> Some x"

definition reads_additional :: "(addr \<rightharpoonup> ('m, 'l, 'b) cell) \<Rightarrow> AC_mem \<Rightarrow> AC_val option" where
  "reads_additional m x = map_option (\<lambda>(l, p, t). \<lparr>aco_Labels = l, aco_Properties = p, aco_Tags = t\<rparr>)
     (reads_pair (reads_map in_string_map plainly) (reads_pair (reads_map in_string_map plainly) (reads_map in_string_map plainly)) m
        (aco_Labels x, aco_Properties x, aco_Tags x))"

definition reads_server :: "(addr \<rightharpoonup> ('m, 'l, 'b) cell) \<Rightarrow> Server_mem \<Rightarrow> Server_val option" where
  "reads_server m x = map_option (\<lambda>a. \<lparr>nso_Endpoint = nso_Endpoint x, nso_ServerAddr = nso_ServerAddr x,
       nso_Namespace = nso_Namespace x, nso_AuthRef = a\<rparr>)
     (reads_ptr in_reference plainly m (nso_AuthRef x))"

definition reads_dc_spec :: "(addr \<rightharpoonup> ('m, 'l, 'b) cell) \<Rightarrow> DCSpec_mem \<Rightarrow> DCSpec_val option" where
  "reads_dc_spec m x = map_option (\<lambda>(a, s, r). \<lparr>dso_AdditionalConf = a, dso_Strategy = dso_Strategy x, dso_NacosServer = s, dso_ObjectRefs = r\<rparr>)
     (reads_pair (reads_ptr in_additional reads_additional)
        (reads_pair reads_server (reads_slice in_references (reads_ptr in_reference plainly))) m
        (dso_AdditionalConf x, dso_NacosServer x, dso_ObjectRefs x))"

definition reads_dc_status :: "(addr \<rightharpoonup> ('m, 'l, 'b) cell) \<Rightarrow> DCStatus_mem \<Rightarrow> DCStatus_val option" where
  "reads_dc_status m x = map_option (\<lambda>(s, l). \<lparr>dto_Phase = dto_Phase x, dto_Message = dto_Message x,
       dto_ObservedGeneration = dto_ObservedGeneration x, dto_SyncStatuses = s, dto_ListenConfigs = l,
       dto_NacosServerStatus = dto_NacosServerStatus x, dto_SyncStrategyStatus = dto_SyncStrategyStatus x\<rparr>)
     (reads_pair (reads_map in_status_map (reads_slice in_sync_statuses plainly)) (reads_map in_listen_map (reads_slice in_strings plainly)) m
        (dto_SyncStatuses x, dto_ListenConfigs x))"

definition reads_sd_spec :: "(addr \<rightharpoonup> ('m, 'l, 'b) cell) \<Rightarrow> SDSpec_mem \<Rightarrow> SDSpec_val option" where
  "reads_sd_spec m x = map_option (\<lambda>(v, s, r). \<lparr>sso_Services = v, sso_SyncDirect = sso_SyncDirect x, sso_NacosServer = s, sso_ObjectRef = r\<rparr>)
     (reads_pair (reads_slice in_strings plainly) (reads_pair reads_server (reads_ptr in_reference plainly)) m
        (sso_Services x, sso_NacosServer x, sso_ObjectRef x))"

definition reads_sd_status :: "(addr \<rightharpoonup> ('m, 'l, 'b) cell) \<Rightarrow> SDStatus_mem \<Rightarrow> SDStatus_val option" where
  "reads_sd_status m x = map_option (\<lambda>(s, r). \<lparr>sto_Message = sto_Message x, sto_SyncStatuses = s, sto_ObjectRef = r\<rparr>)
     (reads_pair (reads_map in_service_map (reads_ptr in_service_status plainly)) (reads_ptr in_reference plainly) m
        (sto_SyncStatuses x, sto_ObjectRef x))"

text \<open>Of a resource or a list, given what its metadata says.\<close>

definition reads_resource ::
  "((addr \<rightharpoonup> 'c) \<Rightarrow> 'm \<Rightarrow> 'v option) \<Rightarrow> ((addr \<rightharpoonup> 'c) \<Rightarrow> 'p \<Rightarrow> 'pv option) \<Rightarrow> ((addr \<rightharpoonup> 'c) \<Rightarrow> 't \<Rightarrow> 'tv option) \<Rightarrow>
   (addr \<rightharpoonup> 'c) \<Rightarrow> ('m, 'p, 't) ResourceOf \<Rightarrow> ('v, 'pv, 'tv) ResourceOf option" where
  "reads_resource rdm rdp rdt m x = map_option (\<lambda>(v, p, t). \<lparr>ro_TypeMeta = ro_TypeMeta x, ro_ObjectMeta = v, ro_Spec = p, ro_Status = t\<rparr>)
     (reads_pair rdm (reads_pair rdp rdt) m (ro_ObjectMeta x, ro_Spec x, ro_Status x))"

definition reads_list ::
  "((addr \<rightharpoonup> 'c) \<Rightarrow> 'm \<Rightarrow> 'v option) \<Rightarrow> ((addr \<rightharpoonup> 'c) \<Rightarrow> 'i \<Rightarrow> 'iv option) \<Rightarrow>
   (addr \<rightharpoonup> 'c) \<Rightarrow> ('m, 'i) ListOf \<Rightarrow> ('v, 'iv) ListOf option" where
  "reads_list rdm rdi m x = map_option (\<lambda>(v, i). \<lparr>lo_TypeMeta = lo_TypeMeta x, lo_ListMeta = v, lo_Items = i\<rparr>)
     (reads_pair rdm rdi m (lo_ListMeta x, lo_Items x))"

abbreviation reads_dc :: "((addr \<rightharpoonup> ('m, 'l, 'b) cell) \<Rightarrow> 'm \<Rightarrow> 'v option) \<Rightarrow> (addr \<rightharpoonup> ('m, 'l, 'b) cell) \<Rightarrow> 'm DC_mem \<Rightarrow> 'v DC_val option" where
  "reads_dc rdm \<equiv> reads_resource rdm reads_dc_spec reads_dc_status"

abbreviation reads_sd :: "((addr \<rightharpoonup> ('m, 'l, 'b) cell) \<Rightarrow> 'm \<Rightarrow> 'v option) \<Rightarrow> (addr \<rightharpoonup> ('m, 'l, 'b) cell) \<Rightarrow> 'm SD_mem \<Rightarrow> 'v SD_val option" where
  "reads_sd rdm \<equiv> reads_resource rdm reads_sd_spec reads_sd_status"

section \<open>The copies are deep\<close>

lemma plain_records [simp]:
  "SyncStatus_DeepCopyInto = assign" "ServiceSyncStatus_DeepCopyInto = assign"
  "NacosServerStatus_DeepCopyInto = assign" "SyncStrategy_DeepCopyInto = assign"
  by (simp_all add: fun_eq_iff SyncStatus_DeepCopyInto_def ServiceSyncStatus_DeepCopyInto_def
      NacosServerStatus_DeepCopyInto_def SyncStrategy_DeepCopyInto_def)

lemma copying_assign: "copying assign plainly"
  by (rule plain.copying_axioms)

lemmas copying_string_map = copying_map [OF copying_assign in_kinds(1)]
lemmas copying_strings = copying_slice [OF copying_assign in_kinds(2)]
lemmas copying_reference = copying_ptr [OF copying_assign in_kinds(3)]

lemmas struct_simps = copy_pair_def bindO_assoc split_beta

lemma copying_additional: "copying AdditionalConfiguration_DeepCopyInto reads_additional"
  using copying_struct [OF copying_pair [OF copying_string_map copying_pair [OF copying_string_map copying_string_map]],
      where parts = "\<lambda>x. (aco_Labels x, aco_Properties x, aco_Tags x)"
        and upd = "\<lambda>(l, p, t) x. x\<lparr>aco_Labels := l, aco_Properties := p, aco_Tags := t\<rparr>"
        and value_of = "\<lambda>x (l, p, t). \<lparr>aco_Labels = l, aco_Properties = p, aco_Tags = t\<rparr>"]
  by (simp add: AdditionalConfiguration_DeepCopyInto_def [abs_def] reads_additional_def [abs_def] struct_simps)

lemma copying_server: "copying NacosServerConfiguration_DeepCopyInto reads_server"
  using copying_struct [OF copying_reference [where zero = zero_reference], where parts = nso_AuthRef
        and upd = "\<lambda>a x. x\<lparr>nso_AuthRef := a\<rparr>"
        and value_of = "\<lambda>x a. \<lparr>nso_Endpoint = nso_Endpoint x, nso_ServerAddr = nso_ServerAddr x,
          nso_Namespace = nso_Namespace x, nso_AuthRef = a\<rparr>"]
  by (simp add: NacosServerConfiguration_DeepCopyInto_def [abs_def] reads_server_def [abs_def])

lemma copying_dc_spec: "copying DynamicConfigurationSpec_DeepCopyInto reads_dc_spec"
  using copying_struct [OF copying_pair [OF copying_ptr [OF copying_additional in_kinds(5), where zero = zero_additional]
        copying_pair [OF copying_server copying_slice [OF copying_reference [where zero = zero_reference] in_kinds(4), where zero = None]]],
      where parts = "\<lambda>x. (dso_AdditionalConf x, dso_NacosServer x, dso_ObjectRefs x)"
        and upd = "\<lambda>(a, s, r) x. x\<lparr>dso_AdditionalConf := a, dso_NacosServer := s, dso_ObjectRefs := r\<rparr>"
        and value_of = "\<lambda>x (a, s, r). \<lparr>dso_AdditionalConf = a, dso_Strategy = dso_Strategy x, dso_NacosServer = s, dso_ObjectRefs = r\<rparr>"]
  by (simp add: DynamicConfigurationSpec_DeepCopyInto_def [abs_def] reads_dc_spec_def [abs_def] struct_simps)

lemma copying_dc_status: "copying DynamicConfigurationStatus_DeepCopyInto reads_dc_status"
  using copying_struct [OF copying_pair [OF
        copying_map [OF copying_slice [OF copying_assign in_kinds(10), where zero = zero_sync_status] in_kinds(11)]
        copying_map [OF copying_strings [where zero = "[]"] in_kinds(12)]],
      where parts = "\<lambda>x. (dto_SyncStatuses x, dto_ListenConfigs x)"
        and upd = "\<lambda>(s, l) x. x\<lparr>dto_SyncStatuses := s, dto_ListenConfigs := l\<rparr>"
        and value_of = "\<lambda>x (s, l). \<lparr>dto_Phase = dto_Phase x, dto_Message = dto_Message x,
          dto_ObservedGeneration = dto_ObservedGeneration x, dto_SyncStatuses = s, dto_ListenConfigs = l,
          dto_NacosServerStatus = dto_NacosServerStatus x, dto_SyncStrategyStatus = dto_SyncStrategyStatus x\<rparr>"]
  by (simp add: DynamicConfigurationStatus_DeepCopyInto_def [abs_def] reads_dc_status_def [abs_def] struct_simps)

lemma copying_sd_spec: "copying ServiceDiscoverySpec_DeepCopyInto reads_sd_spec"
  using copying_struct [OF copying_pair [OF copying_strings [where zero = "[]"]
        copying_pair [OF copying_server copying_reference [where zero = zero_reference]]],
      where parts = "\<lambda>x. (sso_Services x, sso_NacosServer x, sso_ObjectRef x)"
        and upd = "\<lambda>(v, s, r) x. x\<lparr>sso_Services := v, sso_NacosServer := s, sso_ObjectRef := r\<rparr>"
        and value_of = "\<lambda>x (v, s, r). \<lparr>sso_Services = v, sso_SyncDirect = sso_SyncDirect x, sso_NacosServer = s, sso_ObjectRef = r\<rparr>"]
  by (simp add: ServiceDiscoverySpec_DeepCopyInto_def [abs_def] reads_sd_spec_def [abs_def] struct_simps)

lemma copying_sd_status: "copying ServiceDiscoveryStatus_DeepCopyInto reads_sd_status"
  using copying_struct [OF copying_pair [OF
        copying_map [OF copying_ptr [OF copying_assign in_kinds(18), where zero = zero_service_status] in_kinds(19)]
        copying_reference [where zero = zero_reference]],
      where parts = "\<lambda>x. (sto_SyncStatuses x, sto_ObjectRef x)"
        and upd = "\<lambda>(s, r) x. x\<lparr>sto_SyncStatuses := s, sto_ObjectRef := r\<rparr>"
        and value_of = "\<lambda>x (s, r). \<lparr>sto_Message = sto_Message x, sto_SyncStatuses = s, sto_ObjectRef = r\<rparr>"]
  by (simp add: ServiceDiscoveryStatus_DeepCopyInto_def [abs_def] reads_sd_status_def [abs_def] struct_simps)

lemma copying_resource:
  assumes "copying cm rdm" "copying cp rdp" "copying ct rdt"
  shows "copying (\<lambda>x. bindO (cm (ro_ObjectMeta x)) (\<lambda>v. bindO (cp (ro_Spec x)) (\<lambda>p. bindO (ct (ro_Status x)) (\<lambda>t.
    ret (Ok (x\<lparr>ro_ObjectMeta := v, ro_Spec := p, ro_Status := t\<rparr>)))))) (reads_resource rdm rdp rdt)"
  using copying_struct [OF copying_pair [OF assms(1) copying_pair [OF assms(2,3)]],
      where parts = "\<lambda>x. (ro_ObjectMeta x, ro_Spec x, ro_Status x)"
        and upd = "\<lambda>(v, p, t) x. x\<lparr>ro_ObjectMeta := v, ro_Spec := p, ro_Status := t\<rparr>"
        and value_of = "\<lambda>x (v, p, t). \<lparr>ro_TypeMeta = ro_TypeMeta x, ro_ObjectMeta = v, ro_Spec = p, ro_Status = t\<rparr>"]
  by (simp add: reads_resource_def [abs_def] struct_simps)

lemma copying_list:
  assumes "copying cm rdm" "copying ci rdi"
  shows "copying (\<lambda>x. bindO (cm (lo_ListMeta x)) (\<lambda>v. bindO (ci (lo_Items x)) (\<lambda>i.
    ret (Ok (x\<lparr>lo_ListMeta := v, lo_Items := i\<rparr>))))) (reads_list rdm rdi)"
  using copying_struct [OF copying_pair [OF assms],
      where parts = "\<lambda>x. (lo_ListMeta x, lo_Items x)"
        and upd = "\<lambda>(v, i) x. x\<lparr>lo_ListMeta := v, lo_Items := i\<rparr>"
        and value_of = "\<lambda>x (v, i). \<lparr>lo_TypeMeta = lo_TypeMeta x, lo_ListMeta = v, lo_Items = i\<rparr>"]
  by (simp add: reads_list_def [abs_def] struct_simps)

text \<open>The parts need no hypothesis; the resources and their lists rest on the library's copies of the metadata.\<close>

interpretation additional: copying AdditionalConfiguration_DeepCopyInto reads_additional
  by (rule copying_additional)

interpretation server: copying NacosServerConfiguration_DeepCopyInto reads_server
  by (rule copying_server)

interpretation dc_spec: copying DynamicConfigurationSpec_DeepCopyInto reads_dc_spec
  by (rule copying_dc_spec)

interpretation dc_status: copying DynamicConfigurationStatus_DeepCopyInto reads_dc_status
  by (rule copying_dc_status)

interpretation sd_spec: copying ServiceDiscoverySpec_DeepCopyInto reads_sd_spec
  by (rule copying_sd_spec)

interpretation sd_status: copying ServiceDiscoveryStatus_DeepCopyInto reads_sd_status
  by (rule copying_sd_status)

definition metadata_copied ::
  "('m, 'l, 'b) metadata \<Rightarrow> ((addr \<rightharpoonup> ('m, 'l, 'b) cell) \<Rightarrow> 'm \<Rightarrow> 'v option) \<Rightarrow>
   ((addr \<rightharpoonup> ('m, 'l, 'b) cell) \<Rightarrow> 'l \<Rightarrow> 'w option) \<Rightarrow> bool" where
  "metadata_copied M rdm rdl \<longleftrightarrow> copying (ObjectMeta_DeepCopyInto M) rdm \<and> copying (ListMeta_DeepCopyInto M) rdl"

lemma copying_metadata:
  assumes "metadata_copied M rdm rdl"
  shows "copying (ObjectMeta_DeepCopyInto M) rdm" "copying (ListMeta_DeepCopyInto M) rdl"
  using assms by (simp_all add: metadata_copied_def)

lemma copying_dc: "metadata_copied M rdm rdl \<Longrightarrow> copying (DynamicConfiguration_DeepCopyInto M) (reads_dc rdm)"
  unfolding DynamicConfiguration_DeepCopyInto_def [abs_def]
  by (intro copying_resource copying_metadata copying_dc_spec copying_dc_status)

lemma copying_sd: "metadata_copied M rdm rdl \<Longrightarrow> copying (ServiceDiscovery_DeepCopyInto M) (reads_sd rdm)"
  unfolding ServiceDiscovery_DeepCopyInto_def [abs_def]
  by (intro copying_resource copying_metadata copying_sd_spec copying_sd_status)

abbreviation reads_dc_list where
  "reads_dc_list rdm rdl \<equiv> reads_list rdl (reads_slice in_dcs (reads_dc rdm))"

abbreviation reads_sd_list where
  "reads_sd_list rdm rdl \<equiv> reads_list rdl (reads_slice in_sds (reads_ptr in_sd (reads_sd rdm)))"

lemma copying_dc_list:
  "metadata_copied M rdm rdl \<Longrightarrow> copying (DynamicConfigurationList_DeepCopyInto M) (reads_dc_list rdm rdl)"
  unfolding DynamicConfigurationList_DeepCopyInto_def [abs_def]
  by (intro copying_list copying_slice copying_metadata copying_dc in_kinds)

lemma copying_sd_list:
  "metadata_copied M rdm rdl \<Longrightarrow> copying (ServiceDiscoveryList_DeepCopyInto M) (reads_sd_list rdm rdl)"
  unfolding ServiceDiscoveryList_DeepCopyInto_def [abs_def]
  by (intro copying_list copying_slice copying_ptr copying_metadata copying_sd in_kinds)

section \<open>Copying an object\<close>

lemma run_as_object:
  "run_state (as_object t m) h =
     (case run_state m h of (Ok (Some a), h') \<Rightarrow> (Ok (Some (t, Some a)), h') | (Ok None, h') \<Rightarrow> (Ok None, h') | (Panic, h') \<Rightarrow> (Panic, h'))"
  by (simp add: as_object_def run_bindO split: prod.splits outcome.splits option.splits)

lemma object_isolated:
  assumes c: "copying copy rd" and kind: "cell_kind K" and wf: "wf_mem h" and p: "reads_ptr K rd (m_cells h) (Some a) = Some v"
  shows "\<exists>b h'. run_state (as_object t (copy_ptr K zero copy (Some a))) h = (Ok (Some (t, Some b)), h') \<and>
    (\<forall>g. (\<forall>x\<ge>m_next h. g x = m_cells h' x) \<longrightarrow> reads_ptr K rd g (Some b) = Some v) \<and>
    (\<forall>g. (\<forall>x<m_next h. g x = m_cells h' x) \<longrightarrow> reads_ptr K rd g (Some a) = Some v)"
proof -
  obtain q h' where run: "run_state (copy_ptr K zero copy (Some a)) h = (Ok q, h')"
    and iso: "\<forall>g. (\<forall>x\<ge>m_next h. g x = m_cells h' x) \<longrightarrow> reads_ptr K rd g q = Some v"
      "\<forall>g. (\<forall>x<m_next h. g x = m_cells h' x) \<longrightarrow> reads_ptr K rd g (Some a) = Some v"
    using copying.isolated [OF copying_ptr [OF c kind] wf p] by blast
  have "v \<noteq> None" using p by (auto simp: reads_ptr_def split: option.splits)
  then obtain b where "q = Some b" using iso(1) by (cases q) (auto simp: reads_ptr_def)
  then show ?thesis using run iso by (simp add: run_as_object)
qed

text \<open>
  C38: \<^verbatim>\<open>DeepCopyObject\<close> of a DynamicConfiguration returns a pointer to a DynamicConfiguration that reads the same, nil and
  empty maps and slices told apart, and shares no cell with the original: the copy keeps its meaning whatever is written
  to the cells that existed before, the original whatever is written to the new ones.
\<close>

theorem DynamicConfiguration_copy_isolated:
  assumes "metadata_copied M rdm rdl" and "wf_mem h" and "reads_ptr in_dc (reads_dc rdm) (m_cells h) (Some a) = Some v"
  shows "\<exists>b h'. run_state (DynamicConfiguration_DeepCopyObject M (Some a)) h = (Ok (Some (TDynamicConfiguration, Some b)), h') \<and>
    (\<forall>g. (\<forall>x\<ge>m_next h. g x = m_cells h' x) \<longrightarrow> reads_ptr in_dc (reads_dc rdm) g (Some b) = Some v) \<and>
    (\<forall>g. (\<forall>x<m_next h. g x = m_cells h' x) \<longrightarrow> reads_ptr in_dc (reads_dc rdm) g (Some a) = Some v)"
  unfolding DynamicConfiguration_DeepCopyObject_def DynamicConfiguration_DeepCopy_def
  by (rule object_isolated [OF copying_dc [OF assms(1)] in_kinds(15) assms(2,3)])

text \<open>
  The same of a list of ServiceDiscoveries, whose items are pointers: every item is a new object, a nil one stays nil.
\<close>

theorem ServiceDiscoveryList_copy_isolated:
  assumes "metadata_copied M rdm rdl" and "wf_mem h" and "reads_ptr in_sd_list (reads_sd_list rdm rdl) (m_cells h) (Some a) = Some v"
  shows "\<exists>b h'. run_state (ServiceDiscoveryList_DeepCopyObject M (Some a)) h = (Ok (Some (TServiceDiscoveryList, Some b)), h') \<and>
    (\<forall>g. (\<forall>x\<ge>m_next h. g x = m_cells h' x) \<longrightarrow> reads_ptr in_sd_list (reads_sd_list rdm rdl) g (Some b) = Some v) \<and>
    (\<forall>g. (\<forall>x<m_next h. g x = m_cells h' x) \<longrightarrow> reads_ptr in_sd_list (reads_sd_list rdm rdl) g (Some a) = Some v)"
  unfolding ServiceDiscoveryList_DeepCopyObject_def ServiceDiscoveryList_DeepCopy_def
  by (rule object_isolated [OF copying_sd_list [OF assms(1)] in_kinds(24) assms(2,3)])

text \<open>The other two kinds of object, and the copies of nil, which are nil objects and not nil pointers in an object.\<close>

theorem DynamicConfigurationList_copy_isolated:
  assumes "metadata_copied M rdm rdl" and "wf_mem h" and "reads_ptr in_dc_list (reads_dc_list rdm rdl) (m_cells h) (Some a) = Some v"
  shows "\<exists>b h'. run_state (DynamicConfigurationList_DeepCopyObject M (Some a)) h = (Ok (Some (TDynamicConfigurationList, Some b)), h') \<and>
    (\<forall>g. (\<forall>x\<ge>m_next h. g x = m_cells h' x) \<longrightarrow> reads_ptr in_dc_list (reads_dc_list rdm rdl) g (Some b) = Some v) \<and>
    (\<forall>g. (\<forall>x<m_next h. g x = m_cells h' x) \<longrightarrow> reads_ptr in_dc_list (reads_dc_list rdm rdl) g (Some a) = Some v)"
  unfolding DynamicConfigurationList_DeepCopyObject_def DynamicConfigurationList_DeepCopy_def
  by (rule object_isolated [OF copying_dc_list [OF assms(1)] in_kinds(17) assms(2,3)])

theorem ServiceDiscovery_copy_isolated:
  assumes "metadata_copied M rdm rdl" and "wf_mem h" and "reads_ptr in_sd (reads_sd rdm) (m_cells h) (Some a) = Some v"
  shows "\<exists>b h'. run_state (ServiceDiscovery_DeepCopyObject M (Some a)) h = (Ok (Some (TServiceDiscovery, Some b)), h') \<and>
    (\<forall>g. (\<forall>x\<ge>m_next h. g x = m_cells h' x) \<longrightarrow> reads_ptr in_sd (reads_sd rdm) g (Some b) = Some v) \<and>
    (\<forall>g. (\<forall>x<m_next h. g x = m_cells h' x) \<longrightarrow> reads_ptr in_sd (reads_sd rdm) g (Some a) = Some v)"
  unfolding ServiceDiscovery_DeepCopyObject_def ServiceDiscovery_DeepCopy_def
  by (rule object_isolated [OF copying_sd [OF assms(1)] in_kinds(22) assms(2,3)])

lemma DeepCopyObject_nil:
  "run_state (DynamicConfiguration_DeepCopyObject M None) h = (Ok None, h)"
  "run_state (DynamicConfigurationList_DeepCopyObject M None) h = (Ok None, h)"
  "run_state (ServiceDiscovery_DeepCopyObject M None) h = (Ok None, h)"
  "run_state (ServiceDiscoveryList_DeepCopyObject M None) h = (Ok None, h)"
  by (simp_all add: DynamicConfiguration_DeepCopyObject_def DynamicConfiguration_DeepCopy_def
      DynamicConfigurationList_DeepCopyObject_def DynamicConfigurationList_DeepCopy_def
      ServiceDiscovery_DeepCopyObject_def ServiceDiscovery_DeepCopy_def
      ServiceDiscoveryList_DeepCopyObject_def ServiceDiscoveryList_DeepCopy_def run_as_object copy_ptr_def)

subsection \<open>An example\<close>

text \<open>The metadata of the example is a slice of finalizers, and nothing for a list.\<close>

type_synonym demo_cell = "(slice option, string, string list) cell"

definition in_finalizers :: "(demo_cell, string list) kind" where
  "in_finalizers = \<lparr>k_put = CLibrary, k_get = (\<lambda>c. case c of CLibrary x \<Rightarrow> Some x | _ \<Rightarrow> None)\<rparr>"

definition demo_metadata :: "(slice option, string, string list) metadata" where
  "demo_metadata = \<lparr>ObjectMeta_DeepCopyInto = copy_slice in_finalizers [] assign, ListMeta_DeepCopyInto = assign,
     zero_ObjectMeta = None, zero_ListMeta = []\<rparr>"

abbreviation reads_finalizers :: "(addr \<rightharpoonup> demo_cell) \<Rightarrow> slice option \<Rightarrow> string list option option" where
  "reads_finalizers \<equiv> reads_slice in_finalizers plainly"

lemma demo_metadata_copied: "metadata_copied demo_metadata reads_finalizers plainly"
proof -
  have "cell_kind in_finalizers" by (simp add: cell_kind_def in_finalizers_def)
  then show ?thesis by (simp add: metadata_copied_def demo_metadata_def copying_assign copying_slice)
qed

definition demo_type :: TypeMeta where "demo_type = \<lparr>tm_Kind = ''DynamicConfiguration'', tm_APIVersion = ''nacos.io/v1''\<rparr>"
definition demo_reference :: ObjectReference where
  "demo_reference = \<lparr>or_Kind = ''ConfigMap'', or_Namespace = ''ns'', or_Name = ''app'', or_APIVersion = ''v1''\<rparr>"

definition demo_dc_struct :: "slice option DC_mem" where
  "demo_dc_struct = \<lparr>ro_TypeMeta = demo_type, ro_ObjectMeta = Some \<lparr>sl_array = 0, sl_off = 0, sl_len = 1\<rparr>,
     ro_Spec = \<lparr>dso_AdditionalConf = Some 2, dso_Strategy = zero_strategy, dso_NacosServer = zero_server,
       dso_ObjectRefs = Some \<lparr>sl_array = 4, sl_off = 1, sl_len = 2\<rparr>\<rparr>,
     ro_Status = zero_dc_status\<lparr>dto_SyncStatuses := Some 5\<rparr>\<rparr>"

definition demo_memory :: "demo_cell mem" where
  "demo_memory = \<lparr>m_cells = [0 \<mapsto> CLibrary [''nacos.io/dc-finalizer'', ''spare''], 1 \<mapsto> CStringMap [(''team'', ''a'')],
       2 \<mapsto> CAdditional \<lparr>aco_Labels = Some 1, aco_Properties = None, aco_Tags = None\<rparr>, 3 \<mapsto> CReference demo_reference,
       4 \<mapsto> CReferences [None, Some 3, None], 5 \<mapsto> CStatusMap [(''g'', None)], 6 \<mapsto> CDC demo_dc_struct,
       7 \<mapsto> CSD \<lparr>ro_TypeMeta = demo_type, ro_ObjectMeta = None, ro_Spec = zero_sd_spec, ro_Status = zero_sd_status\<rparr>,
       8 \<mapsto> CSDs [Some 7, None], 9 \<mapsto> CSDList \<lparr>lo_TypeMeta = demo_type, lo_ListMeta = ''7'', lo_Items = Some \<lparr>sl_array = 8, sl_off = 0, sl_len = 2\<rparr>\<rparr>],
     m_next = 10\<rparr>"

definition demo_dc_value :: "string list option DC_val" where
  "demo_dc_value = \<lparr>ro_TypeMeta = demo_type, ro_ObjectMeta = Some [''nacos.io/dc-finalizer''],
     ro_Spec = \<lparr>dso_AdditionalConf = Some \<lparr>aco_Labels = Some [(''team'', ''a'')], aco_Properties = None, aco_Tags = None\<rparr>,
       dso_Strategy = zero_strategy,
       dso_NacosServer = \<lparr>nso_Endpoint = [], nso_ServerAddr = [], nso_Namespace = [], nso_AuthRef = None\<rparr>,
       dso_ObjectRefs = Some [Some demo_reference, None]\<rparr>,
     ro_Status = \<lparr>dto_Phase = [], dto_Message = [], dto_ObservedGeneration = 0, dto_SyncStatuses = Some [(''g'', None)],
       dto_ListenConfigs = None, dto_NacosServerStatus = zero_server_status, dto_SyncStrategyStatus = zero_strategy\<rparr>\<rparr>"

lemmas reading_simps =
  reads_ptr_def reads_slice_def reads_map_def reads_resource_def reads_list_def reads_pair_def reads_additional_def reads_server_def
  reads_dc_spec_def reads_dc_status_def reads_sd_spec_def reads_sd_status_def lookup_def window_def in_defs in_finalizers_def
  zero_server_def zero_dc_status_def zero_sd_spec_def zero_sd_status_def

lemma demo_memory_wf: "wf_mem demo_memory"
  by (auto simp: wf_mem_def demo_memory_def)

lemma demo_dc_reads: "reads_ptr in_dc (reads_dc reads_finalizers) (m_cells demo_memory) (Some 6) = Some (Some demo_dc_value)"
  by (simp add: reading_simps demo_memory_def demo_dc_struct_def demo_dc_value_def)

theorem DynamicConfiguration_copy_isolated_witness:
  "\<exists>b h'. run_state (DynamicConfiguration_DeepCopyObject demo_metadata (Some 6)) demo_memory =
      (Ok (Some (TDynamicConfiguration, Some b)), h') \<and>
    reads_ptr in_dc (reads_dc reads_finalizers) ((m_cells h')(1 \<mapsto> CStringMap [])) (Some b) = Some (Some demo_dc_value)"
proof -
  obtain b h' where run: "run_state (DynamicConfiguration_DeepCopyObject demo_metadata (Some 6)) demo_memory =
      (Ok (Some (TDynamicConfiguration, Some b)), h')"
    and iso: "\<forall>g. (\<forall>x\<ge>m_next demo_memory. g x = m_cells h' x) \<longrightarrow>
      reads_ptr in_dc (reads_dc reads_finalizers) g (Some b) = Some (Some demo_dc_value)"
    using DynamicConfiguration_copy_isolated [OF demo_metadata_copied demo_memory_wf demo_dc_reads] by blast
  have "\<forall>x\<ge>m_next demo_memory. ((m_cells h')(1 \<mapsto> CStringMap [])) x = m_cells h' x" by (simp add: demo_memory_def)
  then show ?thesis using run iso by blast
qed

definition demo_sd_list_value :: "(string, string list option SD_val option list option) ListOf" where
  "demo_sd_list_value = \<lparr>lo_TypeMeta = demo_type, lo_ListMeta = ''7'', lo_Items = Some [Some \<lparr>ro_TypeMeta = demo_type, ro_ObjectMeta = None,
     ro_Spec = \<lparr>sso_Services = None, sso_SyncDirect = [],
       sso_NacosServer = \<lparr>nso_Endpoint = [], nso_ServerAddr = [], nso_Namespace = [], nso_AuthRef = None\<rparr>, sso_ObjectRef = None\<rparr>,
     ro_Status = \<lparr>sto_Message = [], sto_SyncStatuses = None, sto_ObjectRef = None\<rparr>\<rparr>, None]\<rparr>"

lemma demo_sd_list_reads:
  "reads_ptr in_sd_list (reads_sd_list reads_finalizers plainly) (m_cells demo_memory) (Some 9) = Some (Some demo_sd_list_value)"
  by (simp add: reading_simps demo_memory_def demo_sd_list_value_def)

theorem ServiceDiscoveryList_copy_isolated_witness:
  "\<exists>b h'. run_state (ServiceDiscoveryList_DeepCopyObject demo_metadata (Some 9)) demo_memory =
      (Ok (Some (TServiceDiscoveryList, Some b)), h') \<and>
    reads_ptr in_sd_list (reads_sd_list reads_finalizers plainly) ((m_cells h')(7 := None)) (Some b) = Some (Some demo_sd_list_value)"
proof -
  obtain b h' where run: "run_state (ServiceDiscoveryList_DeepCopyObject demo_metadata (Some 9)) demo_memory =
      (Ok (Some (TServiceDiscoveryList, Some b)), h')"
    and iso: "\<forall>g. (\<forall>x\<ge>m_next demo_memory. g x = m_cells h' x) \<longrightarrow>
      reads_ptr in_sd_list (reads_sd_list reads_finalizers plainly) g (Some b) = Some (Some demo_sd_list_value)"
    using ServiceDiscoveryList_copy_isolated [OF demo_metadata_copied demo_memory_wf demo_sd_list_reads] by blast
  have "\<forall>x\<ge>m_next demo_memory. ((m_cells h')(7 := None)) x = m_cells h' x" by (simp add: demo_memory_def)
  then show ?thesis using run iso by blast
qed

end
