(* ===== verification/Startup.thy ===== *)
theory Startup
  imports Server2Cluster
begin

text \<open>
  The entry point \<^verbatim>\<open>cmd/main.go\<close> with the constructors and \<^verbatim>\<open>SetupWithManager\<close> methods it calls: flags, the manager, the six
  controllers, the webhook, the health checks, the start.  The manager of controller-runtime is a parameter; the part of the
  process modelled here is what has been handed to it.  Clients and lock managers are pointers, because the question is which
  controllers share them.  Logging is left out.
\<close>

section \<open>The process\<close>

text \<open>What a call does to the process besides returning: \<^verbatim>\<open>os.Exit\<close> and panics end it.\<close>

datatype 'a process = Running 'a | Exited nat | Panicked

record ConfigController =
  ctl_configClient :: nat
  ctl_locks :: nat

text \<open>The reconcilers, by their fields other than the Kubernetes client and the scheme.\<close>

datatype reconciler =
    DynamicConfigurationReconciler ConfigController
  | ConfigMapReconciler ConfigController
  | SecretReconciler ConfigController
  | ServiceDiscoveryReconciler
  | EndpointReconciler
  | ServiceReconciler

text \<open>What the builder of controller-runtime is given before \<^verbatim>\<open>Complete(r)\<close>.\<close>

record registration =
  reg_For :: string
  reg_Named :: "string option"
  reg_Predicates :: "string list"
  reg_Reconciler :: reconciler

record proc =
  pr_clients :: nat \<comment> \<open>Nacos config clients made\<close>
  pr_locks :: "LockManager list" \<comment> \<open>lock managers made\<close>
  pr_default_client :: "nat option" \<comment> \<open>\<^verbatim>\<open>_defaultClient\<close>\<close>
  pr_controllers :: "registration list"
  pr_webhook :: bool
  pr_checks :: "string list"
  pr_started :: bool

definition initial_process :: proc where
  "initial_process = \<lparr>pr_clients = 0, pr_locks = [], pr_default_client = None, pr_controllers = [], pr_webhook = False,
     pr_checks = [], pr_started = False\<rparr>"

record Flags =
  fl_metricsAddr :: string
  fl_probeAddr :: string
  fl_enableLeaderElection :: bool
  fl_enableWebhook :: bool

definition default_flags :: Flags where
  "default_flags = \<lparr>fl_metricsAddr = '':8080'', fl_probeAddr = '':8081'', fl_enableLeaderElection = False, fl_enableWebhook = False\<rparr>"

record ManagerOptions =
  mo_MetricsBindAddress :: string
  mo_Port :: nat
  mo_HealthProbeBindAddress :: string
  mo_LeaderElection :: bool
  mo_LeaderElectionID :: string
  mo_LeaderElectionReleaseOnCancel :: bool

text \<open>
  The calls into controller-runtime and client-go.  \<^verbatim>\<open>GetConfigOrDie\<close> exits without a configuration; \<^verbatim>\<open>NewForConfigOrDie\<close>
  panics; \<^verbatim>\<open>utilruntime.Must\<close> panics on the error of a scheme registration.
\<close>

record 's Runtime =
  AddToScheme_clientgo :: "('s, go_error option) state"
  AddToScheme_v1 :: "string list \<Rightarrow> ('s, go_error option) state"
  GetConfigOrDie :: "('s, bool) state"
  NewManager :: "ManagerOptions \<Rightarrow> ('s, go_error option) state"
  NewForConfigOrDie :: "('s, bool) state"
  Builder_Complete :: "registration \<Rightarrow> ('s, go_error option) state"
  Webhook_Complete :: "string \<Rightarrow> ('s, go_error option) state"
  AddHealthzCheck :: "string \<Rightarrow> ('s, go_error option) state"
  AddReadyzCheck :: "string \<Rightarrow> ('s, go_error option) state"
  Manager_Start :: "('s, go_error option) state"

type_synonym 's main_state = "proc \<times> 's"

text \<open>A call whose error ends the process with \<^verbatim>\<open>os.Exit(1)\<close>; \<open>bindP\<close> goes on while the process runs.\<close>

definition bindP ::
  "('s main_state, 'a process) state \<Rightarrow> ('a \<Rightarrow> ('s main_state, 'b process) state) \<Rightarrow> ('s main_state, 'b process) state" where
  "bindP m f = do { r \<leftarrow> m; (case r of Running x \<Rightarrow> f x | Exited n \<Rightarrow> ret (Exited n) | Panicked \<Rightarrow> ret Panicked) }"

definition or_exit :: "('s main_state, go_error option) state \<Rightarrow> ('s main_state, unit process) state" where
  "or_exit m = do { e \<leftarrow> m; ret (if e = None then Running () else Exited 1) }"

definition must :: "('s main_state, go_error option) state \<Rightarrow> ('s main_state, unit process) state" where
  "must m = do { e \<leftarrow> m; ret (if e = None then Running () else Panicked) }"

section \<open>Constructors\<close>

text \<open>\<^verbatim>\<open>None\<close> is a nil field of \<^verbatim>\<open>SyncConfigOptions\<close>.\<close>

record SyncConfigOptions =
  opt_ConfigClient :: "nat option"
  opt_Locks :: "nat option"

definition make_client :: "('s main_state, nat) state" where
  "make_client = do { (p, _) \<leftarrow> gets id; modify (apfst (\<lambda>p. p\<lparr>pr_clients := Suc (pr_clients p)\<rparr>)); ret (pr_clients p) }"

definition make_locks :: "('s main_state, nat) state" where
  "make_locks = do {
     (p, _) \<leftarrow> gets id;
     modify (apfst (\<lambda>p. p\<lparr>pr_locks := pr_locks p @ [NewLockManager]\<rparr>));
     ret (length (pr_locks p)) }"

text \<open>The two constructors of configuration controllers have the same body.\<close>

definition NewDynamicConfigurationUpdateController :: "SyncConfigOptions \<Rightarrow> ('s main_state, ConfigController process) state" where
  "NewDynamicConfigurationUpdateController opt = do {
     (p, _) \<leftarrow> gets id;
     (case (case opt_ConfigClient opt of None \<Rightarrow> GetDefaultNacosClient (pr_default_client p) | Some c \<Rightarrow> Ok c) of
        Panic \<Rightarrow> ret Panicked
      | Ok c \<Rightarrow> do {
          l \<leftarrow> (case opt_Locks opt of None \<Rightarrow> make_locks | Some l \<Rightarrow> ret l);
          ret (Running \<lparr>ctl_configClient = c, ctl_locks = l\<rparr>) })
   }"

definition NewConfigurationSyncController :: "SyncConfigOptions \<Rightarrow> ('s main_state, ConfigController process) state" where
  "NewConfigurationSyncController opt = do {
     (p, _) \<leftarrow> gets id;
     (case (case opt_ConfigClient opt of None \<Rightarrow> GetDefaultNacosClient (pr_default_client p) | Some c \<Rightarrow> Ok c) of
        Panic \<Rightarrow> ret Panicked
      | Ok c \<Rightarrow> do {
          l \<leftarrow> (case opt_Locks opt of None \<Rightarrow> make_locks | Some l \<Rightarrow> ret l);
          ret (Running \<lparr>ctl_configClient = c, ctl_locks = l\<rparr>) })
   }"

definition NewDynamicConfigurationReconciler :: "SyncConfigOptions \<Rightarrow> ('s main_state, reconciler process) state" where
  "NewDynamicConfigurationReconciler opt =
     bindP (NewDynamicConfigurationUpdateController opt) (\<lambda>c. ret (Running (DynamicConfigurationReconciler c)))"

definition NewConfigMapReconciler :: "SyncConfigOptions \<Rightarrow> ('s main_state, reconciler process) state" where
  "NewConfigMapReconciler opt = bindP (NewConfigurationSyncController opt) (\<lambda>c. ret (Running (ConfigMapReconciler c)))"

definition NewSecretReconciler :: "SyncConfigOptions \<Rightarrow> ('s main_state, reconciler process) state" where
  "NewSecretReconciler opt = bindP (NewConfigurationSyncController opt) (\<lambda>c. ret (Running (SecretReconciler c)))"

definition NewServiceDiscoveryReconciler :: "('s main_state, reconciler process) state" where
  "NewServiceDiscoveryReconciler = ret (Running ServiceDiscoveryReconciler)"

section \<open>Registration\<close>

text \<open>\<^verbatim>\<open>Complete\<close> hands the controller to the manager unless it returns an error.\<close>

definition complete :: "'s Runtime \<Rightarrow> registration \<Rightarrow> ('s main_state, go_error option) state" where
  "complete R reg = do {
     e \<leftarrow> outside (Builder_Complete R reg);
     _ \<leftarrow> (if e = None then modify (apfst (\<lambda>p. p\<lparr>pr_controllers := pr_controllers p @ [reg]\<rparr>)) else ret ());
     ret e }"

definition DynamicConfigurationReconciler_SetupWithManager :: "'s Runtime \<Rightarrow> reconciler \<Rightarrow> ('s main_state, go_error option) state" where
  "DynamicConfigurationReconciler_SetupWithManager R r =
     complete R \<lparr>reg_For = ''DynamicConfiguration'', reg_Named = None, reg_Predicates = [''GenerationChangedPredicate''], reg_Reconciler = r\<rparr>"

definition ConfigMapReconciler_SetupWithManager :: "'s Runtime \<Rightarrow> reconciler \<Rightarrow> ('s main_state, go_error option) state" where
  "ConfigMapReconciler_SetupWithManager R r =
     complete R \<lparr>reg_For = ''ConfigMap'', reg_Named = Some ''configmap'', reg_Predicates = [], reg_Reconciler = r\<rparr>"

definition SecretReconciler_SetupWithManager :: "'s Runtime \<Rightarrow> reconciler \<Rightarrow> ('s main_state, go_error option) state" where
  "SecretReconciler_SetupWithManager R r =
     complete R \<lparr>reg_For = ''Secret'', reg_Named = Some ''secret'', reg_Predicates = [], reg_Reconciler = r\<rparr>"

definition ServiceDiscoveryReconciler_SetupWithManager :: "'s Runtime \<Rightarrow> reconciler \<Rightarrow> ('s main_state, go_error option) state" where
  "ServiceDiscoveryReconciler_SetupWithManager R r =
     complete R \<lparr>reg_For = ''ServiceDiscovery'', reg_Named = None, reg_Predicates = [], reg_Reconciler = r\<rparr>"

definition EndpointReconciler_SetupWithManager :: "'s Runtime \<Rightarrow> reconciler \<Rightarrow> ('s main_state, go_error option) state" where
  "EndpointReconciler_SetupWithManager R r =
     complete R \<lparr>reg_For = ''Endpoints'', reg_Named = None, reg_Predicates = [], reg_Reconciler = r\<rparr>"

definition ServiceReconciler_SetupWithManager :: "'s Runtime \<Rightarrow> reconciler \<Rightarrow> ('s main_state, go_error option) state" where
  "ServiceReconciler_SetupWithManager R r =
     complete R \<lparr>reg_For = ''Service'', reg_Named = Some ''ServiceController'', reg_Predicates = [], reg_Reconciler = r\<rparr>"

definition SetupWebhookWithManager :: "'s Runtime \<Rightarrow> ('s main_state, go_error option) state" where
  "SetupWebhookWithManager R = do {
     e \<leftarrow> outside (Webhook_Complete R ''DynamicConfiguration'');
     _ \<leftarrow> (if e = None then modify (apfst (\<lambda>p. p\<lparr>pr_webhook := True\<rparr>)) else ret ());
     ret e }"

definition add_check :: "string \<Rightarrow> (string \<Rightarrow> ('s, go_error option) state) \<Rightarrow> ('s main_state, go_error option) state" where
  "add_check name add = do {
     e \<leftarrow> outside (add name);
     _ \<leftarrow> (if e = None then modify (apfst (\<lambda>p. p\<lparr>pr_checks := pr_checks p @ [name]\<rparr>)) else ret ());
     ret e }"

section \<open>main\<close>

text \<open>The types the \<^verbatim>\<open>init\<close> functions of \<^verbatim>\<open>api/v1\<close> register with the scheme builder.\<close>

definition dynamicconfiguration_types :: "string list" where
  "dynamicconfiguration_types = [''DynamicConfiguration'', ''DynamicConfigurationList'']"

definition servicediscovery_types :: "string list" where
  "servicediscovery_types = [''ServiceDiscovery'', ''ServiceDiscoveryList'']"

definition main_init :: "'s Runtime \<Rightarrow> ('s main_state, unit process) state" where
  "main_init R =
     bindP (must (outside (AddToScheme_clientgo R))) (\<lambda>_.
       must (outside (AddToScheme_v1 R (dynamicconfiguration_types @ servicediscovery_types))))"

definition manager_options :: "Flags \<Rightarrow> ManagerOptions" where
  "manager_options fl = \<lparr>mo_MetricsBindAddress = fl_metricsAddr fl, mo_Port = 9443, mo_HealthProbeBindAddress = fl_probeAddr fl,
     mo_LeaderElection = fl_enableLeaderElection fl, mo_LeaderElectionID = ''nacos.io'', mo_LeaderElectionReleaseOnCancel = True\<rparr>"

definition start_manager :: "'s Runtime \<Rightarrow> ('s main_state, go_error option) state" where
  "start_manager R = do { modify (apfst (\<lambda>p. p\<lparr>pr_started := True\<rparr>)); outside (Manager_Start R) }"

text \<open>\<^verbatim>\<open>main\<close> after the flags are parsed; returning is the exit code 0.\<close>

definition main_program :: "'s Runtime \<Rightarrow> Flags \<Rightarrow> ('s main_state, unit process) state" where
  "main_program R fl =
     bindP (do { ok \<leftarrow> outside (GetConfigOrDie R); ret (if ok then Running () else Exited 1) }) (\<lambda>_.
     bindP (or_exit (outside (NewManager R (manager_options fl)))) (\<lambda>_.
     bindP (do { ok \<leftarrow> outside (GetConfigOrDie R); ret (if ok then Running () else Exited 1) }) (\<lambda>_.
     bindP (do { ok \<leftarrow> outside (NewForConfigOrDie R); ret (if ok then Running () else Panicked) }) (\<lambda>_. do {
       nacosConfigClient \<leftarrow> make_client;
       locks \<leftarrow> make_locks;
       let opt = \<lparr>opt_ConfigClient = Some nacosConfigClient, opt_Locks = Some locks\<rparr> in
       bindP (NewDynamicConfigurationReconciler opt) (\<lambda>r.
       bindP (or_exit (DynamicConfigurationReconciler_SetupWithManager R r)) (\<lambda>_.
       bindP (if fl_enableWebhook fl then or_exit (SetupWebhookWithManager R) else ret (Running ())) (\<lambda>_.
       bindP (NewConfigMapReconciler opt) (\<lambda>r.
       bindP (or_exit (ConfigMapReconciler_SetupWithManager R r)) (\<lambda>_.
       bindP (NewSecretReconciler opt) (\<lambda>r.
       bindP (or_exit (SecretReconciler_SetupWithManager R r)) (\<lambda>_.
       bindP NewServiceDiscoveryReconciler (\<lambda>r.
       bindP (or_exit (ServiceDiscoveryReconciler_SetupWithManager R r)) (\<lambda>_.
       bindP (or_exit (EndpointReconciler_SetupWithManager R EndpointReconciler)) (\<lambda>_.
       bindP (or_exit (ServiceReconciler_SetupWithManager R ServiceReconciler)) (\<lambda>_.
       bindP (or_exit (add_check ''healthz'' (AddHealthzCheck R))) (\<lambda>_.
       bindP (or_exit (add_check ''readyz'' (AddReadyzCheck R))) (\<lambda>_.
         or_exit (start_manager R))))))))))))))
     }))))"

section \<open>What is handed to the manager\<close>

text \<open>\<^verbatim>\<open>Complete\<close> names a controller after the lower-case kind unless \<^verbatim>\<open>Named\<close> was called; names must differ.\<close>

definition controller_name :: "registration \<Rightarrow> string" where
  "controller_name reg = (case reg_Named reg of Some n \<Rightarrow> n | None \<Rightarrow> ToLower (reg_For reg))"

text \<open>The controllers of the program, over one client and one lock manager.\<close>

definition all_controllers :: "ConfigController \<Rightarrow> registration list" where
  "all_controllers c =
     [\<lparr>reg_For = ''DynamicConfiguration'', reg_Named = None, reg_Predicates = [''GenerationChangedPredicate''],
        reg_Reconciler = DynamicConfigurationReconciler c\<rparr>,
      \<lparr>reg_For = ''ConfigMap'', reg_Named = Some ''configmap'', reg_Predicates = [], reg_Reconciler = ConfigMapReconciler c\<rparr>,
      \<lparr>reg_For = ''Secret'', reg_Named = Some ''secret'', reg_Predicates = [], reg_Reconciler = SecretReconciler c\<rparr>,
      \<lparr>reg_For = ''ServiceDiscovery'', reg_Named = None, reg_Predicates = [], reg_Reconciler = ServiceDiscoveryReconciler\<rparr>,
      \<lparr>reg_For = ''Endpoints'', reg_Named = None, reg_Predicates = [], reg_Reconciler = EndpointReconciler\<rparr>,
      \<lparr>reg_For = ''Service'', reg_Named = Some ''ServiceController'', reg_Predicates = [], reg_Reconciler = ServiceReconciler\<rparr>]"

definition ready_process :: "Flags \<Rightarrow> proc" where
  "ready_process fl = \<lparr>pr_clients = 1, pr_locks = [NewLockManager], pr_default_client = None,
     pr_controllers = all_controllers \<lparr>ctl_configClient = 0, ctl_locks = 0\<rparr>, pr_webhook = fl_enableWebhook fl,
     pr_checks = [''healthz'', ''readyz''], pr_started = True\<rparr>"

text \<open>The calls in order; a call that ends the process by itself is one that fails.\<close>

definition or_fail :: "('s, bool) state \<Rightarrow> ('s, go_error option) state" where
  "or_fail m = do { ok \<leftarrow> m; ret (if ok then None else Some (ErrOther [])) }"

definition startup_calls :: "'s Runtime \<Rightarrow> Flags \<Rightarrow> ('s, go_error option) state list" where
  "startup_calls R fl =
     (let cs = all_controllers \<lparr>ctl_configClient = 0, ctl_locks = 0\<rparr> in
      [or_fail (GetConfigOrDie R), NewManager R (manager_options fl), or_fail (GetConfigOrDie R), or_fail (NewForConfigOrDie R),
       Builder_Complete R (cs ! 0)] @
      (if fl_enableWebhook fl then [Webhook_Complete R ''DynamicConfiguration''] else []) @
      map (Builder_Complete R) (tl cs) @
      [AddHealthzCheck R ''healthz'', AddReadyzCheck R ''readyz'', Manager_Start R])"

text \<open>
  A part of the program makes the given calls until one fails.  If none does it goes on with \<open>x\<close> in the process \<open>q\<close>;
  otherwise it ends, and the manager was started only if everything had been handed to it.
\<close>

definition performs ::
  "Flags \<Rightarrow> ('s main_state, 'a process) state \<Rightarrow> ('s, go_error option) state list \<Rightarrow> proc \<Rightarrow> 'a \<Rightarrow> proc \<Rightarrow> bool" where
  "performs fl m calls p x q \<longleftrightarrow> (\<forall>s.
     case run_state (for_until_err id calls) s of
       (None, s') \<Rightarrow> run_state m (p, s) = (Running x, (q, s'))
     | (Some e, s') \<Rightarrow> \<exists>r p'. run_state m (p, s) = (r, (p', s')) \<and> r \<in> {Exited 1, Panicked} \<and>
         (pr_started p' \<longrightarrow> p' = ready_process fl \<and> r = Exited 1))"

lemma run_bindP:
  "run_state (bindP m f) w =
     (case run_state m w of (Running x, w') \<Rightarrow> run_state (f x) w' | (Exited n, w') \<Rightarrow> (Exited n, w') | (Panicked, w') \<Rightarrow> (Panicked, w'))"
  by (simp add: bindP_def split: prod.splits process.splits)

lemma run_until_err_append:
  "run_state (for_until_err f (xs @ ys)) s =
     (case run_state (for_until_err f xs) s of (None, s') \<Rightarrow> run_state (for_until_err f ys) s' | (Some e, s') \<Rightarrow> (Some e, s'))"
  by (induction xs arbitrary: s) (simp_all split: prod.splits option.splits)

lemma performs_bindP:
  assumes "performs fl m cs1 p x q" and "performs fl (f x) cs2 q y q'"
  shows "performs fl (bindP m f) (cs1 @ cs2) p y q'"
  unfolding performs_def run_until_err_append run_bindP
proof (rule allI)
  fix s
  obtain e s1 where one: "run_state (for_until_err id cs1) s = (e, s1)" by force
  show "case (case run_state (for_until_err id cs1) s of
        (None, s') \<Rightarrow> run_state (for_until_err id cs2) s' | (Some e, s') \<Rightarrow> (Some e, s')) of
      (None, s') \<Rightarrow> (case run_state m (p, s) of (Running x, w') \<Rightarrow> run_state (f x) w'
        | (Exited n, w') \<Rightarrow> (Exited n, w') | (Panicked, w') \<Rightarrow> (Panicked, w')) = (Running y, (q', s'))
    | (Some e, s') \<Rightarrow> \<exists>r p'. (case run_state m (p, s) of (Running x, w') \<Rightarrow> run_state (f x) w'
        | (Exited n, w') \<Rightarrow> (Exited n, w') | (Panicked, w') \<Rightarrow> (Panicked, w')) = (r, (p', s')) \<and>
        r \<in> {Exited 1, Panicked} \<and> (pr_started p' \<longrightarrow> p' = ready_process fl \<and> r = Exited 1)"
  proof (cases e)
    case None
    have "run_state m (p, s) = (Running x, (q, s1))"
      using assms(1) [unfolded performs_def, rule_format, of s] one None by simp
    then show ?thesis using assms(2) [unfolded performs_def, rule_format, of s1] one None
      by (simp split: prod.splits option.splits)
  next
    case (Some err)
    then show ?thesis using assms(1) [unfolded performs_def, rule_format, of s] one by auto
  qed
qed

lemma performs_none: "(\<And>s. run_state m (p, s) = (Running x, (q, s))) \<Longrightarrow> performs fl m [] p x q"
  by (simp add: performs_def)

text \<open>One call that ends the process with the exit code 1 on an error, with what it changes otherwise.\<close>

lemma performs_or_exit:
  assumes "\<And>s. run_state m (p, s) = (case run_state c s of (None, s') \<Rightarrow> (None, (q, s')) | (Some e, s') \<Rightarrow> (Some e, (p', s')))"
    and "pr_started p' \<longrightarrow> p' = ready_process fl"
  shows "performs fl (or_exit m) [c] p () q"
  using assms(2) by (auto simp: performs_def or_exit_def assms(1) split: prod.splits option.splits)

lemma performs_complete:
  assumes "\<not> pr_started p"
  shows "performs fl (or_exit (complete R reg)) [Builder_Complete R reg] p () (p\<lparr>pr_controllers := pr_controllers p @ [reg]\<rparr>)"
  by (rule performs_or_exit [where p' = p]) (use assms in \<open>auto simp: complete_def run_outside split: prod.split option.split\<close>)

lemma performs_check:
  assumes "\<not> pr_started p"
  shows "performs fl (or_exit (add_check name add)) [add name] p () (p\<lparr>pr_checks := pr_checks p @ [name]\<rparr>)"
  by (rule performs_or_exit [where p' = p]) (use assms in \<open>auto simp: add_check_def run_outside split: prod.split option.split\<close>)

lemma performs_webhook:
  assumes "\<not> pr_started p"
  shows "performs fl (if b then or_exit (SetupWebhookWithManager R) else ret (Running ()))
    (if b then [Webhook_Complete R ''DynamicConfiguration''] else []) p () (p\<lparr>pr_webhook := b \<or> pr_webhook p\<rparr>)"
proof (cases b)
  case True
  have "performs fl (or_exit (SetupWebhookWithManager R)) [Webhook_Complete R ''DynamicConfiguration''] p () (p\<lparr>pr_webhook := True\<rparr>)"
    by (rule performs_or_exit [where p' = p])
       (use assms in \<open>auto simp: SetupWebhookWithManager_def run_outside split: prod.split option.split\<close>)
  then show ?thesis using True by simp
qed (simp add: performs_none)

lemma performs_manager:
  assumes "\<not> pr_started p"
  shows "performs fl (or_exit (outside m)) [m] p () p"
  by (rule performs_or_exit [where p' = p]) (use assms in \<open>auto simp: run_outside split: prod.split option.split\<close>)

lemma performs_or_die:
  assumes "\<not> pr_started p" "r \<in> {Exited 1, Panicked}"
  shows "performs fl (do { ok \<leftarrow> outside m; ret (if ok then Running () else r) }) [or_fail m] p () p"
  using assms by (auto simp: performs_def or_fail_def run_outside split: prod.split)

lemma performs_start:
  assumes "p\<lparr>pr_started := True\<rparr> = ready_process fl"
  shows "performs fl (or_exit (start_manager R)) [Manager_Start R] p () (ready_process fl)"
  by (rule performs_or_exit [where p' = "ready_process fl"])
     (use assms in \<open>auto simp: start_manager_def run_outside split: prod.split option.split\<close>)

text \<open>With a client and a lock manager at hand the constructors only store them.\<close>

lemma constructors [simp]:
  "run_state (NewDynamicConfigurationReconciler \<lparr>opt_ConfigClient = Some c, opt_Locks = Some l\<rparr>) w =
    (Running (DynamicConfigurationReconciler \<lparr>ctl_configClient = c, ctl_locks = l\<rparr>), w)"
  "run_state (NewConfigMapReconciler \<lparr>opt_ConfigClient = Some c, opt_Locks = Some l\<rparr>) w =
    (Running (ConfigMapReconciler \<lparr>ctl_configClient = c, ctl_locks = l\<rparr>), w)"
  "run_state (NewSecretReconciler \<lparr>opt_ConfigClient = Some c, opt_Locks = Some l\<rparr>) w =
    (Running (SecretReconciler \<lparr>ctl_configClient = c, ctl_locks = l\<rparr>), w)"
  by (simp_all add: NewDynamicConfigurationReconciler_def NewConfigMapReconciler_def NewSecretReconciler_def run_bindP
      NewDynamicConfigurationUpdateController_def NewConfigurationSyncController_def split: prod.split)

text \<open>Steps that only touch the process.\<close>

lemma performs_bind:
  assumes "\<And>s. run_state m (p, s) = (a, (q, s))" and "performs fl (f a) cs q x q'"
  shows "performs fl (State_Monad.bind m f) cs p x q'"
proof -
  have eq: "run_state (State_Monad.bind m f) (p, s) = run_state (f a) (q, s)" for s by (simp add: assms(1))
  show ?thesis using assms(2) unfolding performs_def eq by assumption
qed

lemma performs_bindP_local:
  assumes "\<And>s. run_state m (p, s) = (Running a, (p, s))" and "performs fl (f a) cs p x q"
  shows "performs fl (bindP m f) cs p x q"
proof -
  have eq: "run_state (bindP m f) (p, s) = run_state (f a) (p, s)" for s by (simp add: run_bindP assms(1))
  show ?thesis using assms(2) unfolding performs_def eq by assumption
qed

lemmas performs_seq =
  performs_bindP [OF performs_or_die, simplified append_Cons append_Nil]
  performs_bindP [OF performs_manager, simplified append_Cons append_Nil]
  performs_bindP [OF performs_complete, simplified append_Cons append_Nil]
  performs_bindP [OF performs_check, simplified append_Cons append_Nil]
  performs_bindP [OF performs_webhook]
  performs_bindP_local [OF constructors(1)] performs_bindP_local [OF constructors(2)] performs_bindP_local [OF constructors(3)]
  performs_start

lemma main_performs: "performs fl (main_program R fl) (startup_calls R fl) initial_process () (ready_process fl)"
proof -
  define p1 where "p1 = initial_process\<lparr>pr_clients := 1\<rparr>"
  define p2 where "p2 = p1\<lparr>pr_locks := [NewLockManager]\<rparr>"
  have make: "run_state make_client (initial_process, s) = (0, (p1, s))" "run_state make_locks (p1, s) = (0, (p2, s))" for s :: 'a
    by (simp_all add: make_client_def make_locks_def p1_def p2_def initial_process_def)
  note calls = startup_calls_def [of R fl, unfolded all_controllers_def Let_def, simplified]
  note setups = DynamicConfigurationReconciler_SetupWithManager_def ConfigMapReconciler_SetupWithManager_def
    SecretReconciler_SetupWithManager_def ServiceDiscoveryReconciler_SetupWithManager_def
    EndpointReconciler_SetupWithManager_def ServiceReconciler_SetupWithManager_def
  have sd: "bindP NewServiceDiscoveryReconciler f = f ServiceDiscoveryReconciler" for f :: "reconciler \<Rightarrow> ('a main_state, unit process) state"
    by (simp add: NewServiceDiscoveryReconciler_def bindP_def)
  show ?thesis
    unfolding main_program_def Let_def sd setups calls
    by (intro performs_seq performs_bind [OF make(1)] performs_bind [OF make(2)])
       (simp_all add: p2_def p1_def initial_process_def ready_process_def all_controllers_def)
qed

text \<open>
  C34: \<^verbatim>\<open>main\<close> makes the calls of the list in this order, up to the first that fails, and none after it.  It starts the manager
  only when the six controllers have been handed to it, under different names, with both health checks, and with the webhook
  if the flag asks for it; the three configuration controllers then share one Nacos client and one lock manager.  It returns
  when every call succeeded, and ends with the exit code 1 or a panic otherwise.
\<close>

theorem main_starts_everything:
  assumes "run_state (main_program R fl) (initial_process, s) = (r, (p, s'))"
  shows "s' = exec (for_until_err id (startup_calls R fl)) s \<and>
    (r = Running () \<longleftrightarrow> result (for_until_err id (startup_calls R fl)) s = None) \<and> r \<in> {Running (), Exited 1, Panicked} \<and>
    (pr_started p \<longrightarrow> p = ready_process fl \<and> r \<noteq> Panicked) \<and> (r = Running () \<longrightarrow> pr_started p) \<and>
    distinct (map controller_name (pr_controllers (ready_process fl)))"
proof -
  have "distinct (map controller_name (pr_controllers (ready_process fl)))"
    by (simp add: ready_process_def all_controllers_def controller_name_def ToLower_def lower_char_def)
  then show ?thesis
    using main_performs [unfolded performs_def, rule_format, of R fl s] assms
    by (auto simp: ready_process_def split: prod.splits option.splits)
qed

text \<open>A runtime in which every call is counted and succeeds, except those that a test refuses.\<close>

definition counted :: "(nat \<Rightarrow> bool) \<Rightarrow> (nat, go_error option) state" where
  "counted bad = State (\<lambda>n. (if bad n then Some (ErrOther ''refused'') else None, Suc n))"

definition demo_runtime :: "(nat \<Rightarrow> bool) \<Rightarrow> nat Runtime" where
  "demo_runtime bad = \<lparr>AddToScheme_clientgo = counted bad, AddToScheme_v1 = (\<lambda>_. counted bad), GetConfigOrDie = ret True,
     NewManager = (\<lambda>_. counted bad), NewForConfigOrDie = ret True, Builder_Complete = (\<lambda>_. counted bad),
     Webhook_Complete = (\<lambda>_. counted bad), AddHealthzCheck = (\<lambda>_. counted bad), AddReadyzCheck = (\<lambda>_. counted bad),
     Manager_Start = counted bad\<rparr>"

theorem main_starts_everything_witness:
  "\<exists>p. run_state (main_program (demo_runtime (\<lambda>_. False)) (default_flags\<lparr>fl_enableWebhook := True\<rparr>)) (initial_process, 0) =
     (Running (), (p, 11)) \<and> pr_webhook p"
proof -
  let ?fl = "default_flags\<lparr>fl_enableWebhook := True\<rparr>"
  obtain r p s' where run: "run_state (main_program (demo_runtime (\<lambda>_. False)) ?fl) (initial_process, 0) = (r, (p, s'))"
    by (metis prod.collapse)
  have "run_state (for_until_err id (startup_calls (demo_runtime (\<lambda>_. False)) ?fl)) 0 = (None, 11)"
    by (simp add: startup_calls_def all_controllers_def demo_runtime_def counted_def or_fail_def)
  then show ?thesis using main_starts_everything [OF run] run by (auto simp: ready_process_def)
qed

text \<open>
  The constructors called without a client fall back on the registered default, which no code of the program registers: they
  panic.
\<close>

lemma constructor_without_client:
  assumes "pr_default_client p = None" and "opt_ConfigClient opt = None"
  shows "run_state (NewConfigurationSyncController opt) (p, s) = (Panicked, (p, s))"
    and "run_state (NewDynamicConfigurationUpdateController opt) (p, s) = (Panicked, (p, s))"
  using assms by (simp_all add: NewConfigurationSyncController_def NewDynamicConfigurationUpdateController_def GetDefaultNacosClient_def)

text \<open>Both fall back in the same way.\<close>

lemma constructors_agree: "NewConfigurationSyncController = NewDynamicConfigurationUpdateController"
  by (simp add: fun_eq_iff NewConfigurationSyncController_def NewDynamicConfigurationUpdateController_def)

end
