(* ===== verification/Spec2Isabelle.thy ===== *)
theory Spec2Isabelle
  imports Reconcilers Group_Agreement SD_Lifecycle Deep_Copy Startup
begin

text \<open>
  The Nacos controller (\<^verbatim>\<open>github.com/nacos-group/nacos-controller\<close>) is a Kubernetes operator with two halves.  The
  configuration half keeps the data of ConfigMaps and Secrets and the configurations of a Nacos server equal, as
  resources of type DynamicConfiguration ask; the service half registers the addresses of Services in Nacos, as
  resources of type ServiceDiscovery ask.  This library models the Go code of both and proves what makes each
  part correct.  \<^verbatim>\<open>src/\<close> is left out of the paths below.

  \<^bold>\<open>How the program is modelled.\<close>  A Go function that changes state is a program of the state monad, named as in the code;
  errors are values (\<open>go_error\<close>, \<open>go_error + 'a\<close>), and a call that can panic returns an \<open>outcome\<close>.  A struct is a
  record, a map an association list with distinct keys in the order a \<^verbatim>\<open>range\<close> visits it (where the code builds the map
  itself the order is a parameter \<open>rng\<close>), a string a list of bytes, \<^verbatim>\<open>uint64\<close> and \<^verbatim>\<open>int32\<close> are words.  Programs run on the state \<open>'s\<close> of
  everything outside the process, paired with the part of the process they share: the wrapper they work on, the
  client caches, the discovery tasks, the lock table.  What is not in the repository is a parameter: the Kubernetes API (records
  \<open>Kube\<close> and \<open>KubeSD\<close>), the Nacos SDK (\<open>NacosSDK\<close>, \<open>NamingSDK\<close>), the transport, clock and random generator (\<open>Net\<close>).  What the code relies
  on there is a named hypothesis (\<open>configmap_storage\<close>, \<open>dc_storage\<close>, \<open>finalizer_laws\<close>, \<open>config_storage\<close>, \<open>two_stores\<close>, \<open>naming_registry\<close>, \<open>registry_apart\<close>, \<open>kube_quiet\<close>, \<open>sd_world\<close>), and the
  witnesses instantiate each with a small server defined next to it.  These hypotheses bind successful calls only.  What a failed call answers
  is open, and where the code goes on with such an answer a history variable of the outside remembers it: \<open>misread s g d\<close> says that some read of the data
  id returned something else than its content (as a failed read does, whose content the code uses), \<open>misled s\<close> that some answer other than a complete
  one of status 200, or one that says \<^verbatim>\<open>not found\<close>, told something else than the instances of a service (such answers are used as well).

  \<^bold>\<open>What an object can represent.\<close>  A ConfigMap reads plain data before binary data, but JSON-like contents are written to the binary data; a Secret
  holds decoded base64.  So a stored content does not always read back: \<open>read_back obj d c\<close> is what reading finds after \<open>c\<close> was stored in \<open>obj\<close>,
  \<open>stored_back\<close> the same for a stored ConfigMap, and the theorems are stated with these for any content; \<open>object_accepts\<close> and \<open>stored_accepts\<close> single
  out the contents that read back as they are.

  \<^bold>\<open>Theories, bottom up.\<close>
  \<^item> \<open>Go_Prelude\<close>: strings, maps, errors, panics, loops over slices, the rules \<open>keeps_rules\<close> that carry an invariant through a program.
    \<open>Go_Base64\<close>, \<open>Go_Md5\<close>, \<open>Go_Hmac\<close>, \<open>Go_Strconv\<close>, \<open>Go_Json\<close>: the parts of the standard library the code calls, with round trips and test vectors.
  \<^item> \<open>Api_Types\<close> (\<^verbatim>\<open>api/v1/dynamicconfiguration_types.go\<close>, \<^verbatim>\<open>pkg/constant.go\<close>), \<open>Pkg_Utils\<close> (\<^verbatim>\<open>pkg/utils.go\<close>), \<open>Nacos_Util\<close> (\<^verbatim>\<open>pkg/nacos/util.go\<close>: contents of
    objects, digests, comparison of data ids) and \<open>DC_Status\<close> (\<^verbatim>\<open>pkg/nacos/dynamicconfiguration_util.go\<close>: the status, with its well-formedness \<open>wf_status\<close>).
  \<^item> \<open>Kube_Env\<close>: the Kubernetes parameters, their laws and the small API server of the examples.
  \<^item> \<open>Object_Wrapper\<close> (\<^verbatim>\<open>pkg/nacos/object_reference_wrapper.go\<close>), \<open>Config_Client\<close> (\<^verbatim>\<open>pkg/nacos/client\<close>, \<^verbatim>\<open>pkg/nacos/auth\<close>: clients are pooled under a
    key; the locale \<open>client_pool\<close> states the contract), \<open>Webhook\<close> (\<^verbatim>\<open>api/v1/dynamicconfiguration_webhook.go\<close>) and \<open>Server2Cluster\<close>
    (\<^verbatim>\<open>pkg/nacos/server2cluster.go\<close>: the listener that brings a server change into the cluster, and the lock manager).
  \<^item> \<open>Sync_Handler\<close>: the variables and steps the two synchronisers share.  \<open>Config_Sync\<close> (\<^verbatim>\<open>pkg/nacos/config_sync_controller.go\<close>) reacts to an object, \<open>DC_Controller\<close>
    (\<^verbatim>\<open>pkg/nacos/nacos_controller.go\<close>) to a DynamicConfiguration, with the discovery tasks as a step relation \<open>fuzzy_step\<close>.
  \<^item> \<open>Config_Agreement\<close> and \<open>Group_Agreement\<close>: the abstract account of the two.  An \<open>item\<close> is what there is of one data id: its content in the object and
    on the server, the recorded md5 and whether it is listened to.  A run without a failed data id is one function on items (\<open>sync_item\<close>, \<open>group_item\<close>).
  \<^item> \<open>Reconcilers\<close> (\<^verbatim>\<open>pkg/controller/{configmap,secret,dynamicconfiguration}_controller.go\<close>): the entry points of the configuration half.
  \<^item> \<open>Naming_Types\<close>, \<open>Naming_Convert\<close>, \<open>Naming_Http\<close>, \<open>Naming_Client\<close> (\<^verbatim>\<open>api/v1/servicediscovery_types.go\<close> and \<^verbatim>\<open>pkg/nacos/naming\<close>): what a Service asks for, the HTTP requests to
    Nacos, the client cache, and registration as the difference of two sets (locale \<open>address_diff\<close>, interpreted on \<open>diffAddresses\<close>).
  \<^item> \<open>Service_Discovery\<close> (\<^verbatim>\<open>pkg/controller/{servicediscovery,endpoint,service}_controller.go\<close>, \<^verbatim>\<open>pkg/nacos/naming/nacos_naming_controller.go\<close>): the entry points of the
    service half.
  \<^item> \<open>SD_Lifecycle\<close>: the life of one ServiceDiscovery as a step relation \<open>life\<close> over reconciliations, reconciliations of Endpoints and edits, until the
    API server drops it.
  \<^item> \<open>Go_Heap\<close>: an explicit memory with pointers, slices and maps, and the locale \<open>copying\<close> of deep copies; \<open>Deep_Copy\<close> (\<^verbatim>\<open>api/v1/zz_generated.deepcopy.go\<close>)
    interprets it on the generated copies, which are the only code where sharing matters.
  \<^item> \<open>Startup\<close> (\<^verbatim>\<open>cmd/main.go\<close>, the constructors and the \<^verbatim>\<open>SetupWithManager\<close> methods): what is handed to the manager of controller-runtime (record \<open>Runtime\<close>).
  \<^item> This theory: what spans the webhook and the controller.

  \<^bold>\<open>What is shown.\<close>  Delivery and agreement: what an attempt to bring a server change into the ConfigMap has done (C1), the first synchronisation follows the conflict
  policy (C2), a reconciliation refines one function on items, from either end, failed reads included (C5, C14), after which both sides agree on what
  could be read and stored (C16), a second one changes no content (C13, C28), and a change the server made is not sent back to it (C36).  Storing in an object or through a wrapper reads back
  as \<open>read_back\<close> and \<open>stored_back\<close> say (C32, C33).  Deletion: nothing is deleted remotely or emptied locally unless asked (C3, C4), and discovery writes over nothing it could read (C21).
  Status: well-formed on every path, with the phase its entries call for (C7, C15, C17, C18); references that are gone are no longer listened to (C6).
  Finalizers: set before synchronising (C22), kept until each listening was cancelled (C8), or until no recorded service is
  registered any more (C10); over the whole life of a ServiceDiscovery a service is left behind only by a reconciliation that failed (C29).  Services: the marked instances in Nacos are the addresses of the
  Endpoints (C9, C11, C37), the call does succeed when nothing refuses (C12), and a Service that is gone is withdrawn under its own name (C40), all of them unless a misleading answer was taken for a listing;
  registration works by an exact difference (C24), at a bounded cost (C25), with requests that tell services apart (C26).  Admission:
  the webhook's verdict (C30), defaulting (C31) and what an admitted resource can rely on (C23).  Copies of resources share no memory with
  the original (C38), and the manager is started with everything or not at all (C34).  Where the code does less
  than it seems to mean, the lemma says what it does (C39, C40 and the lemmas \<open>unrecorded_instance_stays\<close>, \<open>GetLock_race\<close>, \<open>refused_publication_lost\<close>,
  \<open>error_answer_leaves_instance\<close>, \<open>naming_client_shared\<close>, \<open>endpoint_leaves_no_address\<close>, \<open>RegisterService_unusable\<close>, \<open>SD_update_without_services\<close>,
  \<open>failed_read_overwrites_server\<close>, \<open>failed_read_adopts\<close>, \<open>failed_relisten_publishes\<close>, \<open>failed_cancellation_forgotten\<close>, \<open>json_over_plain_published_back\<close>,
  \<open>adoption_by_secret_lost\<close>, \<open>emptied_content_not_deleted\<close>, \<open>refused_flush_reported_as_synchronised\<close>, \<open>unreadable_group_skipped\<close>).

  \<^bold>\<open>Bounds.\<close>  The one loop without a bound in the code is the paged search: \<open>search_pages\<close> takes a number of pages as fuel, and C20 shows
  how many suffice.  The retry of the callback has three attempts (lemma \<open>callback_retries\<close>), the preparation of a service too (C25), JSON documents are
  nested at most 10000 deep as in the Go decoder; everything else is structural recursion.

  \<^bold>\<open>Concurrency.\<close>  A handler is one atomic program.  Where the code is concurrent on purpose, the interleaving is explicit: the two steps of
  \<open>GetLock\<close>, and the start, turn and end of discovery tasks.  The hypotheses on stores say that nobody else writes during one call.

  \<^bold>\<open>Not modelled.\<close>  The parsing of flags by the standard library, the scheme of \<^verbatim>\<open>api/v1/groupversion_info.go\<close> beyond the types registered with
  it, the copies of Kubernetes metadata (a parameter), logging and printing, the text of errors made by the standard library and the SDK, and the syntax
  check of URLs in \<^verbatim>\<open>http.NewRequest\<close> (its error is a parameter).

  \<^bold>\<open>Open.\<close>  The refinement of \<open>Group_Agreement\<close> for Secrets, and its composition over all groups of a resource; runs in which some data ids fail.
\<close>

section \<open>From admission to synchronisation\<close>

text \<open>
  C23: a resource the webhook admits can be synchronised: each of its object references has a wrapper, and the
  controller dispatches on its scope, runs the full or the partial synchronisation and, if that
  succeeds, starts the discovery task; the unsupported-scope error is never the answer.
\<close>

theorem admitted_resource_synchronises:
  assumes "ValidateCreate K (h_dc h) = None"
  shows "(\<forall>ref\<in>set (spec_refs (h_dc h)). \<exists>w. NewObjectReferenceWrapper K ref = Inr w) \<and>
    run_state (SyncDynamicConfiguration K C rng) (z, h) =
      (case run_state (if ss_SyncScope (dc_Strategy (h_dc h)) = SyncScopeFull then syncFull K C rng else syncPartial K C rng) h of
         (Ok None, h') \<Rightarrow> (Ok None, (FuzzyListenConfig (h_dc h') z, h'))
       | (r, h') \<Rightarrow> (r, (z, h')))"
proof -
  have adm: "admissible K (h_dc h)" using assms by (simp add: ValidateCreate_def validateDC_iff)
  have "\<exists>w. NewObjectReferenceWrapper K ref = Inr w" if ref: "ref \<in> set (spec_refs (h_dc h))" for ref
  proof -
    have "supported_ref K ref"
      using ref adm by (auto simp: spec_refs_def object_refs_def admissible_def split: option.splits)
    then show ?thesis by (simp add: supported_ref_wrapper)
  qed
  moreover have "ss_SyncScope (dc_Strategy (h_dc h)) = SyncScopeFull \<or> ss_SyncScope (dc_Strategy (h_dc h)) = SyncScopePartial"
    using adm by (auto simp: admissible_def)
  ultimately show ?thesis
    by (auto simp: SyncDynamicConfiguration_def Let_def run_bindO split: prod.splits outcome.splits option.splits)
qed

theorem admitted_resource_synchronises_witness:
  "\<exists>w. NewObjectReferenceWrapper one_cluster (demo_ref\<lparr>or_Namespace := ''ns''\<rparr>) = Inr w"
proof -
  have "supported_ref one_cluster demo_ref"
    by (simp add: supported_ref_def ref_gvk_string_def one_cluster_def api_server_def demo_ref_def ConfigMapGVK_def)
  then have "ValidateCreate one_cluster (demo_dc False) = None"
    by (simp add: ValidateCreate_def validateDC_iff admissible_def demo_dc_def dc_constants)
  then have "\<forall>ref\<in>set (spec_refs (demo_dc False)). \<exists>w. NewObjectReferenceWrapper one_cluster ref = Inr w"
    using admitted_resource_synchronises [of one_cluster "\<lparr>h_world = demo_cluster False, h_obj = (), h_dc = demo_dc False, h_errs = []\<rparr>"]
    by simp
  moreover have "demo_ref\<lparr>or_Namespace := ''ns''\<rparr> \<in> set (spec_refs (demo_dc False))"
    by (simp add: spec_refs_def object_refs_def demo_dc_def demo_meta_def)
  ultimately show ?thesis by blast
qed

end
